(* ===== verification/Disco_Prelude.thy ===== *)
theory Disco_Prelude
  imports Main "HOL-Library.Word" "HOL-Library.Multiset"
begin

text \<open>
  The common ground of the development: the machine types the program uses, the time values
  of \<open>sys/time.h\<close>, and the C library's string functions that the source calls
  (\<open>strnlen\<close>, \<open>strncmp\<close>, \<open>strndup\<close>, \<open>strtoull\<close> with base 10, and the \<open>sprintf\<close>
  conversions \<open>%ju\<close> and \<open>%d\<close>). A C string is the list of its characters before the
  terminating NUL. The lemmas on decimal printing and parsing are shared by every component
  that formats or reads a snowflake ID.
\<close>

section \<open>Machine types\<close>

type_synonym u64 = "64 word"
type_synonym c_int = "32 word"
type_synonym addr = "64 word"

abbreviation NULL :: addr where
  "NULL \<equiv> 0"

named_theorems c_string_simps \<open>unfolding rules of the C string functions\<close>

section \<open>Time values\<close>

text \<open>\<open>struct timeval\<close>: seconds and microseconds, as the code stores them (not normalised).\<close>

record timeval =
  tv_sec :: int
  tv_usec :: int

text \<open>
  The comparison that \<open>prio_push\<close> writes out:
  \<open>a.tv_sec < b.tv_sec || (a.tv_sec == b.tv_sec && a.tv_usec <= b.tv_usec)\<close>.
  \<open>is_future\<close> of the thread pool is the same test with the current time on the left.
\<close>

definition tv_le :: "timeval \<Rightarrow> timeval \<Rightarrow> bool" where
  "tv_le a b \<longleftrightarrow> tv_sec a < tv_sec b \<or> (tv_sec a = tv_sec b \<and> tv_usec a \<le> tv_usec b)"

definition tv_less :: "timeval \<Rightarrow> timeval \<Rightarrow> bool" where
  "tv_less a b \<longleftrightarrow> tv_sec a < tv_sec b \<or> (tv_sec a = tv_sec b \<and> tv_usec a < tv_usec b)"

definition secs :: "int \<Rightarrow> timeval" where
  "secs s = \<lparr>tv_sec = s, tv_usec = 0\<rparr>"

lemma tv_le_secs [simp]: "tv_le (secs a) (secs b) \<longleftrightarrow> a \<le> b"
  by (auto simp: tv_le_def secs_def)

lemma tv_le_refl [simp]: "tv_le a a"
  by (simp add: tv_le_def)

lemma tv_le_trans: "tv_le a b \<Longrightarrow> tv_le b c \<Longrightarrow> tv_le a c"
  by (auto simp: tv_le_def)

lemma tv_le_total: "tv_le a b \<or> tv_le b a"
  by (auto simp: tv_le_def)

lemma tv_le_antisym: "tv_le a b \<Longrightarrow> tv_le b a \<Longrightarrow> a = b"
  by (auto simp: tv_le_def)

lemma not_tv_le: "\<not> tv_le a b \<longleftrightarrow> tv_less b a"
  by (auto simp: tv_le_def tv_less_def)

lemma tv_less_imp_le: "tv_less a b \<Longrightarrow> tv_le a b"
  by (auto simp: tv_le_def tv_less_def)

section \<open>C strings\<close>

text \<open>\<open>strnlen(s, n)\<close>, \<open>strndup(s, n)\<close> and the zero test of \<open>strncmp(a, b, n)\<close>.\<close>

definition strnlen :: "string \<Rightarrow> nat \<Rightarrow> nat" where
  "strnlen s n = min (length s) n"

definition strndup :: "string \<Rightarrow> nat \<Rightarrow> string" where
  "strndup s n = take n s"

fun strncmp_eq :: "string \<Rightarrow> string \<Rightarrow> nat \<Rightarrow> bool" where
  "strncmp_eq _ _ 0 \<longleftrightarrow> True"
| "strncmp_eq [] [] (Suc n) \<longleftrightarrow> True"
| "strncmp_eq (a # as) (b # bs) (Suc n) \<longleftrightarrow> a = b \<and> strncmp_eq as bs n"
| "strncmp_eq _ _ (Suc n) \<longleftrightarrow> False"

declare strnlen_def [c_string_simps] strndup_def [c_string_simps]

text \<open>
  A comparison whose length exceeds the literal also compares the literal's NUL, so it is
  equality of the two strings; a shorter one is a prefix test.
\<close>

lemma strncmp_eq_take: "strncmp_eq s t n \<longleftrightarrow> take n s = take n t"
  by (induction s t n rule: strncmp_eq.induct) auto

lemma strncmp_eq_exact: "length t < n \<Longrightarrow> strncmp_eq s t n \<longleftrightarrow> s = t"
proof -
  assume n: "length t < n"
  have "s = t" if eq: "take n s = t"
  proof -
    from eq n have "length s < n"
      by (metis length_take min_less_iff_conj not_less_iff_gr_or_eq)
    with eq show ?thesis by simp
  qed
  with n show ?thesis by (auto simp: strncmp_eq_take)
qed

lemma length_strndup_le: "length (strndup s n) \<le> n"
  by (simp add: strndup_def)

lemma strndup_id [simp]: "length s \<le> n \<Longrightarrow> strndup s n = s"
  by (simp add: strndup_def)

lemma strndup_strndup [simp]: "strndup (strndup s m) n = strndup s (min m n)"
  by (simp add: strndup_def min.commute)

section \<open>Decimal numbers\<close>

definition digit_char :: "nat \<Rightarrow> char" where
  "digit_char d = char_of (48 + d)"

definition is_digit_char :: "char \<Rightarrow> bool" where
  "is_digit_char c \<longleftrightarrow> 48 \<le> (of_char c :: nat) \<and> (of_char c :: nat) \<le> 57"

definition digit_value :: "char \<Rightarrow> nat" where
  "digit_value c = of_char c - 48"

text \<open>The digits \<open>%ju\<close> and \<open>%d\<close> print.\<close>

fun show_nat :: "nat \<Rightarrow> string" where
  "show_nat n = (if n < 10 then [digit_char n]
                 else show_nat (n div 10) @ [digit_char (n mod 10)])"

declare show_nat.simps [simp del]

definition show_u64 :: "u64 \<Rightarrow> string" where
  "show_u64 w = show_nat (unat w)"

definition show_int :: "int \<Rightarrow> string" where
  "show_int i = (if i < 0 then CHR ''-'' # show_nat (nat (- i)) else show_nat (nat i))"

definition parse_digits :: "string \<Rightarrow> nat" where
  "parse_digits s = foldl (\<lambda>acc c. 10 * acc + digit_value c) 0 s"

text \<open>
  \<open>strtoull(s, NULL, 10)\<close>: white space is skipped, one sign is accepted, the longest run
  of digits is read, a value beyond the type gives \<open>ULLONG_MAX\<close>, and a minus sign negates
  the result in the unsigned type.
\<close>

definition is_space_char :: "char \<Rightarrow> bool" where
  "is_space_char c \<longleftrightarrow> of_char c = (32::nat) \<or> (9 \<le> (of_char c :: nat) \<and> (of_char c :: nat) \<le> 13)"

definition strtoull10 :: "string \<Rightarrow> u64" where
  "strtoull10 s =
     (let s1 = dropWhile is_space_char s;
          neg = (s1 \<noteq> [] \<and> hd s1 = CHR ''-'');
          s2 = (if s1 \<noteq> [] \<and> (hd s1 = CHR ''-'' \<or> hd s1 = CHR ''+'') then tl s1 else s1);
          v = parse_digits (takeWhile is_digit_char s2)
      in if 2 ^ 64 \<le> v then - 1
         else if neg then - of_nat v else of_nat v)"

lemma of_char_digit_char: "d < 10 \<Longrightarrow> of_char (digit_char d) = 48 + d"
  by (simp add: digit_char_def)

lemma is_digit_digit_char [simp]: "d < 10 \<Longrightarrow> is_digit_char (digit_char d)"
  by (simp add: is_digit_char_def of_char_digit_char)

lemma digit_value_digit_char [simp]: "d < 10 \<Longrightarrow> digit_value (digit_char d) = d"
  by (simp add: digit_value_def of_char_digit_char)

lemma show_nat_digits: "c \<in> set (show_nat n) \<Longrightarrow> is_digit_char c"
proof (induction n rule: show_nat.induct)
  case (1 n)
  then show ?case by (cases "n < 10") (auto simp: show_nat.simps [of n])
qed

lemma show_nat_nonempty [simp]: "show_nat n \<noteq> []"
  by (subst show_nat.simps) simp

lemma parse_digits_snoc: "parse_digits (s @ [c]) = 10 * parse_digits s + digit_value c"
  by (simp add: parse_digits_def)

lemma parse_show_nat [simp]: "parse_digits (show_nat n) = n"
proof (induction n rule: show_nat.induct)
  case (1 n)
  show ?case
  proof (cases "n < 10")
    case True
    then show ?thesis by (simp add: show_nat.simps [of n] parse_digits_def)
  next
    case False
    then show ?thesis
      using "1.IH" by (simp add: show_nat.simps [of n] parse_digits_snoc)
  qed
qed

lemma length_show_nat_le_iff: "0 < k \<Longrightarrow> length (show_nat n) \<le> k \<longleftrightarrow> n < 10 ^ k"
proof (induction n arbitrary: k rule: show_nat.induct)
  case (1 n)
  show ?case
  proof (cases "n < 10")
    case True
    have "(10::nat) ^ 1 \<le> 10 ^ k"
      using "1.prems" by (intro power_increasing) auto
    with True "1.prems" show ?thesis by (simp add: show_nat.simps [of n])
  next
    case False
    show ?thesis
    proof (cases "k = 1")
      case True
      with False show ?thesis
        by (simp add: show_nat.simps [of n])
    next
      case k: False
      then obtain j where j: "k = Suc j" "0 < j"
        using "1.prems" by (cases k) auto
      have "length (show_nat n) \<le> k \<longleftrightarrow> length (show_nat (n div 10)) \<le> j"
        using False j by (simp add: show_nat.simps [of n])
      also have "\<dots> \<longleftrightarrow> n div 10 < 10 ^ j"
        using False j by (intro "1.IH") auto
      also have "\<dots> \<longleftrightarrow> n < 10 ^ k"
        using j by (simp add: div_less_iff_less_mult mult.commute)
      finally show ?thesis .
    qed
  qed
qed

lemma length_show_u64: "length (show_u64 w) \<le> 20"
proof -
  have "unat w < 2 ^ 64" using unsigned_less [of w] by simp
  then have "unat w < 10 ^ 20" by simp
  then show ?thesis by (simp add: show_u64_def length_show_nat_le_iff)
qed

lemma digit_not_space: "is_digit_char c \<Longrightarrow> \<not> is_space_char c"
  by (auto simp: is_digit_char_def is_space_char_def)

lemma digit_not_sign: "is_digit_char c \<Longrightarrow> c \<noteq> CHR ''-'' \<and> c \<noteq> CHR ''+''"
  by (auto simp: is_digit_char_def)

text \<open>Printing an ID with \<open>%ju\<close> and reading it back with \<open>strtoull\<close> gives the ID.\<close>

lemma strtoull10_show_u64 [simp]: "strtoull10 (show_u64 w) = w"
proof -
  let ?s = "show_u64 w"
  have dig: "\<And>c. c \<in> set ?s \<Longrightarrow> is_digit_char c"
    by (auto simp: show_u64_def dest: show_nat_digits)
  obtain c cs where s: "?s = c # cs"
    by (cases ?s) (auto simp: show_u64_def)
  have c: "is_digit_char c" using dig s by simp
  then have dw: "dropWhile is_space_char ?s = ?s"
    by (simp add: s digit_not_space)
  have tw: "takeWhile is_digit_char ?s = ?s"
    using dig by (simp add: takeWhile_eq_all_conv)
  have hd: "hd ?s \<noteq> CHR ''-''" "hd ?s \<noteq> CHR ''+''"
    using digit_not_sign [OF c] by (simp_all add: s)
  have pd: "parse_digits ?s = unat w" by (simp add: show_u64_def)
  have "unat w < 2 ^ 64" using unsigned_less [of w] by simp
  then show ?thesis by (simp add: strtoull10_def Let_def dw tw hd pd)
qed

end
