(* ===== verification/Prio_Queue.thy ===== *)
theory Prio_Queue
  imports Disco_Prelude
begin

text \<open>
  \<open>src/utils/prio_queue.c\<close>: the singly linked queue of timed work items, modelled with its
  pointers. The heap maps an address to the node allocated there, a read or a free of an
  address with no node is a fault (\<open>None\<close>), and \<open>malloc\<close> is the address argument of
  \<open>prio_push\<close>. \<open>seg\<close> and \<open>queue_rep\<close> relate a heap to the list of its nodes;
  the refinement lemmas say what each operation does to that list. The interface the
  thread pool relies on is the locale \<open>timed_queue\<close>, interpreted here on these operations.
\<close>

section \<open>The code\<close>

record 'a prio_node =
  node_data :: 'a
  node_wait_until :: timeval
  node_next :: addr

record prio_queue =
  q_head :: addr
  q_size :: u64

type_synonym 'a node_heap = "addr \<rightharpoonup> 'a prio_node"

definition prio_init :: prio_queue where
  "prio_init = \<lparr>q_head = NULL, q_size = 0\<rparr>"

text \<open>A store through a node pointer, and \<open>free\<close>.\<close>

definition set_next :: "'a node_heap \<Rightarrow> addr \<Rightarrow> addr \<Rightarrow> 'a node_heap option" where
  "set_next h a v =
     (case h a of None \<Rightarrow> None | Some n \<Rightarrow> Some (h(a \<mapsto> n\<lparr>node_next := v\<rparr>)))"

definition free_node :: "'a node_heap \<Rightarrow> addr \<Rightarrow> 'a node_heap option" where
  "free_node h a = (case h a of None \<Rightarrow> None | Some _ \<Rightarrow> Some (h(a := None)))"

text \<open>The \<open>while\<close> loop of \<open>prio_push\<close>: it returns the final \<open>prev\<close> and \<open>cur\<close>.\<close>

partial_function (option) prio_push_scan ::
  "'a node_heap \<Rightarrow> timeval \<Rightarrow> addr \<Rightarrow> addr \<Rightarrow> (addr \<times> addr) option" where
  "prio_push_scan h w prev cur =
     (case h cur of None \<Rightarrow> None
      | Some c \<Rightarrow>
          if node_next c \<noteq> NULL \<and> tv_le (node_wait_until c) w
          then prio_push_scan h w cur (node_next c)
          else Some (prev, cur))"

definition prio_push ::
  "'a node_heap \<Rightarrow> prio_queue \<Rightarrow> addr \<Rightarrow> 'a \<Rightarrow> timeval \<Rightarrow> ('a node_heap \<times> prio_queue) option" where
  "prio_push h q p d w =
     (let h1 = h(p \<mapsto> \<lparr>node_data = d, node_wait_until = w, node_next = NULL\<rparr>)
      in if q_head q = NULL then Some (h1, q\<lparr>q_head := p, q_size := 1\<rparr>)
         else let q1 = q\<lparr>q_size := q_size q + 1\<rparr>
           in case prio_push_scan h1 w NULL (q_head q) of None \<Rightarrow> None
              | Some (prev, cur) \<Rightarrow>
                  case (if prev \<noteq> NULL then set_next h1 prev p else Some h1) of None \<Rightarrow> None
                  | Some h2 \<Rightarrow>
                      let q2 = (if prev = NULL then q1\<lparr>q_head := p\<rparr> else q1)
                      in case set_next h2 p cur of None \<Rightarrow> None
                         | Some h3 \<Rightarrow> Some (h3, q2))"

text \<open>The popped node stays allocated: the caller frees it.\<close>

definition prio_pop :: "'a node_heap \<Rightarrow> prio_queue \<Rightarrow> (addr \<times> prio_queue) option" where
  "prio_pop h q =
     (if q_head q = NULL then Some (NULL, q)
      else case h (q_head q) of None \<Rightarrow> None
           | Some n \<Rightarrow>
               Some (q_head q, q\<lparr>q_head := node_next n, q_size := q_size q - 1\<rparr>))"

definition prio_destroy_node :: "'a node_heap \<Rightarrow> addr \<Rightarrow> 'a node_heap option" where
  "prio_destroy_node h a = (if a = NULL then Some h else free_node h a)"

text \<open>The \<open>do ... while (cur && cur->next)\<close> loop, entered with a non-NULL \<open>cur\<close>.\<close>

partial_function (option) prio_destroy_loop :: "'a node_heap \<Rightarrow> addr \<Rightarrow> 'a node_heap option" where
  "prio_destroy_loop h cur =
     (case h cur of None \<Rightarrow> None
      | Some c \<Rightarrow>
          case prio_destroy_node h cur of None \<Rightarrow> None
          | Some h1 \<Rightarrow>
              if node_next c = NULL then Some h1
              else case h1 (node_next c) of None \<Rightarrow> None
                   | Some c2 \<Rightarrow>
                       if node_next c2 \<noteq> NULL then prio_destroy_loop h1 (node_next c)
                       else Some h1)"

definition prio_destroy_queue :: "'a node_heap \<Rightarrow> prio_queue \<Rightarrow> 'a node_heap option" where
  "prio_destroy_queue h q =
     (if q_head q = NULL then Some h else prio_destroy_loop h (q_head q))"

section \<open>The list a heap represents\<close>

text \<open>A list element is a node: its address, its data and its time.\<close>

type_synonym 'a qnode = "addr \<times> 'a \<times> timeval"

abbreviation qn_addr :: "'a qnode \<Rightarrow> addr" where
  "qn_addr x \<equiv> fst x"

abbreviation qn_data :: "'a qnode \<Rightarrow> 'a" where
  "qn_data x \<equiv> fst (snd x)"

abbreviation qn_wait :: "'a qnode \<Rightarrow> timeval" where
  "qn_wait x \<equiv> snd (snd x)"

text \<open>\<open>seg h p ns q\<close>: following \<open>next\<close> from \<open>p\<close> visits \<open>ns\<close> and arrives at \<open>q\<close>.\<close>

fun seg :: "'a node_heap \<Rightarrow> addr \<Rightarrow> 'a qnode list \<Rightarrow> addr \<Rightarrow> bool" where
  "seg h p [] q \<longleftrightarrow> p = q"
| "seg h p (x # xs) q \<longleftrightarrow> p = qn_addr x \<and> p \<noteq> NULL \<and>
     (case h p of None \<Rightarrow> False
      | Some n \<Rightarrow> node_data n = qn_data x \<and> node_wait_until n = qn_wait x \<and>
                  seg h (node_next n) xs q)"

definition queue_rep :: "'a node_heap \<Rightarrow> prio_queue \<Rightarrow> 'a qnode list \<Rightarrow> bool" where
  "queue_rep h q ns \<longleftrightarrow> seg h (q_head q) ns NULL \<and> distinct (map qn_addr ns) \<and>
     q_size q = of_nat (length ns)"

text \<open>What \<open>prio_push\<close> does to the list: the last node never takes part in the search.\<close>

definition push_list :: "'a qnode \<Rightarrow> 'a qnode list \<Rightarrow> 'a qnode list" where
  "push_list x ns =
     (if ns = [] then [x]
      else takeWhile (\<lambda>y. tv_le (qn_wait y) (qn_wait x)) (butlast ns) @
           x # dropWhile (\<lambda>y. tv_le (qn_wait y) (qn_wait x)) (butlast ns) @ [last ns])"

lemma seg_append: "seg h p (xs @ ys) q \<longleftrightarrow> (\<exists>r. seg h p xs r \<and> seg h r ys q)"
  by (induction xs arbitrary: p) (auto split: option.splits)

lemma seg_frame: "a \<notin> qn_addr ` set xs \<Longrightarrow> seg (h(a := v)) p xs q = seg h p xs q"
  by (induction xs arbitrary: p) (auto split: option.splits)

lemma seg_heap_cong:
  "(\<And>a. a \<in> qn_addr ` set xs \<Longrightarrow> h' a = h a) \<Longrightarrow> seg h' p xs q = seg h p xs q"
  by (induction xs arbitrary: p) (auto split: option.splits)

lemma seg_NULL: "seg h NULL ns q \<Longrightarrow> ns = [] \<and> q = NULL"
  by (cases ns) auto

lemma seg_alloc: "seg h p ns q \<Longrightarrow> a \<in> qn_addr ` set ns \<Longrightarrow> a \<noteq> NULL \<and> h a \<noteq> None"
  by (induction ns arbitrary: p) (auto split: option.splits)

lemma seg_redirect:
  assumes "seg h p (xs @ [x]) q" and "distinct (map qn_addr (xs @ [x]))"
    and "h (qn_addr x) = Some n"
  shows "seg (h(qn_addr x \<mapsto> n\<lparr>node_next := r\<rparr>)) p (xs @ [x]) r"
proof -
  from assms have "qn_addr x \<notin> qn_addr ` set xs" by auto
  with assms show ?thesis
    by (auto simp: seg_append seg_frame split: option.splits)
qed

lemma set_push_list: "set (push_list x ns) = insert x (set ns)"
proof (cases "ns = []")
  case False
  then have "set ns = insert (last ns) (set (butlast ns))"
    by (metis append_butlast_last_id list.set(1) list.simps(15) set_append sup_bot.right_neutral
        Un_insert_right)
  moreover have "set (butlast ns) =
      set (takeWhile (\<lambda>y. tv_le (qn_wait y) (qn_wait x)) (butlast ns)) \<union>
      set (dropWhile (\<lambda>y. tv_le (qn_wait y) (qn_wait x)) (butlast ns))"
    by (metis set_append takeWhile_dropWhile_id)
  ultimately show ?thesis using False by (auto simp: push_list_def)
qed (simp add: push_list_def)

lemma mset_push_list: "mset (push_list x ns) = add_mset x (mset ns)"
proof (cases "ns = []")
  case False
  let ?P = "\<lambda>y. tv_le (qn_wait y) (qn_wait x)"
  have "mset ns = mset (butlast ns) + {#last ns#}"
    using False by (metis append_butlast_last_id mset.simps(1,2) mset_append)
  moreover have "mset (butlast ns) = mset (takeWhile ?P (butlast ns)) + mset (dropWhile ?P (butlast ns))"
    by (metis mset_append takeWhile_dropWhile_id)
  ultimately show ?thesis using False by (simp add: push_list_def)
qed (simp add: push_list_def)

lemma length_push_list [simp]: "length (push_list x ns) = Suc (length ns)"
  by (metis mset_push_list size_add_mset size_mset)

lemma push_list_nonempty [simp]: "push_list x ns \<noteq> []"
  by (simp add: push_list_def)

lemma distinct_push_list:
  "distinct (map qn_addr ns) \<Longrightarrow> qn_addr x \<notin> qn_addr ` set ns \<Longrightarrow>
   distinct (map qn_addr (push_list x ns))"
  by (metis distinct.simps(2) list.set_map list.simps(9) mset_eq_imp_distinct_iff mset_map
      mset_push_list mset.simps(2))

section \<open>Each operation on the represented list\<close>

lemma scan_seg:
  "seg h cur (b @ [l]) NULL \<Longrightarrow>
   prio_push_scan h w prev cur =
     (let t = takeWhile (\<lambda>y. tv_le (qn_wait y) w) b;
          r = dropWhile (\<lambda>y. tv_le (qn_wait y) w) b @ [l]
      in Some (if t = [] then prev else qn_addr (last t), qn_addr (hd r)))"
proof (induction b arbitrary: prev cur)
  case Nil
  then show ?case
    by (subst prio_push_scan.simps) (auto split: option.splits)
next
  case (Cons x b)
  then obtain n where n: "h cur = Some n" "node_wait_until n = qn_wait x" "cur = qn_addr x"
      "seg h (node_next n) (b @ [l]) NULL"
    by (auto split: option.splits)
  have "node_next n \<noteq> NULL" using n(4) seg_NULL by fastforce
  then show ?case
    using n Cons.IH [OF n(4)] by (subst prio_push_scan.simps) (auto simp: Let_def)
qed

lemma set_next_upd: "h a = Some n \<Longrightarrow> set_next h a v = Some (h(a \<mapsto> n\<lparr>node_next := v\<rparr>))"
  by (simp add: set_next_def)

lemma seg_last_alloc:
  "seg h p (xs @ [x]) q \<Longrightarrow> \<exists>n. h (qn_addr x) = Some n \<and> node_data n = qn_data x \<and>
     node_wait_until n = qn_wait x"
  by (auto simp: seg_append split: option.splits)

text \<open>Linking a node between the two halves of the chain, as the end of \<open>prio_push\<close> does.\<close>

lemma link_between:
  assumes seg: "seg h p (t @ r) NULL" and dist: "distinct (map qn_addr (t @ r))"
    and fresh: "a \<notin> qn_addr ` set (t @ r)" "a \<noteq> NULL"
    and t: "t \<noteq> []" and r: "r \<noteq> []"
    and ha: "h a = Some n" "node_data n = d" "node_wait_until n = w"
  shows "\<exists>h2 h3. set_next h (qn_addr (last t)) a = Some h2 \<and>
      set_next h2 a (qn_addr (hd r)) = Some h3 \<and>
      seg h3 p (t @ (a, d, w) # r) NULL \<and>
      (\<forall>b. b \<notin> insert a (qn_addr ` set t) \<longrightarrow> h3 b = h b)"
proof -
  obtain t' x where t': "t = t' @ [x]" using t by (metis rev_exhaust)
  from seg obtain m where m: "seg h p t m" "seg h m r NULL"
    by (auto simp: seg_append)
  have m_hd: "m = qn_addr (hd r)" using m(2) r by (cases r) auto
  obtain nx where nx: "h (qn_addr x) = Some nx"
    using seg_last_alloc m(1) t' by fastforce
  have neq: "qn_addr x \<noteq> a" using fresh t' by auto
  let ?h2 = "h(qn_addr x \<mapsto> nx\<lparr>node_next := a\<rparr>)"
  let ?h3 = "?h2(a \<mapsto> n\<lparr>node_next := m\<rparr>)"
  have s2: "set_next h (qn_addr x) a = Some ?h2" using nx by (rule set_next_upd)
  have s3: "set_next ?h2 a m = Some ?h3" using ha neq by (intro set_next_upd) simp
  have "seg ?h2 p t a"
    using m(1) dist nx unfolding t' by (intro seg_redirect) auto
  then have l: "seg ?h3 p t a" using fresh by (subst seg_frame) auto
  have "seg ?h2 m r NULL" using m(2) dist t' by (subst seg_frame) auto
  then have "seg ?h3 m r NULL" using fresh by (subst seg_frame) auto
  then have "seg ?h3 p (t @ (a, d, w) # r) NULL"
    using l ha fresh by (auto simp: seg_append)
  then show ?thesis using s2 s3 t' m_hd by auto
qed

text \<open>The body of \<open>prio_push\<close> after the loop, for any split of the chain.\<close>

lemma prio_push_split:
  assumes rep: "queue_rep h q (t @ r)" and fresh: "p \<noteq> NULL" "p \<notin> qn_addr ` set (t @ r)"
    and r: "r \<noteq> []"
    and scan: "prio_push_scan (h(p \<mapsto> \<lparr>node_data = d, node_wait_until = w, node_next = NULL\<rparr>))
        w NULL (q_head q) = Some (if t = [] then NULL else qn_addr (last t), qn_addr (hd r))"
  shows "\<exists>h' q'. prio_push h q p d w = Some (h', q') \<and>
      queue_rep h' q' (t @ (p, d, w) # r) \<and>
      (\<forall>b. b \<notin> insert p (qn_addr ` set (t @ r)) \<longrightarrow> h' b = h b)"
proof -
  let ?n = "\<lparr>node_data = d, node_wait_until = w, node_next = NULL\<rparr>"
  let ?h1 = "h(p \<mapsto> ?n)"
  from rep have s: "seg h (q_head q) (t @ r) NULL" and dist: "distinct (map qn_addr (t @ r))"
    and size: "q_size q = of_nat (length (t @ r))"
    by (auto simp: queue_rep_def)
  have hd: "q_head q \<noteq> NULL" using s r seg_NULL [of h "t @ r" NULL] by auto
  have s1: "seg ?h1 (q_head q) (t @ r) NULL" using s fresh by (simp add: seg_frame)
  show ?thesis
  proof (cases "t = []")
    case True
    have "qn_addr (hd r) = q_head q" using s r True by (cases r) auto
    then show ?thesis
      using True scan hd s1 s dist size fresh
      by (auto simp: prio_push_def set_next_def Let_def queue_rep_def seg_frame)
  next
    case False
    have "qn_addr (last t) \<noteq> NULL" using seg_alloc [OF s] False by simp
    moreover obtain h2 h3 where h: "set_next ?h1 (qn_addr (last t)) p = Some h2"
        "set_next h2 p (qn_addr (hd r)) = Some h3"
        "seg h3 (q_head q) (t @ (p, d, w) # r) NULL"
        "\<forall>b. b \<notin> insert p (qn_addr ` set t) \<longrightarrow> h3 b = ?h1 b"
      using link_between [OF s1 dist fresh(2,1) False r, of ?n d w] by auto
    moreover have "\<forall>b. b \<notin> insert p (qn_addr ` set (t @ r)) \<longrightarrow> h3 b = h b" using h(4) by auto
    moreover have "distinct (map qn_addr (t @ (p, d, w) # r))" using dist fresh by auto
    ultimately show ?thesis
      using hd scan False size by (simp add: prio_push_def Let_def queue_rep_def)
  qed
qed

lemma prio_push_refines:
  assumes rep: "queue_rep h q ns" and fresh: "p \<noteq> NULL" "p \<notin> qn_addr ` set ns"
  shows "\<exists>h' q'. prio_push h q p d w = Some (h', q') \<and>
      queue_rep h' q' (push_list (p, d, w) ns) \<and>
      (\<forall>b. b \<notin> insert p (qn_addr ` set ns) \<longrightarrow> h' b = h b)"
proof (cases "ns = []")
  case True
  with rep fresh show ?thesis
    by (auto simp: queue_rep_def prio_push_def push_list_def)
next
  case False
  define t where "t = takeWhile (\<lambda>y. tv_le (qn_wait y) w) (butlast ns)"
  define r where "r = dropWhile (\<lambda>y. tv_le (qn_wait y) w) (butlast ns) @ [last ns]"
  have ns: "ns = t @ r"
    unfolding t_def r_def by (metis False append_assoc append_butlast_last_id takeWhile_dropWhile_id)
  have "seg (h(p \<mapsto> \<lparr>node_data = d, node_wait_until = w, node_next = NULL\<rparr>)) (q_head q)
      (butlast ns @ [last ns]) NULL"
    using rep fresh False by (simp add: queue_rep_def seg_frame)
  from scan_seg [OF this, of w NULL]
  have scan: "prio_push_scan (h(p \<mapsto> \<lparr>node_data = d, node_wait_until = w, node_next = NULL\<rparr>))
      w NULL (q_head q) = Some (if t = [] then NULL else qn_addr (last t), qn_addr (hd r))"
    by (simp add: Let_def t_def r_def)
  have pl: "push_list (p, d, w) ns = t @ (p, d, w) # r"
    using False by (simp add: push_list_def t_def r_def)
  have "r \<noteq> []" by (simp add: r_def)
  from prio_push_split [OF rep [unfolded ns] fresh(1) fresh(2) [unfolded ns] this scan]
  show ?thesis unfolding pl by (simp only: ns [symmetric])
qed

lemma prio_init_rep: "queue_rep h prio_init []"
  by (simp add: queue_rep_def prio_init_def)

lemma prio_pop_empty: "queue_rep h q [] \<Longrightarrow> prio_pop h q = Some (NULL, q)"
  by (simp add: queue_rep_def prio_pop_def)

lemma prio_pop_refines:
  "queue_rep h q (x # ns) \<Longrightarrow>
   \<exists>q'. prio_pop h q = Some (qn_addr x, q') \<and> queue_rep h q' ns \<and>
        queue_rep (h(qn_addr x := v)) q' ns"
  by (auto simp: queue_rep_def prio_pop_def seg_frame split: option.splits)

text \<open>The nodes the destroy loop frees: all but the last one, unless there is only one.\<close>

definition destroyed_nodes :: "'a qnode list \<Rightarrow> addr set" where
  "destroyed_nodes ns = qn_addr ` set (if length ns = 1 then ns else butlast ns)"

lemma prio_destroy_loop_seg:
  "seg h cur ns NULL \<Longrightarrow> distinct (map qn_addr ns) \<Longrightarrow> ns \<noteq> [] \<Longrightarrow>
   prio_destroy_loop h cur = Some (h |` (- destroyed_nodes ns))"
proof (induction ns arbitrary: h cur)
  case Nil
  then show ?case by simp
next
  case (Cons x ns)
  then obtain c where c: "h cur = Some c" "cur = qn_addr x" "cur \<noteq> NULL"
      "seg h (node_next c) ns NULL"
    by (auto split: option.splits)
  have upd: "h(a := None) = h |` (- {a})" for a by (rule ext) (simp add: restrict_map_def)
  have fr: "prio_destroy_node h cur = Some (h |` (- {cur}))"
    using c by (simp add: prio_destroy_node_def free_node_def upd)
  have seg': "seg (h |` (- {cur})) (node_next c) ns NULL"
    using c Cons.prems by (subst upd [symmetric], subst seg_frame) auto
  have IH: "prio_destroy_loop (h |` (- {cur})) (node_next c) =
      Some (h |` (- {cur}) |` (- destroyed_nodes ns))" if "ns \<noteq> []"
    using Cons.IH [OF seg'] Cons.prems that by simp
  show ?case
  proof (cases ns)
    case Nil
    with c fr show ?thesis
      by (subst prio_destroy_loop.simps) (simp add: destroyed_nodes_def)
  next
    case (Cons y ns')
    with seg' obtain c2 where c2: "(h |` (- {cur})) (node_next c) = Some c2"
        "node_next c = qn_addr y" "node_next c \<noteq> NULL" "seg (h |` (- {cur})) (node_next c2) ns' NULL"
      by (auto split: option.splits)
    show ?thesis
    proof (cases ns')
      case Nil
      with Cons c c2 fr show ?thesis
        by (subst prio_destroy_loop.simps) (simp add: destroyed_nodes_def)
    next
      case (Cons z zs)
      have "node_next c2 \<noteq> NULL" using c2 Cons by auto
      moreover have "prio_destroy_loop (h |` (- {cur})) (node_next c) =
          Some (h |` (- {cur}) |` (- destroyed_nodes ns))"
        by (rule IH) (simp_all add: \<open>ns = y # ns'\<close>)
      moreover have "- {cur} \<inter> - destroyed_nodes ns = - destroyed_nodes (x # ns)"
        using \<open>ns = y # ns'\<close> Cons c by (auto simp: destroyed_nodes_def)
      ultimately show ?thesis
        using c c2 fr by (subst prio_destroy_loop.simps) simp
    qed
  qed
qed

lemma prio_destroy_queue_rep:
  "queue_rep h q ns \<Longrightarrow> prio_destroy_queue h q = Some (h |` (- destroyed_nodes ns))"
proof (cases "ns = []")
  case True
  then show "queue_rep h q ns \<Longrightarrow> ?thesis"
    by (simp add: queue_rep_def prio_destroy_queue_def destroyed_nodes_def restrict_map_def)
next
  case False
  assume rep: "queue_rep h q ns"
  then have "q_head q \<noteq> NULL"
    using False seg_NULL [of h ns NULL] by (auto simp: queue_rep_def)
  with rep False show ?thesis
    by (simp add: queue_rep_def prio_destroy_queue_def prio_destroy_loop_seg)
qed

text \<open>The size field is a \<open>size_t\<close>; distinct non-NULL node addresses keep it from wrapping to 0.\<close>

lemma queue_rep_size_0:
  assumes "queue_rep h q ns"
  shows "q_size q = 0 \<longleftrightarrow> ns = []"
proof -
  let ?A = "qn_addr ` set ns"
  from assms have d: "distinct (map qn_addr ns)" and z: "q_size q = of_nat (length ns)"
    and s: "seg h (q_head q) ns NULL"
    by (auto simp: queue_rep_def)
  have "NULL \<notin> ?A" using seg_alloc [OF s] by blast
  then have "card ?A < card (UNIV :: addr set)"
    by (intro psubset_card_mono) auto
  moreover have "card ?A = length ns"
    using distinct_card [OF d] by simp
  moreover have "card (UNIV :: addr set) = 2 ^ 64" by (simp add: card_word)
  ultimately have "length ns < 2 ^ 64" by simp
  then have "\<not> 2 ^ 64 dvd length ns \<or> length ns = 0" by (auto dest: dvd_imp_le)
  then show ?thesis by (auto simp: z word_of_nat_eq_0_iff)
qed

section \<open>Order\<close>

text \<open>
  The search never compares with the last node, so the queue as a whole is not sorted: what
  every operation keeps is that the nodes before the last one are in order of time.
\<close>

definition front_ordered :: "'a qnode list \<Rightarrow> bool" where
  "front_ordered ns \<longleftrightarrow> sorted_wrt (\<lambda>x y. tv_le (qn_wait x) (qn_wait y)) (butlast ns)"

lemma sorted_insert_at:
  assumes "sorted_wrt (\<lambda>x y. tv_le (f x) (f y)) xs"
  shows "sorted_wrt (\<lambda>x y. tv_le (f x) (f y))
    (takeWhile (\<lambda>y. tv_le (f y) (f x)) xs @ x # dropWhile (\<lambda>y. tv_le (f y) (f x)) xs)"
  using assms
proof (induction xs)
  case Nil
  then show ?case by simp
next
  case (Cons a xs)
  show ?case
  proof (cases "tv_le (f a) (f x)")
    case True
    have "set (takeWhile (\<lambda>y. tv_le (f y) (f x)) xs) \<subseteq> set xs"
      "set (dropWhile (\<lambda>y. tv_le (f y) (f x)) xs) \<subseteq> set xs"
      by (auto dest: set_takeWhileD set_dropWhileD)
    with True Cons show ?thesis by auto
  next
    case False
    then have "tv_le (f x) (f a)" using tv_le_total by blast
    with False Cons.prems show ?thesis by (auto intro: tv_le_trans)
  qed
qed

lemma butlast_push_list:
  "ns \<noteq> [] \<Longrightarrow> butlast (push_list x ns) =
     takeWhile (\<lambda>y. tv_le (qn_wait y) (qn_wait x)) (butlast ns) @
     x # dropWhile (\<lambda>y. tv_le (qn_wait y) (qn_wait x)) (butlast ns)"
  by (simp add: push_list_def butlast_append)

lemma last_push_list: "last (push_list x ns) = (if ns = [] then x else last ns)"
  by (simp add: push_list_def)

lemma front_ordered_push: "front_ordered ns \<Longrightarrow> front_ordered (push_list x ns)"
proof (cases "ns = []")
  case True
  then show ?thesis by (simp add: front_ordered_def push_list_def)
next
  case False
  assume "front_ordered ns"
  then show ?thesis
    unfolding front_ordered_def butlast_push_list [OF False] by (rule sorted_insert_at)
qed

lemma front_ordered_tl: "front_ordered (x # ns) \<Longrightarrow> front_ordered ns"
  by (auto simp: front_ordered_def split: if_splits)

section \<open>The interface of a timed queue\<close>

text \<open>Clients push many nodes and pop until the queue is empty.\<close>

fun push_all :: "('s \<Rightarrow> addr \<Rightarrow> 'a \<Rightarrow> timeval \<Rightarrow> 's option) \<Rightarrow> 's \<Rightarrow> 'a qnode list \<Rightarrow> 's option" where
  "push_all push s [] = Some s"
| "push_all push s (x # xs) =
     (case push s (qn_addr x) (qn_data x) (qn_wait x) of None \<Rightarrow> None
      | Some s' \<Rightarrow> push_all push s' xs)"

fun pop_all :: "('s \<Rightarrow> (addr \<times> 's) option) \<Rightarrow> 's \<Rightarrow> nat \<Rightarrow> (addr list \<times> 's) option" where
  "pop_all pop s 0 = Some ([], s)"
| "pop_all pop s (Suc n) =
     (case pop s of None \<Rightarrow> None
      | Some (a, s') \<Rightarrow>
          case pop_all pop s' n of None \<Rightarrow> None | Some (as, s'') \<Rightarrow> Some (a # as, s''))"

locale timed_queue =
  fixes push :: "'s \<Rightarrow> addr \<Rightarrow> 'a \<Rightarrow> timeval \<Rightarrow> 's option"
    and pop :: "'s \<Rightarrow> (addr \<times> 's) option"
    and rep :: "'s \<Rightarrow> 'a qnode list \<Rightarrow> bool"
  assumes push_ok: "rep s ns \<Longrightarrow> p \<noteq> NULL \<Longrightarrow> p \<notin> qn_addr ` set ns \<Longrightarrow>
      \<exists>s' ns'. push s p d w = Some s' \<and> rep s' ns' \<and> mset ns' = add_mset (p, d, w) (mset ns) \<and>
        last ns' = (if ns = [] then (p, d, w) else last ns) \<and>
        (front_ordered ns \<longrightarrow> front_ordered ns')"
    and pop_ok: "rep s (x # ns) \<Longrightarrow> \<exists>s'. pop s = Some (qn_addr x, s') \<and> rep s' ns"
    and pop_empty: "rep s [] \<Longrightarrow> pop s = Some (NULL, s)"
begin

lemma push_all_ok:
  "rep s ns \<Longrightarrow> front_ordered ns \<Longrightarrow> NULL \<notin> qn_addr ` set xs \<Longrightarrow>
   distinct (map qn_addr (ns @ xs)) \<Longrightarrow>
   \<exists>s' ns'. push_all push s xs = Some s' \<and> rep s' ns' \<and> mset ns' = mset ns + mset xs \<and>
     front_ordered ns' \<and> (ns @ xs \<noteq> [] \<longrightarrow> last ns' = last (hd (ns @ xs) # ns))"
proof (induction xs arbitrary: s ns)
  case Nil
  then show ?case by auto
next
  case (Cons x xs)
  obtain p d w where x: "x = (p, d, w)" by (cases x)
  from Cons.prems x have fresh: "p \<noteq> NULL" "p \<notin> qn_addr ` set ns" by auto
  obtain s1 ns1 where s1: "push s p d w = Some s1" "rep s1 ns1" "mset ns1 = add_mset x (mset ns)"
      "last ns1 = (if ns = [] then x else last ns)" "front_ordered ns1"
    using push_ok [OF Cons.prems(1) fresh, of d w] Cons.prems(2) x by auto
  have "mset (map qn_addr (ns1 @ xs)) = mset (map qn_addr (ns @ x # xs))"
    using s1(3) by simp
  then have "distinct (map qn_addr (ns1 @ xs))"
    using Cons.prems(4) mset_eq_imp_distinct_iff by blast
  moreover have "NULL \<notin> qn_addr ` set xs" using Cons.prems(3) by simp
  ultimately obtain s' ns' where "push_all push s1 xs = Some s'" "rep s' ns'"
      "mset ns' = mset ns1 + mset xs" "front_ordered ns'"
      "ns1 @ xs \<noteq> [] \<longrightarrow> last ns' = last (hd (ns1 @ xs) # ns1)"
    using Cons.IH [OF s1(2,5)] by blast
  moreover have "ns1 \<noteq> []" using s1(3) by auto
  ultimately show ?case using s1 x by auto
qed

lemma pop_all_ok:
  "rep s ns \<Longrightarrow> \<exists>s'. pop_all pop s (length ns) = Some (map qn_addr ns, s') \<and> rep s' []"
proof (induction ns arbitrary: s)
  case Nil
  then show ?case by simp
next
  case (Cons x ns)
  from pop_ok [OF Cons.prems] obtain s1 where s1: "pop s = Some (qn_addr x, s1)" "rep s1 ns"
    by blast
  from Cons.IH [OF s1(2)] s1(1) show ?case by auto
qed

lemma drain_ok:
  assumes "rep s []" and "NULL \<notin> qn_addr ` set xs" and "distinct (map qn_addr xs)" and "xs \<noteq> []"
  shows "\<exists>s1 s2 ns. push_all push s xs = Some s1 \<and>
      pop_all pop s1 (length xs) = Some (map qn_addr ns, s2) \<and> rep s2 [] \<and>
      mset ns = mset xs \<and> front_ordered ns \<and> last ns = hd xs"
proof -
  have "front_ordered []" by (simp add: front_ordered_def)
  then obtain s1 ns where s1: "push_all push s xs = Some s1" "rep s1 ns" "mset ns = mset xs"
      "front_ordered ns" "last ns = hd xs"
    using push_all_ok [OF assms(1), of xs] assms(2-4) by auto
  moreover have "length ns = length xs" using s1(3) by (metis size_mset)
  ultimately show ?thesis using pop_all_ok [OF s1(2)] by auto
qed

end

definition pq_push :: "'a node_heap \<times> prio_queue \<Rightarrow> addr \<Rightarrow> 'a \<Rightarrow> timeval \<Rightarrow>
    ('a node_heap \<times> prio_queue) option" where
  "pq_push s p d w = prio_push (fst s) (snd s) p d w"

definition pq_pop :: "'a node_heap \<times> prio_queue \<Rightarrow> (addr \<times> 'a node_heap \<times> prio_queue) option" where
  "pq_pop s = (case prio_pop (fst s) (snd s) of None \<Rightarrow> None | Some (a, q) \<Rightarrow> Some (a, fst s, q))"

definition pq_rep :: "'a node_heap \<times> prio_queue \<Rightarrow> 'a qnode list \<Rightarrow> bool" where
  "pq_rep s ns \<longleftrightarrow> queue_rep (fst s) (snd s) ns"

interpretation pq: timed_queue pq_push pq_pop pq_rep
proof (unfold_locales, goal_cases)
  case (1 s ns p d w)
  then obtain h' q' where "prio_push (fst s) (snd s) p d w = Some (h', q')"
      "queue_rep h' q' (push_list (p, d, w) ns)"
    using prio_push_refines [of "fst s" "snd s" ns p d w] by (auto simp: pq_rep_def)
  then have "pq_push s p d w = Some (h', q')" "pq_rep (h', q') (push_list (p, d, w) ns)"
    by (simp_all add: pq_push_def pq_rep_def)
  then show ?case
    using mset_push_list last_push_list front_ordered_push by blast
next
  case (2 s x ns)
  then obtain q' where "prio_pop (fst s) (snd s) = Some (qn_addr x, q')" "queue_rep (fst s) q' ns"
    using prio_pop_refines by (metis pq_rep_def)
  then show ?case by (simp add: pq_pop_def pq_rep_def)
next
  case (3 s)
  then show ?case by (simp add: pq_pop_def pq_rep_def prio_pop_empty)
qed

section \<open>Properties\<close>

text \<open>C1. On a well-formed queue \<open>prio_push\<close> does not fault, touches only the new node and the
  nodes of the queue, and its result represents the old list with the new node inserted into
  the part before the last node, after every node there that is due no later.\<close>

theorem prio_push_correct:
  assumes "queue_rep h q ns" and "p \<noteq> NULL" and "p \<notin> qn_addr ` set ns"
  shows "\<exists>h' q'. prio_push h q p d w = Some (h', q') \<and>
      queue_rep h' q' (push_list (p, d, w) ns) \<and>
      mset (push_list (p, d, w) ns) = add_mset (p, d, w) (mset ns) \<and>
      (\<forall>b. b \<notin> insert p (qn_addr ` set ns) \<longrightarrow> h' b = h b)"
  using prio_push_refines [OF assms, of d w] by (simp add: mset_push_list)

theorem prio_push_correct_witness:
  "\<exists>h' q'. prio_push [1 \<mapsto> \<lparr>node_data = ''a'', node_wait_until = secs 5, node_next = NULL\<rparr>]
       \<lparr>q_head = 1, q_size = 1\<rparr> 2 ''b'' (secs 7) = Some (h', q') \<and>
     queue_rep h' q' [(2, ''b'', secs 7), (1, ''a'', secs 5)]"
  using prio_push_correct [of "[1 \<mapsto> \<lparr>node_data = ''a'', node_wait_until = secs 5, node_next = NULL\<rparr>]"
      "\<lparr>q_head = 1, q_size = 1\<rparr>" "[(1, ''a'', secs 5)]" 2 "''b''" "secs 7"]
  by (auto simp: queue_rep_def push_list_def)

text \<open>C2. A queue filled by \<open>prio_push\<close> from empty and drained by \<open>prio_pop\<close> returns every
  node exactly once; all but the last come out in order of time, and the last one is the
  node that was pushed first, whatever its time.\<close>

theorem prio_drain_order:
  assumes "NULL \<notin> qn_addr ` set xs" and "distinct (map qn_addr xs)" and "xs \<noteq> []"
  shows "\<exists>s1 s2 ns. push_all pq_push (h, prio_init) xs = Some s1 \<and>
      pop_all pq_pop s1 (length xs) = Some (map qn_addr ns, s2) \<and> pq_rep s2 [] \<and>
      mset ns = mset xs \<and> front_ordered ns \<and> last ns = hd xs"
  by (rule pq.drain_ok) (use assms in \<open>simp_all add: pq_rep_def prio_init_rep\<close>)

theorem prio_drain_order_witness:
  "\<exists>s1 s2 ns. push_all pq_push (Map.empty, prio_init)
       [(1, ''a'', secs 5), (2, ''b'', secs 7), (3, ''c'', secs 6)] = Some s1 \<and>
     pop_all pq_pop s1 3 = Some (map qn_addr ns, s2) \<and> last ns = (1, ''a'', secs 5)"
  using prio_drain_order [of "[(1, ''a'', secs 5), (2, ''b'', secs 7), (3, ''c'', secs 6)]" Map.empty]
  by (fastforce simp: numeral_3_eq_3 simp del: push_all.simps pop_all.simps)

text \<open>\<open>prio_destroy_queue\<close> frees every node but the last one when the queue has two or
  more: the last node stays allocated, although nothing will free it.\<close>

theorem prio_destroy_leaks_last:
  assumes "queue_rep h q ns" and "2 \<le> length ns"
  shows "\<exists>h'. prio_destroy_queue h q = Some h' \<and>
      (\<forall>x \<in> set (butlast ns). h' (qn_addr x) = None) \<and>
      h' (qn_addr (last ns)) = h (qn_addr (last ns)) \<and> h' (qn_addr (last ns)) \<noteq> None"
proof -
  from assms have ne: "ns \<noteq> []" "length ns \<noteq> 1" by auto
  have d: "distinct (map qn_addr (butlast ns @ [last ns]))"
    using assms(1) ne(1) by (simp add: queue_rep_def)
  then have "qn_addr (last ns) \<notin> destroyed_nodes ns"
    using ne(2) by (auto simp: destroyed_nodes_def)
  moreover have "h (qn_addr (last ns)) \<noteq> None"
    using assms(1) ne(1) seg_alloc [of h "q_head q" ns NULL] by (auto simp: queue_rep_def)
  ultimately show ?thesis
    using prio_destroy_queue_rep [OF assms(1)] ne(2) by (auto simp: destroyed_nodes_def)
qed

theorem prio_destroy_leaks_last_witness:
  "\<exists>h'. prio_destroy_queue
       [1 \<mapsto> \<lparr>node_data = ''a'', node_wait_until = secs 5, node_next = 2\<rparr>,
        2 \<mapsto> \<lparr>node_data = ''b'', node_wait_until = secs 6, node_next = NULL\<rparr>]
       \<lparr>q_head = 1, q_size = 2\<rparr> = Some h' \<and> h' 1 = None \<and> h' 2 \<noteq> None"
  using prio_destroy_leaks_last [of
      "[1 \<mapsto> \<lparr>node_data = ''a'', node_wait_until = secs 5, node_next = 2\<rparr>,
        2 \<mapsto> \<lparr>node_data = ''b'', node_wait_until = secs 6, node_next = NULL\<rparr>]"
      "\<lparr>q_head = 1, q_size = 2\<rparr>" "[(1, ''a'', secs 5), (2, ''b'', secs 6)]"]
  by (auto simp: queue_rep_def)

end
