(* ===== verification/Thread_Pool.thy ===== *)
theory Thread_Pool
  imports Prio_Queue
begin

text \<open>
  \<open>src/utils/t_pool.c\<close>: the thread pool. The shared \<open>struct t_pool\<close> is a record with the heaps
  its pointers lead to; each function that runs under \<open>pool->lock\<close> is one definition, and
  the pool with its worker threads is the step relation \<open>pool_step\<close>, in which a critical section
  is one atomic step. Waiting on a condition variable is the absence of a step of that thread.
  The lemmas show the invariant of the pool, that work is neither lost nor run twice, when a thread
  may start work, and how the pool stops.
\<close>

section \<open>The code\<close>

text \<open>\<open>struct t_work\<close>: the function with its argument is one value of type \<open>'w\<close>.\<close>

record 'w t_work =
  work_fn :: 'w
  work_wait_until :: timeval

record 'w t_pool =
  p_nodes :: "addr node_heap"
  p_works :: "addr \<rightharpoonup> 'w t_work"
  p_queue :: prio_queue
  p_thread_count :: int
  p_stop :: bool
  p_sleep_until :: timeval

definition is_future :: "timeval \<Rightarrow> timeval \<Rightarrow> bool" where
  "is_future now t \<longleftrightarrow>
     tv_sec now < tv_sec t \<or> (tv_sec now = tv_sec t \<and> tv_usec now \<le> tv_usec t)"

text \<open>\<open>malloc\<close> leaves \<open>sleep_until.tv_usec\<close> unset: it is the argument \<open>usec0\<close>.\<close>

definition t_pool_init :: "addr node_heap \<Rightarrow> (addr \<rightharpoonup> 'w t_work) \<Rightarrow> int \<Rightarrow> int \<Rightarrow> 'w t_pool" where
  "t_pool_init nodes works num_t usec0 =
     \<lparr>p_nodes = nodes, p_works = works, p_queue = prio_init, p_thread_count = num_t,
      p_stop = False, p_sleep_until = \<lparr>tv_sec = - 1, tv_usec = usec0\<rparr>\<rparr>"

text \<open>The arguments \<open>wp\<close> and \<open>np\<close> are the addresses \<open>malloc\<close> returned for the work and its queue node.\<close>

definition t_pool_add_work ::
  "'w t_pool \<Rightarrow> addr \<Rightarrow> addr \<Rightarrow> 'w \<Rightarrow> timeval \<Rightarrow> 'w t_pool option" where
  "t_pool_add_work tp wp np f w =
     (case prio_push (p_nodes tp) (p_queue tp) np wp w of None \<Rightarrow> None
      | Some (nodes, q) \<Rightarrow>
          let s = p_sleep_until tp in
          Some (tp\<lparr>p_works := (p_works tp)(wp \<mapsto> \<lparr>work_fn = f, work_wait_until = w\<rparr>),
                   p_nodes := nodes, p_queue := q,
                   p_sleep_until :=
                     (if tv_sec s = - 1 \<or> tv_sec s > tv_sec w \<or>
                         (tv_sec s = tv_sec w \<and> tv_usec s > tv_usec w)
                      then w else s)\<rparr>))"

definition t_pool_pop_work :: "'w t_pool \<Rightarrow> (addr \<times> 'w t_pool) option" where
  "t_pool_pop_work tp =
     (case prio_pop (p_nodes tp) (p_queue tp) of None \<Rightarrow> None
      | Some (node, q) \<Rightarrow>
          if node = NULL then Some (NULL, tp\<lparr>p_queue := q\<rparr>)
          else case p_nodes tp node of None \<Rightarrow> None
          | Some n \<Rightarrow>
              case free_node (p_nodes tp) node of None \<Rightarrow> None
              | Some nodes \<Rightarrow>
                  let tp1 = tp\<lparr>p_nodes := nodes, p_queue := q\<rparr> in
                  if q_head q \<noteq> NULL
                  then (case nodes (q_head q) of None \<Rightarrow> None
                        | Some m \<Rightarrow> Some (node_data n, tp1\<lparr>p_sleep_until := node_wait_until m\<rparr>))
                  else Some (node_data n,
                             tp1\<lparr>p_sleep_until := (p_sleep_until tp)\<lparr>tv_sec := - 1\<rparr>\<rparr>))"

text \<open>
  One passage of a worker through the critical section of \<open>thread_work_loop\<close>: it waits (with a
  deadline in seconds and nanoseconds, or without), leaves the loop, or leaves the lock with work.
\<close>

datatype section_result =
    Timed_Wait int int
  | Cond_Wait
  | Leave
  | Run addr

definition timed_wait_until :: "timeval \<Rightarrow> int \<times> int" where
  "timed_wait_until t =
     (let sec = tv_sec t; nsec = tv_usec t * 1000
      in if nsec > 10 ^ 9 then (sec + 1, nsec - 10 ^ 9) else (sec, nsec))"

definition thread_section :: "timeval \<Rightarrow> 'w t_pool \<Rightarrow> (section_result \<times> 'w t_pool) option" where
  "thread_section now tp =
     (if \<not> p_stop tp \<and> (is_future now (p_sleep_until tp) \<or> q_size (p_queue tp) = 0)
      then (if q_size (p_queue tp) > 0 \<and> is_future now (p_sleep_until tp)
            then let (s, n) = timed_wait_until (p_sleep_until tp) in Some (Timed_Wait s n, tp)
            else Some (Cond_Wait, tp))
      else if p_stop tp
      then Some (Leave, tp\<lparr>p_thread_count := p_thread_count tp - 1\<rparr>)
      else (case t_pool_pop_work tp of None \<Rightarrow> None | Some (w, tp') \<Rightarrow> Some (Run w, tp')))"

definition free_work :: "(addr \<rightharpoonup> 'w t_work) \<Rightarrow> addr \<Rightarrow> (addr \<rightharpoonup> 'w t_work) option" where
  "free_work works a =
     (if a = NULL then Some works
      else case works a of None \<Rightarrow> None | Some _ \<Rightarrow> Some (works(a := None)))"

text \<open>The loop of \<open>t_pool_destroy\<close> over the queue frees the work items.\<close>

partial_function (option) destroy_works ::
  "addr node_heap \<Rightarrow> (addr \<rightharpoonup> 'w t_work) \<Rightarrow> addr \<Rightarrow> (addr \<rightharpoonup> 'w t_work) option" where
  "destroy_works nodes works cur =
     (if cur = NULL then Some works
      else case nodes cur of None \<Rightarrow> None
      | Some n \<Rightarrow>
          case free_work works (node_data n) of None \<Rightarrow> None
          | Some works' \<Rightarrow> destroy_works nodes works' (node_next n))"

text \<open>\<open>t_pool_destroy\<close> up to the \<open>t_pool_wait\<close> call: the queue head is not reset.\<close>

definition t_pool_destroy_begin :: "'w t_pool \<Rightarrow> 'w t_pool option" where
  "t_pool_destroy_begin tp =
     (case destroy_works (p_nodes tp) (p_works tp) (q_head (p_queue tp)) of None \<Rightarrow> None
      | Some works \<Rightarrow>
          case prio_destroy_queue (p_nodes tp) (p_queue tp) of None \<Rightarrow> None
          | Some nodes \<Rightarrow> Some (tp\<lparr>p_stop := True, p_works := works, p_nodes := nodes\<rparr>))"

text \<open>\<open>t_pool_wait\<close> returns when this holds.\<close>

definition t_pool_wait_done :: "'w t_pool \<Rightarrow> bool" where
  "t_pool_wait_done tp \<longleftrightarrow> \<not> p_thread_count tp > 0"

section \<open>The pool and its threads\<close>

datatype thread = Idle | Busy addr | Gone

record 'w pool_sys =
  pool :: "'w t_pool"
  threads :: "thread list"
  added :: "'w multiset"
  executed :: "'w multiset"

text \<open>
  The steps: any thread of the program adds work, an idle worker passes its critical section (taking
  work or leaving), a busy worker returns from the work function and frees the item, and the
  program begins to destroy the pool. Work is added for a time with non-negative seconds: the
  callers pass \<open>{0}\<close> or a time computed from \<open>gettimeofday\<close>. \<open>added\<close> and \<open>executed\<close> record the history.
\<close>

inductive pool_step :: "'w pool_sys \<Rightarrow> 'w pool_sys \<Rightarrow> bool" where
  add: "wp \<noteq> NULL \<Longrightarrow> p_works (pool s) wp = None \<Longrightarrow> np \<noteq> NULL \<Longrightarrow> p_nodes (pool s) np = None \<Longrightarrow>
    0 \<le> tv_sec w \<Longrightarrow> t_pool_add_work (pool s) wp np f w = Some tp \<Longrightarrow>
    pool_step s (s\<lparr>pool := tp, added := add_mset f (added s)\<rparr>)"
| take: "i < length (threads s) \<Longrightarrow> threads s ! i = Idle \<Longrightarrow>
    thread_section now (pool s) = Some (Run a, tp) \<Longrightarrow>
    pool_step s (s\<lparr>pool := tp, threads := (threads s)[i := Busy a]\<rparr>)"
| leave: "i < length (threads s) \<Longrightarrow> threads s ! i = Idle \<Longrightarrow>
    thread_section now (pool s) = Some (Leave, tp) \<Longrightarrow>
    pool_step s (s\<lparr>pool := tp, threads := (threads s)[i := Gone]\<rparr>)"
| finish: "i < length (threads s) \<Longrightarrow> threads s ! i = Busy a \<Longrightarrow>
    p_works (pool s) a = Some wk \<Longrightarrow> free_work (p_works (pool s)) a = Some works \<Longrightarrow>
    pool_step s (s\<lparr>pool := (pool s)\<lparr>p_works := works\<rparr>, threads := (threads s)[i := Idle],
                   executed := add_mset (work_fn wk) (executed s)\<rparr>)"
| destroy: "\<not> p_stop (pool s) \<Longrightarrow> t_pool_destroy_begin (pool s) = Some tp \<Longrightarrow>
    pool_step s (s\<lparr>pool := tp\<rparr>)"

inductive_cases pool_stepE: "pool_step s t"

definition pool_start :: "nat \<Rightarrow> int \<Rightarrow> 'w pool_sys" where
  "pool_start n usec0 =
     \<lparr>pool = t_pool_init Map.empty Map.empty (int n) usec0, threads = replicate n Idle,
      added = {#}, executed = {#}\<rparr>"

inductive pool_reach :: "nat \<Rightarrow> int \<Rightarrow> 'w pool_sys \<Rightarrow> bool" for n usec0 where
  start: "pool_reach n usec0 (pool_start n usec0)"
| step: "pool_reach n usec0 s \<Longrightarrow> pool_step s t \<Longrightarrow> pool_reach n usec0 t"

section \<open>The invariant of the pool\<close>

text \<open>
  \<open>sleep_until\<close> is never later than the time of the first node; every time in the queue has
  non-negative seconds, because both callers pass 0 or a time from \<open>gettimeofday\<close>.
\<close>

definition pool_ok :: "'w t_pool \<Rightarrow> addr qnode list \<Rightarrow> bool" where
  "pool_ok tp ns \<longleftrightarrow>
     queue_rep (p_nodes tp) (p_queue tp) ns \<and> front_ordered ns \<and>
     (\<forall>x \<in> set ns. 0 \<le> tv_sec (qn_wait x)) \<and>
     (if ns = [] then tv_sec (p_sleep_until tp) = - 1
      else 0 \<le> tv_sec (p_sleep_until tp) \<and> tv_le (p_sleep_until tp) (qn_wait (hd ns)))"

lemma is_future_tv_le: "is_future now t \<longleftrightarrow> tv_le now t"
  by (simp add: is_future_def tv_le_def)

lemma pool_ok_init: "pool_ok (t_pool_init nodes works num_t usec0) []"
  by (simp add: pool_ok_def t_pool_init_def prio_init_rep front_ordered_def)

lemma pool_init_running: "\<not> p_stop (t_pool_init nodes works num_t usec0)"
  by (simp add: t_pool_init_def)

lemma hd_push_list: "hd (push_list x ns) = x \<or> ns \<noteq> [] \<and> hd (push_list x ns) = hd ns"
proof (cases "butlast ns")
  case Nil
  then show ?thesis by (simp add: push_list_def)
next
  case (Cons y ys)
  then have "ns \<noteq> []" "y = hd ns" by (cases ns; auto split: if_splits)+
  with Cons show ?thesis by (auto simp: push_list_def)
qed

lemma add_work_ok:
  assumes ok: "pool_ok tp ns" and np: "np \<noteq> NULL" "np \<notin> qn_addr ` set ns" and w: "0 \<le> tv_sec w"
  shows "\<exists>tp'. t_pool_add_work tp wp np f w = Some tp' \<and> pool_ok tp' (push_list (np, wp, w) ns) \<and>
     p_works tp' = (p_works tp)(wp \<mapsto> \<lparr>work_fn = f, work_wait_until = w\<rparr>) \<and>
     p_stop tp' = p_stop tp \<and> p_thread_count tp' = p_thread_count tp \<and>
     p_sleep_until tp' =
       (if ns = [] \<or> tv_less w (p_sleep_until tp) then w else p_sleep_until tp)"
proof -
  from ok np obtain nodes q where push:
      "prio_push (p_nodes tp) (p_queue tp) np wp w = Some (nodes, q)"
      "queue_rep nodes q (push_list (np, wp, w) ns)"
    using prio_push_refines [of "p_nodes tp" "p_queue tp" ns np wp w] by (auto simp: pool_ok_def)
  define sl where "sl = (if tv_sec (p_sleep_until tp) = - 1 \<or> tv_sec (p_sleep_until tp) > tv_sec w \<or>
      (tv_sec (p_sleep_until tp) = tv_sec w \<and> tv_usec (p_sleep_until tp) > tv_usec w)
      then w else p_sleep_until tp)"
  have sl: "sl = (if ns = [] \<or> tv_less w (p_sleep_until tp) then w else p_sleep_until tp)"
    using ok by (auto simp: sl_def pool_ok_def tv_less_def split: if_splits)
  have sec: "0 \<le> tv_sec sl" using ok w by (auto simp: sl pool_ok_def)
  have w_le: "tv_le sl w" by (auto simp: sl_def tv_le_def)
  have "tv_le sl (qn_wait (hd ns))" if "ns \<noteq> []"
  proof -
    have "tv_le sl (p_sleep_until tp)" using that by (auto simp: sl tv_less_imp_le)
    moreover have "tv_le (p_sleep_until tp) (qn_wait (hd ns))" using ok that by (simp add: pool_ok_def)
    ultimately show ?thesis by (rule tv_le_trans)
  qed
  with w_le have "tv_le sl (qn_wait (hd (push_list (np, wp, w) ns)))"
    using hd_push_list [of "(np, wp, w)" ns] by auto
  moreover have "t_pool_add_work tp wp np f w = Some (tp\<lparr>p_works :=
      (p_works tp)(wp \<mapsto> \<lparr>work_fn = f, work_wait_until = w\<rparr>), p_nodes := nodes, p_queue := q,
      p_sleep_until := sl\<rparr>)"
    using push(1) by (simp add: t_pool_add_work_def Let_def sl_def)
  ultimately show ?thesis
    using push(2) ok w sec
    by (auto simp: pool_ok_def front_ordered_push set_push_list sl [symmetric])
qed

lemma pop_work_ok:
  assumes ok: "pool_ok tp (x # ns)"
  shows "\<exists>tp'. t_pool_pop_work tp = Some (qn_data x, tp') \<and> pool_ok tp' ns \<and>
     p_works tp' = p_works tp \<and> p_stop tp' = p_stop tp \<and>
     p_thread_count tp' = p_thread_count tp \<and>
     p_nodes tp' = (p_nodes tp)(qn_addr x := None) \<and>
     p_sleep_until tp' =
       (if ns = [] then (p_sleep_until tp)\<lparr>tv_sec := - 1\<rparr> else qn_wait (hd ns))"
proof -
  from ok have rep: "queue_rep (p_nodes tp) (p_queue tp) (x # ns)" by (simp add: pool_ok_def)
  then obtain n where n: "p_nodes tp (qn_addr x) = Some n" "node_data n = qn_data x" "qn_addr x \<noteq> NULL"
    by (auto simp: queue_rep_def split: option.splits)
  obtain q where q: "prio_pop (p_nodes tp) (p_queue tp) = Some (qn_addr x, q)"
      "queue_rep ((p_nodes tp)(qn_addr x := None)) q ns"
    using prio_pop_refines [OF rep, of None] by blast
  have fr: "free_node (p_nodes tp) (qn_addr x) = Some ((p_nodes tp)(qn_addr x := None))"
    using n by (simp add: free_node_def)
  have fo: "front_ordered ns"
    using ok by (simp add: pool_ok_def front_ordered_tl [of x])
  have rest: "\<forall>y \<in> set ns. 0 \<le> tv_sec (qn_wait y)" using ok by (simp add: pool_ok_def)
  show ?thesis
  proof (cases ns)
    case Nil
    then have "q_head q = NULL" using q(2) by (simp add: queue_rep_def)
    then have "t_pool_pop_work tp = Some (qn_data x, tp\<lparr>p_nodes := (p_nodes tp)(qn_addr x := None),
        p_queue := q, p_sleep_until := (p_sleep_until tp)\<lparr>tv_sec := - 1\<rparr>\<rparr>)"
      by (simp add: t_pool_pop_work_def q(1) n fr)
    with Nil q(2) show ?thesis by (simp add: pool_ok_def front_ordered_def)
  next
    case (Cons y ys)
    with q(2) obtain m where m: "((p_nodes tp)(qn_addr x := None)) (q_head q) = Some m"
        "node_wait_until m = qn_wait y" "q_head q \<noteq> NULL"
      by (auto simp: queue_rep_def split: option.splits)
    then have "t_pool_pop_work tp = Some (qn_data x, tp\<lparr>p_nodes := (p_nodes tp)(qn_addr x := None),
        p_queue := q, p_sleep_until := qn_wait y\<rparr>)"
      unfolding t_pool_pop_work_def by (simp add: q(1) n fr del: fun_upd_apply)
    with Cons q(2) fo rest show ?thesis by (simp add: pool_ok_def)
  qed
qed

text \<open>What a worker does in its critical section, given the queue.\<close>

lemma thread_section_run:
  assumes ok: "pool_ok tp ns" and run: "thread_section now tp = Some (Run a, tp')"
  shows "\<exists>x ns'. ns = x # ns' \<and> a = qn_data x \<and> pool_ok tp' ns' \<and> \<not> p_stop tp \<and>
     tv_less (p_sleep_until tp) now \<and> p_works tp' = p_works tp \<and> p_stop tp' = p_stop tp \<and>
     p_thread_count tp' = p_thread_count tp \<and> p_nodes tp' = (p_nodes tp)(qn_addr x := None)"
proof -
  have z: "q_size (p_queue tp) = 0 \<longleftrightarrow> ns = []"
    using ok by (intro queue_rep_size_0 [of "p_nodes tp"]) (simp add: pool_ok_def)
  from run have st: "\<not> p_stop tp" and f: "\<not> is_future now (p_sleep_until tp)" and ne: "ns \<noteq> []"
    by (auto simp: thread_section_def z split: if_splits prod.splits option.splits)
  then obtain x ns' where ns: "ns = x # ns'" by (cases ns) auto
  obtain tp2 where tp2: "t_pool_pop_work tp = Some (qn_data x, tp2)" "pool_ok tp2 ns'"
      "p_works tp2 = p_works tp" "p_stop tp2 = p_stop tp" "p_thread_count tp2 = p_thread_count tp"
      "p_nodes tp2 = (p_nodes tp)(qn_addr x := None)"
    using pop_work_ok ok ns by metis
  have "thread_section now tp = Some (Run (qn_data x), tp2)"
    using st f z ne tp2(1) by (simp add: thread_section_def)
  with run have "a = qn_data x" "tp' = tp2" by simp_all
  with ns tp2 st f show ?thesis by (simp add: is_future_tv_le not_tv_le)
qed

lemma thread_section_leave:
  "thread_section now tp = Some (Leave, tp') \<longleftrightarrow>
   p_stop tp \<and> tp' = tp\<lparr>p_thread_count := p_thread_count tp - 1\<rparr>"
  by (auto simp: thread_section_def split: if_splits prod.splits option.splits)


section \<open>The invariant of the pool with its threads\<close>

fun busy :: "thread list \<Rightarrow> addr list" where
  "busy [] = []"
| "busy (Busy a # ts) = a # busy ts"
| "busy (_ # ts) = busy ts"

definition work_fns :: "(addr \<rightharpoonup> 'w t_work) \<Rightarrow> addr list \<Rightarrow> 'w multiset" where
  "work_fns works as = image_mset (\<lambda>a. work_fn (the (works a))) (mset as)"

definition live :: "thread list \<Rightarrow> nat" where
  "live ts = length (filter (\<lambda>t. t \<noteq> Gone) ts)"

definition sys_ok :: "'w pool_sys \<Rightarrow> bool" where
  "sys_ok s \<longleftrightarrow>
     p_thread_count (pool s) = int (live (threads s)) \<and>
     (if p_stop (pool s)
      then distinct (busy (threads s)) \<and> NULL \<notin> set (busy (threads s)) \<and>
        set (busy (threads s)) \<subseteq> dom (p_works (pool s)) \<and>
        executed s + work_fns (p_works (pool s)) (busy (threads s)) \<subseteq># added s
      else Gone \<notin> set (threads s) \<and>
        (\<exists>ns. pool_ok (pool s) ns \<and>
          distinct (map qn_data ns @ busy (threads s)) \<and>
          NULL \<notin> set (map qn_data ns @ busy (threads s)) \<and>
          set (map qn_data ns @ busy (threads s)) \<subseteq> dom (p_works (pool s)) \<and>
          added s = executed s + work_fns (p_works (pool s)) (map qn_data ns @ busy (threads s))))"

lemma busy_append [simp]: "busy (xs @ ys) = busy xs @ busy ys"
  by (induction xs rule: busy.induct) auto

lemma live_append [simp]: "live (xs @ ys) = live xs + live ys"
  by (simp add: live_def)

lemma live_Cons [simp]: "live (t # ts) = (if t = Gone then 0 else 1) + live ts"
  by (simp add: live_def)

lemma busy_replicate [simp]: "busy (replicate n Idle) = []"
  by (induction n) auto

lemma live_replicate [simp]: "live (replicate n Idle) = n"
  by (induction n) (auto simp: live_def)

lemma thread_split:
  assumes "i < length ts"
  obtains xs ys where "ts = xs @ ts ! i # ys" "\<And>t. ts[i := t] = xs @ t # ys"
  using assms that [of "take i ts" "drop (Suc i) ts"]
  by (simp add: id_take_nth_drop upd_conv_take_nth_drop)

lemma work_fns_append [simp]: "work_fns w (xs @ ys) = work_fns w xs + work_fns w ys"
  by (simp add: work_fns_def)

lemma work_fns_Nil [simp]: "work_fns w [] = {#}"
  by (simp add: work_fns_def)

lemma work_fns_Cons [simp]: "work_fns w (a # as) = add_mset (work_fn (the (w a))) (work_fns w as)"
  by (simp add: work_fns_def)

lemma work_fns_cong: "mset as = mset bs \<Longrightarrow> work_fns w as = work_fns w bs"
  by (simp add: work_fns_def)

lemma work_fns_upd: "a \<notin> set as \<Longrightarrow> work_fns (w(a := v)) as = work_fns w as"
  unfolding work_fns_def by (intro image_mset_cong) auto

lemma work_fns_restrict: "set as \<inter> D = {} \<Longrightarrow> work_fns (w |` (- D)) as = work_fns w as"
  unfolding work_fns_def by (intro image_mset_cong) (auto simp: restrict_map_def)

lemma busy_in: "Busy a \<in> set ts \<longleftrightarrow> a \<in> set (busy ts)"
  by (induction ts rule: busy.induct) auto

lemma destroy_works_seg:
  "seg h p ns NULL \<Longrightarrow> distinct (map qn_data ns) \<Longrightarrow> NULL \<notin> qn_data ` set ns \<Longrightarrow>
   qn_data ` set ns \<subseteq> dom works \<Longrightarrow>
   destroy_works h works p = Some (works |` (- (qn_data ` set ns)))"
proof (induction ns arbitrary: p works)
  case Nil
  then show ?case by (subst destroy_works.simps) (auto simp: restrict_map_def)
next
  case (Cons x ns)
  from Cons.prems(1) obtain n where n: "h p = Some n" "p \<noteq> NULL" "node_data n = qn_data x"
      "seg h (node_next n) ns NULL" by (auto split: option.splits)
  have w: "free_work works (qn_data x) = Some (works(qn_data x := None))"
    using Cons.prems(3,4) by (auto simp: free_work_def)
  have "destroy_works h (works(qn_data x := None)) (node_next n) =
      Some (works(qn_data x := None) |` (- (qn_data ` set ns)))"
  proof (rule Cons.IH [OF n(4)])
    have "qn_data ` set ns \<subseteq> dom works" "qn_data x \<notin> qn_data ` set ns"
      using Cons.prems(2,4) by simp_all
    then show "qn_data ` set ns \<subseteq> dom (works(qn_data x := None))"
      by (simp add: subset_Diff_insert)
  qed (use Cons.prems in simp_all)
  moreover have "works(qn_data x := None) |` (- (qn_data ` set ns)) =
      works |` (- (qn_data ` set (x # ns)))"
    by (auto simp: restrict_map_def)
  ultimately show ?case using n w by (subst destroy_works.simps) simp
qed

lemma destroy_begin_ok:
  assumes ok: "pool_ok tp ns" and d: "distinct (map qn_data ns)" "NULL \<notin> qn_data ` set ns"
    "qn_data ` set ns \<subseteq> dom (p_works tp)"
  shows "\<exists>nodes. t_pool_destroy_begin tp = Some (tp\<lparr>p_stop := True,
      p_works := p_works tp |` (- (qn_data ` set ns)), p_nodes := nodes\<rparr>) \<and>
    (\<forall>a \<in> destroyed_nodes ns. nodes a = None)"
proof -
  from ok have rep: "queue_rep (p_nodes tp) (p_queue tp) ns" by (simp add: pool_ok_def)
  then have "destroy_works (p_nodes tp) (p_works tp) (q_head (p_queue tp)) =
      Some (p_works tp |` (- (qn_data ` set ns)))"
    using d by (intro destroy_works_seg) (simp_all add: queue_rep_def)
  then show ?thesis
    using prio_destroy_queue_rep [OF rep] by (auto simp: t_pool_destroy_begin_def)
qed


lemma sys_ok_start: "sys_ok (pool_start n usec0)"
  using pool_ok_init by (fastforce simp: sys_ok_def pool_start_def t_pool_init_def)

lemma sys_ok_runningI:
  assumes "\<not> p_stop (pool s)" and "p_thread_count (pool s) = int (live (threads s))"
    and "Gone \<notin> set (threads s)" and "pool_ok (pool s) ns"
    and "mset as = mset (map qn_data ns @ busy (threads s))"
    and "distinct as" and "NULL \<notin> set as" and "set as \<subseteq> dom (p_works (pool s))"
    and "added s = executed s + work_fns (p_works (pool s)) as"
  shows "sys_ok s"
proof -
  let ?bs = "map qn_data ns @ busy (threads s)"
  have "distinct ?bs" "set ?bs = set as"
    using assms(5,6) mset_eq_setD mset_eq_imp_distinct_iff by blast+
  moreover have "work_fns (p_works (pool s)) ?bs = work_fns (p_works (pool s)) as"
    using assms(5) work_fns_cong by metis
  ultimately show ?thesis
    unfolding sys_ok_def if_not_P [OF assms(1)] using assms(2-4,7-9)
    by (intro conjI exI [of _ ns]) (simp_all only: simp_thms)
qed

lemma sys_ok_runningE:
  assumes "sys_ok s" and "\<not> p_stop (pool s)"
  obtains ns where "pool_ok (pool s) ns" "distinct (map qn_data ns @ busy (threads s))"
    "NULL \<notin> set (map qn_data ns @ busy (threads s))"
    "set (map qn_data ns @ busy (threads s)) \<subseteq> dom (p_works (pool s))"
    "added s = executed s + work_fns (p_works (pool s)) (map qn_data ns @ busy (threads s))"
    "Gone \<notin> set (threads s)" "p_thread_count (pool s) = int (live (threads s))"
  using assms by (auto simp: sys_ok_def)

lemma fresh_node: "pool_ok tp ns \<Longrightarrow> p_nodes tp np = None \<Longrightarrow> np \<notin> qn_addr ` set ns"
  using seg_alloc [of "p_nodes tp" "q_head (p_queue tp)" ns NULL np]
  by (auto simp: pool_ok_def queue_rep_def)

lemma add_keeps:
  assumes ok: "sys_ok s" and run: "\<not> p_stop (pool s)"
    and wp: "wp \<noteq> NULL" "p_works (pool s) wp = None"
    and np: "np \<noteq> NULL" "p_nodes (pool s) np = None" and w: "0 \<le> tv_sec w"
    and add: "t_pool_add_work (pool s) wp np f w = Some tp"
  shows "sys_ok (s\<lparr>pool := tp, added := add_mset f (added s)\<rparr>)"
proof -
  obtain ns where ns: "pool_ok (pool s) ns" "distinct (map qn_data ns @ busy (threads s))"
    "NULL \<notin> set (map qn_data ns @ busy (threads s))"
    "set (map qn_data ns @ busy (threads s)) \<subseteq> dom (p_works (pool s))"
    "added s = executed s + work_fns (p_works (pool s)) (map qn_data ns @ busy (threads s))"
    "Gone \<notin> set (threads s)" "p_thread_count (pool s) = int (live (threads s))"
    using ok run by (rule sys_ok_runningE)
  have tp: "pool_ok tp (push_list (np, wp, w) ns)"
      "p_works tp = (p_works (pool s))(wp \<mapsto> \<lparr>work_fn = f, work_wait_until = w\<rparr>)"
      "p_stop tp = p_stop (pool s)" "p_thread_count tp = p_thread_count (pool s)"
    using add_work_ok [OF ns(1) np(1) fresh_node [OF ns(1) np(2)] w, of wp f] add by auto
  have new: "wp \<notin> set (map qn_data ns @ busy (threads s))" using ns(4) wp(2) by blast
  have "mset (wp # map qn_data ns @ busy (threads s)) =
      mset (map qn_data (push_list (np, wp, w) ns) @ busy (threads s))"
    using mset_push_list [of "(np, wp, w)" ns] by (simp add: mset_map)
  then show ?thesis
    using ns(2-7) tp run wp new
    by (intro sys_ok_runningI [of _ _ "wp # map qn_data ns @ busy (threads s)"])
      (simp_all add: work_fns_upd subset_insertI2)
qed

lemma take_keeps:
  assumes ok: "sys_ok s" and i: "i < length (threads s)" "threads s ! i = Idle"
    and sec: "thread_section now (pool s) = Some (Run a, tp)"
  shows "sys_ok (s\<lparr>pool := tp, threads := (threads s)[i := Busy a]\<rparr>)"
proof -
  have run: "\<not> p_stop (pool s)"
    using sec by (auto simp: thread_section_def split: if_splits option.splits prod.splits)
  obtain ns where ns: "pool_ok (pool s) ns" "distinct (map qn_data ns @ busy (threads s))"
    "NULL \<notin> set (map qn_data ns @ busy (threads s))"
    "set (map qn_data ns @ busy (threads s)) \<subseteq> dom (p_works (pool s))"
    "added s = executed s + work_fns (p_works (pool s)) (map qn_data ns @ busy (threads s))"
    "Gone \<notin> set (threads s)" "p_thread_count (pool s) = int (live (threads s))"
    using ok run by (rule sys_ok_runningE)
  obtain x ns' where x: "ns = x # ns'" "a = qn_data x" "pool_ok tp ns'"
      "p_works tp = p_works (pool s)" "p_stop tp = p_stop (pool s)"
      "p_thread_count tp = p_thread_count (pool s)"
    using thread_section_run [OF ns(1) sec] by blast
  obtain xs ys where sp: "threads s = xs @ threads s ! i # ys"
      "\<And>t. (threads s)[i := t] = xs @ t # ys"
    using thread_split i(1) by blast
  have b: "busy (threads s) = busy xs @ busy ys" by (subst sp(1)) (simp add: i(2))
  have l: "live (xs @ Busy a # ys) = live (threads s)"
    using arg_cong [OF sp(1), of live] i(2) by simp
  have g: "Gone \<notin> set (xs @ Busy a # ys)" using ns(6) by (subst (asm) sp(1)) auto
  show ?thesis
    using ns(2-5,7) x run g l
    by (intro sys_ok_runningI [of _ ns' "map qn_data ns @ busy (threads s)"])
      (simp_all add: sp(2) b)
qed

lemma finish_keeps:
  assumes ok: "sys_ok s" and i: "i < length (threads s)" "threads s ! i = Busy a"
    and wk: "p_works (pool s) a = Some wk" and fr: "free_work (p_works (pool s)) a = Some works"
  shows "sys_ok (s\<lparr>pool := (pool s)\<lparr>p_works := works\<rparr>, threads := (threads s)[i := Idle],
                   executed := add_mset (work_fn wk) (executed s)\<rparr>)"
proof -
  obtain xs ys where sp: "threads s = xs @ threads s ! i # ys"
      "\<And>t. (threads s)[i := t] = xs @ t # ys"
    using thread_split i(1) by blast
  have b: "busy (threads s) = busy xs @ a # busy ys" by (subst sp(1)) (simp add: i(2))
  have l: "live (threads s) = Suc (live xs + live ys)"
    using arg_cong [OF sp(1), of live] i(2) by simp
  show ?thesis
  proof (cases "p_stop (pool s)")
    case True
    with ok have s: "distinct (busy xs @ a # busy ys)" "NULL \<notin> set (busy xs @ a # busy ys)"
        "set (busy xs @ a # busy ys) \<subseteq> dom (p_works (pool s))"
        "executed s + work_fns (p_works (pool s)) (busy xs @ a # busy ys) \<subseteq># added s"
        "p_thread_count (pool s) = int (live (threads s))"
      by (auto simp: sys_ok_def b)
    then have "works = (p_works (pool s))(a := None)" using fr wk by (simp add: free_work_def)
    with s True wk show ?thesis
      by (auto simp: sys_ok_def sp(2) l work_fns_upd)
  next
    case False
    obtain ns where ns: "pool_ok (pool s) ns" "distinct (map qn_data ns @ busy (threads s))"
      "NULL \<notin> set (map qn_data ns @ busy (threads s))"
      "set (map qn_data ns @ busy (threads s)) \<subseteq> dom (p_works (pool s))"
      "added s = executed s + work_fns (p_works (pool s)) (map qn_data ns @ busy (threads s))"
      "Gone \<notin> set (threads s)" "p_thread_count (pool s) = int (live (threads s))"
      using ok False by (rule sys_ok_runningE)
    then have works: "works = (p_works (pool s))(a := None)"
      using fr wk by (simp add: free_work_def b)
    have g: "Gone \<notin> set (xs @ Idle # ys)" using ns(6) by (subst (asm) sp(1)) auto
    have "pool_ok ((pool s)\<lparr>p_works := works\<rparr>) ns" using ns(1) by (simp add: pool_ok_def)
    with ns(2-5,7) False wk works g l show ?thesis
      by (intro sys_ok_runningI [of _ ns "map qn_data ns @ busy xs @ busy ys"])
        (auto simp: sp(2) b work_fns_upd)
  qed
qed


lemma leave_keeps:
  assumes ok: "sys_ok s" and i: "i < length (threads s)" "threads s ! i = Idle"
    and sec: "thread_section now (pool s) = Some (Leave, tp)"
  shows "sys_ok (s\<lparr>pool := tp, threads := (threads s)[i := Gone]\<rparr>)"
proof -
  obtain xs ys where sp: "threads s = xs @ threads s ! i # ys"
      "\<And>t. (threads s)[i := t] = xs @ t # ys"
    using thread_split i(1) by blast
  have b: "busy (threads s) = busy xs @ busy ys" by (subst sp(1)) (simp add: i(2))
  have l: "live (threads s) = Suc (live xs + live ys)"
    using arg_cong [OF sp(1), of live] i(2) by simp
  from sec ok show ?thesis
    by (auto simp: thread_section_leave sys_ok_def sp(2) b l)
qed

lemma destroy_keeps:
  assumes ok: "sys_ok s" and run: "\<not> p_stop (pool s)"
    and d: "t_pool_destroy_begin (pool s) = Some tp"
  shows "sys_ok (s\<lparr>pool := tp\<rparr>)"
proof -
  obtain ns where ns: "pool_ok (pool s) ns" "distinct (map qn_data ns @ busy (threads s))"
    "NULL \<notin> set (map qn_data ns @ busy (threads s))"
    "set (map qn_data ns @ busy (threads s)) \<subseteq> dom (p_works (pool s))"
    "added s = executed s + work_fns (p_works (pool s)) (map qn_data ns @ busy (threads s))"
    "Gone \<notin> set (threads s)" "p_thread_count (pool s) = int (live (threads s))"
    using ok run by (rule sys_ok_runningE)
  obtain nodes where tp: "tp = (pool s)\<lparr>p_stop := True,
      p_works := p_works (pool s) |` (- (qn_data ` set ns)), p_nodes := nodes\<rparr>"
    using destroy_begin_ok [OF ns(1)] ns(2-4) d by auto
  have dis: "set (busy (threads s)) \<inter> qn_data ` set ns = {}" using ns(2) by auto
  then have fns: "work_fns (p_works tp) (busy (threads s)) = work_fns (p_works (pool s)) (busy (threads s))"
    by (simp add: tp work_fns_restrict)
  have "set (busy (threads s)) \<subseteq> dom (p_works (pool s)) - qn_data ` set ns"
    using ns(4) dis unfolding set_append by blast
  then have "set (busy (threads s)) \<subseteq> dom (p_works tp)"
    by (simp add: tp Diff_eq)
  then show ?thesis
    using ns(2,3,5,7) fns by (simp add: sys_ok_def tp)
qed

lemma add_stopped_keeps:
  assumes ok: "sys_ok s" and stop: "p_stop (pool s)"
    and wp: "wp \<noteq> NULL" "p_works (pool s) wp = None"
    and add: "t_pool_add_work (pool s) wp np f w = Some tp"
  shows "sys_ok (s\<lparr>pool := tp, added := add_mset f (added s)\<rparr>)"
proof -
  have tp: "p_works tp = (p_works (pool s))(wp \<mapsto> \<lparr>work_fn = f, work_wait_until = w\<rparr>)"
      "p_stop tp" "p_thread_count tp = p_thread_count (pool s)"
    using add stop by (auto simp: t_pool_add_work_def Let_def split: option.splits)
  from ok stop have s: "set (busy (threads s)) \<subseteq> dom (p_works (pool s))"
      "executed s + work_fns (p_works (pool s)) (busy (threads s)) \<subseteq># added s"
    by (auto simp: sys_ok_def)
  then have "wp \<notin> set (busy (threads s))" using wp(2) by blast
  then have fns: "work_fns (p_works tp) (busy (threads s)) = work_fns (p_works (pool s)) (busy (threads s))"
    by (simp add: tp(1) work_fns_upd)
  have "executed s + work_fns (p_works tp) (busy (threads s)) \<subseteq># add_mset f (added s)"
    using s(2) unfolding fns by (meson multi_psub_of_add_self subset_mset.order_trans subset_mset.less_imp_le)
  moreover have "set (busy (threads s)) \<subseteq> dom (p_works tp)" using s(1) by (auto simp: tp(1))
  ultimately show ?thesis using ok stop tp by (simp add: sys_ok_def)
qed

lemma pool_step_keeps: "pool_step s t \<Longrightarrow> sys_ok s \<Longrightarrow> sys_ok t"
proof (induction rule: pool_step.induct)
  case (add wp s np w f tp)
  then show ?case using add_keeps add_stopped_keeps by metis
next
  case (take i s now a tp)
  then show ?case by (intro take_keeps)
next
  case (leave i s now tp)
  then show ?case by (intro leave_keeps)
next
  case (finish i s a wk works)
  then show ?case by (intro finish_keeps)
next
  case (destroy s tp)
  then show ?case by (intro destroy_keeps)
qed

lemma pool_reach_ok: "pool_reach n usec0 s \<Longrightarrow> sys_ok s"
  by (induction rule: pool_reach.induct) (auto simp: sys_ok_start intro: pool_step_keeps)

lemma pool_step_threads: "pool_step s t \<Longrightarrow> length (threads t) = length (threads s)"
  by (induction rule: pool_step.induct) auto

lemma pool_reach_threads: "pool_reach n usec0 s \<Longrightarrow> length (threads s) = n"
  by (induction rule: pool_reach.induct) (auto simp: pool_start_def dest: pool_step_threads)

section \<open>Stopping\<close>

text \<open>What each thread still has to do once the pool is stopped.\<close>

definition steps_left :: "thread list \<Rightarrow> nat" where
  "steps_left ts = sum_list (map (\<lambda>t. case t of Busy _ \<Rightarrow> 2 | Idle \<Rightarrow> 1 | Gone \<Rightarrow> 0) ts)"

lemma steps_left_append [simp]: "steps_left (xs @ ys) = steps_left xs + steps_left ys"
  by (simp add: steps_left_def)

lemma steps_left_Cons [simp]: "steps_left (t # ts) =
    (case t of Busy _ \<Rightarrow> 2 | Idle \<Rightarrow> 1 | Gone \<Rightarrow> 0) + steps_left ts"
  by (simp add: steps_left_def)

lemma steps_left_le: "steps_left ts \<le> 2 * length ts"
  by (induction ts) (auto simp: steps_left_def split: thread.splits)

lemma live_0: "live ts = 0 \<longleftrightarrow> ts = replicate (length ts) Gone"
  by (induction ts) (auto simp: live_def)

lemma live_pos: "live ts \<noteq> 0 \<Longrightarrow> \<exists>i < length ts. ts ! i \<noteq> Gone"
  by (auto simp: live_def filter_empty_conv in_set_conv_nth)

lemma live_all: "Gone \<notin> set ts \<Longrightarrow> live ts = length ts"
  by (induction ts) (auto simp: live_def)

lemma stopped_worker_step:
  assumes ok: "sys_ok s" and stop: "p_stop (pool s)" and i: "i < length (threads s)"
    "threads s ! i \<noteq> Gone"
  shows "\<exists>t. pool_step s t \<and> p_stop (pool t) \<and> steps_left (threads s) = Suc (steps_left (threads t))"
proof -
  obtain xs ys where sp: "threads s = xs @ threads s ! i # ys"
      "\<And>t. (threads s)[i := t] = xs @ t # ys"
    using thread_split i(1) by blast
  show ?thesis
  proof (cases "threads s ! i")
    case Idle
    let ?tp = "(pool s)\<lparr>p_thread_count := p_thread_count (pool s) - 1\<rparr>"
    have "thread_section (secs 0) (pool s) = Some (Leave, ?tp)"
      using stop by (simp add: thread_section_leave)
    from pool_step.leave [OF i(1) Idle this] show ?thesis
      using stop sp Idle arg_cong [OF sp(1), of steps_left] by auto
  next
    case (Busy a)
    then have "a \<in> set (busy (threads s))" using i(1) busy_in by (metis nth_mem)
    with ok stop have a: "a \<in> dom (p_works (pool s))" "a \<noteq> NULL" by (auto simp: sys_ok_def)
    then obtain wk where wk: "p_works (pool s) a = Some wk" by blast
    with a have "free_work (p_works (pool s)) a = Some ((p_works (pool s))(a := None))"
      by (simp add: free_work_def)
    from pool_step.finish [OF i(1) Busy wk this] show ?thesis
      using stop sp Busy arg_cong [OF sp(1), of steps_left] by auto
  qed (use i in simp)
qed

lemma stopped_drains:
  "sys_ok s \<Longrightarrow> p_stop (pool s) \<Longrightarrow> steps_left (threads s) = k \<Longrightarrow>
   \<exists>t. (pool_step ^^ k) s t \<and> t_pool_wait_done (pool t)"
proof (induction k arbitrary: s)
  case 0
  have "live (threads s) = 0"
  proof (rule ccontr)
    assume "live (threads s) \<noteq> 0"
    then obtain i where "i < length (threads s)" "threads s ! i \<noteq> Gone"
      using live_pos by blast
    from stopped_worker_step [OF "0.prems"(1,2) this] "0.prems"(3) show False by auto
  qed
  with "0.prems" show ?case by (auto simp: sys_ok_def t_pool_wait_done_def)
next
  case (Suc k)
  have "\<exists>i < length (threads s). threads s ! i \<noteq> Gone"
  proof (rule ccontr)
    assume "\<not> ?thesis"
    then have "\<forall>t \<in> set (threads s). t = Gone" by (auto simp: in_set_conv_nth)
    then have "steps_left (threads s) = 0" by (auto simp: steps_left_def)
    with Suc.prems show False by simp
  qed
  then obtain i where "i < length (threads s)" "threads s ! i \<noteq> Gone" by blast
  from stopped_worker_step [OF Suc.prems(1,2) this] Suc.prems(3) obtain t1 where
      t1: "pool_step s t1" "p_stop (pool t1)" "steps_left (threads t1) = k" by auto
  from Suc.IH [OF pool_step_keeps [OF t1(1) Suc.prems(1)] t1(2,3)] t1(1)
  show ?case by (meson relpowp_Suc_I2)
qed


section \<open>Properties\<close>

text \<open>C3. While the pool is not being destroyed, no work is lost and none is run twice: the
  functions added so far are exactly those executed, those queued and those a worker holds, the
  queued and held items are distinct allocated items, and every worker is still running.\<close>

theorem pool_work_conserved:
  assumes "pool_reach n usec0 s" and "\<not> p_stop (pool s)"
  shows "\<exists>ns. queue_rep (p_nodes (pool s)) (p_queue (pool s)) ns \<and>
      distinct (map qn_data ns @ busy (threads s)) \<and>
      set (map qn_data ns @ busy (threads s)) \<subseteq> dom (p_works (pool s)) \<and>
      added s = executed s + work_fns (p_works (pool s)) (map qn_data ns) +
        work_fns (p_works (pool s)) (busy (threads s)) \<and>
      p_thread_count (pool s) = int n \<and> Gone \<notin> set (threads s)"
proof -
  have "sys_ok s" using assms(1) by (rule pool_reach_ok)
  then obtain ns where ns: "pool_ok (pool s) ns" "distinct (map qn_data ns @ busy (threads s))"
    "set (map qn_data ns @ busy (threads s)) \<subseteq> dom (p_works (pool s))"
    "added s = executed s + work_fns (p_works (pool s)) (map qn_data ns @ busy (threads s))"
    "Gone \<notin> set (threads s)" "p_thread_count (pool s) = int (live (threads s))"
    using assms(2) by (rule sys_ok_runningE)
  moreover have "live (threads s) = n"
    using ns(5) pool_reach_threads [OF assms(1)] by (simp add: live_all)
  moreover have "queue_rep (p_nodes (pool s)) (p_queue (pool s)) ns"
    using ns(1) by (simp add: pool_ok_def)
  ultimately show ?thesis by (intro exI [of _ ns]) (simp add: add.assoc)
qed

theorem pool_work_conserved_witness:
  "p_thread_count (pool (pool_start 2 0 :: string pool_sys)) = 2"
  using pool_work_conserved [of 2 0 "pool_start 2 0 :: string pool_sys"] pool_reach.start [of 2 0]
  by (auto simp: pool_start_def t_pool_init_def)

text \<open>The thread count is the number of workers that have not left their loop, and
  \<open>t_pool_wait\<close> returns exactly when all of them have; so the memory that
  \<open>t_pool_destroy\<close> frees after it is used by no worker. No work is ever run twice.\<close>

lemma pool_wait_exact:
  assumes "pool_reach n usec0 s"
  shows "p_thread_count (pool s) = int (length (filter (\<lambda>t. t \<noteq> Gone) (threads s))) \<and>
      (t_pool_wait_done (pool s) \<longleftrightarrow> threads s = replicate n Gone) \<and>
      executed s \<subseteq># added s"
proof -
  have ok: "sys_ok s" using assms by (rule pool_reach_ok)
  have "live (threads s) = 0 \<longleftrightarrow> threads s = replicate n Gone"
    using pool_reach_threads [OF assms] by (simp add: live_0)
  moreover have "executed s \<subseteq># added s"
    using ok by (auto simp: sys_ok_def split: if_splits intro: subset_mset.order_trans [rotated])
  ultimately show ?thesis using ok by (auto simp: sys_ok_def live_def t_pool_wait_done_def)
qed

lemma pool_wait_exact_example:
  "\<not> t_pool_wait_done (pool (pool_start 1 0 :: string pool_sys))"
  using pool_wait_exact [of 1 0 "pool_start 1 0 :: string pool_sys", OF pool_reach.start]
  by (simp add: pool_start_def)


lemma start_destroyed:
  "pool_step (pool_start n usec0) (pool_start n usec0\<lparr>pool :=
     (pool (pool_start n usec0))\<lparr>p_stop := True\<rparr>\<rparr>)"
proof (rule pool_step.destroy)
  show "t_pool_destroy_begin (pool (pool_start n usec0)) =
      Some ((pool (pool_start n usec0))\<lparr>p_stop := True\<rparr>)"
    by (simp add: t_pool_destroy_begin_def pool_start_def t_pool_init_def prio_init_def
        prio_destroy_queue_def destroy_works.simps)
qed (simp add: pool_start_def t_pool_init_def)



text \<open>C6. No due work is left waiting at the head: on a well-formed running pool whose head item is
  strictly due, a worker that enters its critical section takes that item, without a fault and
  without waiting, and leaves a well-formed pool with the rest of the queue.\<close>

theorem pool_head_due_is_taken:
  assumes "pool_ok tp (x # ns)" and "\<not> p_stop tp" and "tv_less (qn_wait x) now"
  shows "\<exists>tp'. thread_section now tp = Some (Run (qn_data x), tp') \<and> pool_ok tp' ns"
proof -
  have "tv_le (p_sleep_until tp) (qn_wait x)" using assms(1) by (simp add: pool_ok_def)
  then have "\<not> is_future now (p_sleep_until tp)"
    using assms(3) by (auto simp: is_future_tv_le tv_le_def tv_less_def)
  moreover have "q_size (p_queue tp) \<noteq> 0"
    using queue_rep_size_0 [of "p_nodes tp" "p_queue tp" "x # ns"] assms(1) by (simp add: pool_ok_def)
  ultimately show ?thesis
    using pop_work_ok [OF assms(1)] assms(2) by (auto simp: thread_section_def)
qed

definition demo_pool :: "string t_pool" where
  "demo_pool = \<lparr>p_nodes = [1 \<mapsto> \<lparr>node_data = 9, node_wait_until = secs 10, node_next = NULL\<rparr>],
     p_works = [9 \<mapsto> \<lparr>work_fn = ''a'', work_wait_until = secs 10\<rparr>],
     p_queue = \<lparr>q_head = 1, q_size = 1\<rparr>, p_thread_count = 1, p_stop = False,
     p_sleep_until = secs 10\<rparr>"

lemma demo_pool_ok: "pool_ok demo_pool [(1, 9, secs 10)]"
  by (simp add: pool_ok_def demo_pool_def queue_rep_def front_ordered_def secs_def)

theorem pool_head_due_is_taken_witness:
  "\<exists>tp'. thread_section (secs 11) demo_pool = Some (Run 9, tp') \<and> pool_ok tp' []"
  using pool_head_due_is_taken [OF demo_pool_ok, of "secs 11"]
  by (simp add: demo_pool_def tv_less_def secs_def)

text \<open>When work for a later time is added to an idle pool that holds one item, a worker that
  wakes up after the first time and before the second one runs the later item too early, and
  the pool then sleeps until the first item's time only.\<close>

theorem pool_later_work_runs_early:
  assumes "pool_ok tp []" and "\<not> p_stop tp"
    and "np1 \<noteq> NULL" and "np2 \<noteq> NULL" and "np1 \<noteq> np2" and "0 \<le> tv_sec w1"
    and "tv_less w1 now" and "tv_less now w2"
  shows "\<exists>tp1 tp2 tp3. t_pool_add_work tp wp1 np1 f1 w1 = Some tp1 \<and>
      t_pool_add_work tp1 wp2 np2 f2 w2 = Some tp2 \<and>
      thread_section now tp2 = Some (Run wp2, tp3) \<and> p_sleep_until tp3 = w1"
proof -
  have w2: "0 \<le> tv_sec w2" using assms(6-8) unfolding tv_less_def by linarith
  have w12: "\<not> tv_less w2 w1" using assms(7,8) unfolding tv_less_def by linarith
  obtain tp1 where tp1: "t_pool_add_work tp wp1 np1 f1 w1 = Some tp1" "pool_ok tp1 [(np1, wp1, w1)]"
      "p_stop tp1 = p_stop tp" "p_sleep_until tp1 = w1"
  proof -
    have "np1 \<notin> qn_addr ` set []" "push_list (np1, wp1, w1) [] = [(np1, wp1, w1)]"
      by (simp_all add: push_list_def)
    then show ?thesis
      using add_work_ok [OF assms(1,3) _ assms(6), of wp1 f1] that by auto
  qed
  obtain tp2 where tp2: "t_pool_add_work tp1 wp2 np2 f2 w2 = Some tp2"
      "pool_ok tp2 [(np2, wp2, w2), (np1, wp1, w1)]" "p_stop tp2 = p_stop tp1"
      "p_sleep_until tp2 = w1"
  proof -
    have "push_list (np2, wp2, w2) [(np1, wp1, w1)] = [(np2, wp2, w2), (np1, wp1, w1)]"
      by (simp add: push_list_def)
    moreover have "np2 \<notin> qn_addr ` set [(np1, wp1, w1)]" using assms(5) by simp
    ultimately show ?thesis
      using add_work_ok [OF tp1(2) assms(4) _ w2, of wp2 f2] tp1(4) w12 that by auto
  qed
  obtain tp3 where tp3: "t_pool_pop_work tp2 = Some (wp2, tp3)" "p_sleep_until tp3 = w1"
    using pop_work_ok [OF tp2(2)] by auto
  have "\<not> is_future now (p_sleep_until tp2)"
    using assms(7) tp2(4) by (simp add: is_future_tv_le not_tv_le)
  moreover have "q_size (p_queue tp2) \<noteq> 0"
    using queue_rep_size_0 [of "p_nodes tp2" "p_queue tp2"] tp2(2) by (auto simp: pool_ok_def)
  ultimately have "thread_section now tp2 = Some (Run wp2, tp3)"
    using assms(2) tp1(3) tp2(3) tp3(1) by (simp add: thread_section_def)
  with tp1(1) tp2(1) tp3(2) show ?thesis by blast
qed

theorem pool_later_work_runs_early_witness:
  "\<exists>tp1 tp2 tp3. t_pool_add_work (t_pool_init Map.empty Map.empty 1 0) 9 1 ''a'' (secs 10) = Some tp1 \<and>
     t_pool_add_work tp1 8 2 ''b'' (secs 20) = Some tp2 \<and>
     thread_section (secs 15) tp2 = Some (Run 8, tp3)"
proof -
  have "tv_less (secs 10) (secs 15)" "tv_less (secs 15) (secs 20)" "0 \<le> tv_sec (secs 10)"
    by (simp_all add: tv_less_def secs_def)
  then show ?thesis
    using pool_later_work_runs_early [OF pool_ok_init pool_init_running, of 1 2 "secs 10" "secs 15"
        "secs 20" Map.empty Map.empty 1 0 9 "''a''" 8 "''b''"]
    by simp blast
qed

text \<open>After \<open>t_pool_destroy\<close> has freed a queue that was not empty, the queue head still
  points to a freed node: adding more work reads freed memory.\<close>

theorem pool_add_after_destroy_faults:
  assumes "pool_ok tp ns" and "ns \<noteq> []" and "distinct (map qn_data ns)"
    and "NULL \<notin> qn_data ` set ns" and "qn_data ` set ns \<subseteq> dom (p_works tp)"
    and "np \<notin> qn_addr ` set ns"
  shows "\<exists>tp'. t_pool_destroy_begin tp = Some tp' \<and> p_stop tp' \<and>
      t_pool_add_work tp' wp np f w = None"
proof -
  obtain nodes where d: "t_pool_destroy_begin tp = Some (tp\<lparr>p_stop := True,
      p_works := p_works tp |` (- (qn_data ` set ns)), p_nodes := nodes\<rparr>)"
      "\<forall>a \<in> destroyed_nodes ns. nodes a = None"
    using destroy_begin_ok [OF assms(1,3-5)] by blast
  obtain x ns' where ns: "ns = x # ns'" using assms(2) by (cases ns) auto
  then have "qn_addr x \<in> destroyed_nodes ns" by (cases ns') (auto simp: destroyed_nodes_def)
  moreover have hd: "q_head (p_queue tp) = qn_addr x" "qn_addr x \<noteq> NULL"
    using assms(1) by (auto simp: ns pool_ok_def queue_rep_def)
  ultimately have "nodes (q_head (p_queue tp)) = None" using d(2) by simp
  then have "prio_push nodes (p_queue tp) np wp w = None"
    using hd assms(6) by (auto simp: prio_push_def ns prio_push_scan.simps Let_def)
  with d(1) show ?thesis by (simp add: t_pool_add_work_def)
qed

theorem pool_add_after_destroy_faults_witness:
  "\<exists>tp'. t_pool_destroy_begin demo_pool = Some tp' \<and> t_pool_add_work tp' 8 2 ''b'' (secs 20) = None"
  using pool_add_after_destroy_faults [OF demo_pool_ok, of 2 8 "''b''" "secs 20"]
  by (auto simp: demo_pool_def)

text \<open>The deadline computed for \<open>pthread_cond_timedwait\<close> denotes the time slept for, and
  its nanoseconds are below one second, as the call requires, for every microsecond count up to
  one second but exactly one second.\<close>

theorem timed_wait_deadline:
  assumes "0 \<le> tv_usec t" and "tv_usec t \<le> 10 ^ 6"
  shows "(case timed_wait_until t of (s, n) \<Rightarrow>
      s * 10 ^ 9 + n = tv_sec t * 10 ^ 9 + tv_usec t * 1000 \<and> 0 \<le> n \<and>
      (n < 10 ^ 9 \<longleftrightarrow> tv_usec t \<noteq> 10 ^ 6))"
  using assms by (auto simp: timed_wait_until_def Let_def)

theorem timed_wait_deadline_witness:
  "case timed_wait_until \<lparr>tv_sec = 5, tv_usec = 10 ^ 6\<rparr> of (s, n) \<Rightarrow> s = 5 \<and> n = 10 ^ 9"
  using timed_wait_deadline [of "\<lparr>tv_sec = 5, tv_usec = 10 ^ 6\<rparr>"]
  by (simp add: timed_wait_until_def Let_def)

end
