(* ===== verification/Cache.thy ===== *)
theory Cache
  imports Disco_Prelude
begin

text \<open>
  \<open>src/utils/cache.c\<close>: the caches of messages, channels and guilds. Each is a hash map from an
  ID to a node, a tail queue of the nodes with the oldest first, and a size. The hash map
  (\<open>hashmap.h\<close>, not part of the repository) is the parameter \<open>H\<close>; what is relied on is the
  predicate \<open>hashmap_laws\<close>. A structure in the cache is its address, and \<open>c_objs\<close> holds the
  \<open>id\<close> field of every allocated structure of the cache's type. A read or a removal of memory
  that is not there is a fault (\<open>None\<close>). The lemmas relate each operation to the list of
  entries, oldest first; the interface the event handlers rely on is the locale \<open>lru_cache\<close>.
\<close>

section \<open>The code\<close>

datatype cache_type = DISCO_CHANNEL_CACHE | DISCO_MESSAGE_CACHE | DISCO_GUILD_CACHE

text \<open>The functions of \<open>hashmap.h\<close> in use; creation and insertion can fail.\<close>

record 'm hashmap_api =
  hm_create :: "'m option"
  hm_get :: "'m \<Rightarrow> u64 \<Rightarrow> addr"
  hm_put :: "'m \<Rightarrow> u64 \<Rightarrow> addr \<Rightarrow> 'm option"
  hm_remove :: "'m \<Rightarrow> u64 \<Rightarrow> 'm"

definition hashmap_laws :: "'m hashmap_api \<Rightarrow> bool" where
  "hashmap_laws H \<longleftrightarrow>
     (\<forall>m k. hm_create H = Some m \<longrightarrow> hm_get H m k = NULL) \<and>
     (\<forall>m k v m' k'. hm_put H m k v = Some m' \<longrightarrow>
        hm_get H m' k' = (if k' = k then v else hm_get H m k')) \<and>
     (\<forall>m k k'. hm_get H (hm_remove H m k) k' = (if k' = k then NULL else hm_get H m k'))"

record node =
  alloc_id :: u64
  node_cont :: addr

record 'm buffer =
  c_map :: 'm
  c_queue :: "addr list"
  c_size :: int
  c_max :: int
  c_nodes :: "addr \<rightharpoonup> node"
  c_objs :: "addr \<rightharpoonup> u64"

type_synonym destroy_fn = "cache_type \<Rightarrow> addr \<Rightarrow> (addr \<rightharpoonup> u64) \<Rightarrow> (addr \<rightharpoonup> u64) option"

text \<open>\<open>destroyed\<close> records the calls of the destroy callback.\<close>

record 'm caches =
  messages :: "'m buffer"
  channels :: "'m buffer"
  guilds :: "'m buffer"
  destroy_item_callback :: destroy_fn
  destroyed :: "(cache_type \<times> addr) list"

definition default_destroy_callback :: destroy_fn where
  "default_destroy_callback ty d objs =
     (case ty of
        DISCO_MESSAGE_CACHE \<Rightarrow> (case objs d of None \<Rightarrow> None | Some _ \<Rightarrow> Some (objs(d := None)))
      | DISCO_CHANNEL_CACHE \<Rightarrow> (case objs d of None \<Rightarrow> None | Some _ \<Rightarrow> Some (objs(d := None)))
      | DISCO_GUILD_CACHE \<Rightarrow> Some objs)"

text \<open>The \<open>switch (type)\<close> that selects map and queue.\<close>

definition get_cache :: "cache_type \<Rightarrow> 'm caches \<Rightarrow> 'm buffer" where
  "get_cache ty cs =
     (case ty of DISCO_MESSAGE_CACHE \<Rightarrow> messages cs | DISCO_CHANNEL_CACHE \<Rightarrow> channels cs
      | DISCO_GUILD_CACHE \<Rightarrow> guilds cs)"

definition put_cache :: "cache_type \<Rightarrow> 'm buffer \<Rightarrow> 'm caches \<Rightarrow> 'm caches" where
  "put_cache ty c cs =
     (case ty of DISCO_MESSAGE_CACHE \<Rightarrow> cs\<lparr>messages := c\<rparr> | DISCO_CHANNEL_CACHE \<Rightarrow> cs\<lparr>channels := c\<rparr>
      | DISCO_GUILD_CACHE \<Rightarrow> cs\<lparr>guilds := c\<rparr>)"

text \<open>\<open>TAILQ_REMOVE\<close> of a node and \<open>TAILQ_INSERT_TAIL\<close>.\<close>

definition tailq_remove :: "addr \<Rightarrow> addr list \<Rightarrow> addr list option" where
  "tailq_remove n q = (if n \<in> set q then Some (remove1 n q) else None)"

definition move_to_tail :: "addr \<Rightarrow> 'm buffer \<Rightarrow> 'm buffer option" where
  "move_to_tail n c =
     (case tailq_remove n (c_queue c) of None \<Rightarrow> None | Some q \<Rightarrow> Some (c\<lparr>c_queue := q @ [n]\<rparr>))"

text \<open>\<open>discord_cache_init\<close>: sizes below 2 become 2; the first failing creation returns 1.\<close>

definition clamp_size :: "int \<Rightarrow> int" where
  "clamp_size n = (if n < 2 then 2 else n)"

definition init_buffer :: "'m hashmap_api \<Rightarrow> 'm buffer \<Rightarrow> 'm buffer option" where
  "init_buffer H c =
     (case hm_create H of None \<Rightarrow> None | Some m \<Rightarrow> Some (c\<lparr>c_map := m, c_queue := [], c_size := 0\<rparr>))"

definition discord_cache_init ::
  "'m hashmap_api \<Rightarrow> int \<Rightarrow> int \<Rightarrow> int \<Rightarrow> destroy_fn option \<Rightarrow> 'm caches \<Rightarrow> int \<times> 'm caches" where
  "discord_cache_init H msize csize gsize callback cs0 =
     (let cs1 = cs0\<lparr>messages := (messages cs0)\<lparr>c_max := clamp_size msize\<rparr>,
                    channels := (channels cs0)\<lparr>c_max := clamp_size csize\<rparr>,
                    guilds := (guilds cs0)\<lparr>c_max := clamp_size gsize\<rparr>,
                    destroy_item_callback :=
                      (case callback of Some f \<Rightarrow> f | None \<Rightarrow> default_destroy_callback)\<rparr>
      in case init_buffer H (messages cs1) of None \<Rightarrow> (1, cs1)
         | Some m \<Rightarrow>
             let cs2 = cs1\<lparr>messages := m\<rparr>
             in case init_buffer H (channels cs2) of None \<Rightarrow> (1, cs2)
                | Some ch \<Rightarrow>
                    let cs3 = cs2\<lparr>channels := ch\<rparr>
                    in case init_buffer H (guilds cs3) of None \<Rightarrow> (1, cs3)
                       | Some g \<Rightarrow> (0, cs3\<lparr>guilds := g\<rparr>))"

definition discord_cache_get ::
  "'m hashmap_api \<Rightarrow> cache_type \<Rightarrow> u64 \<Rightarrow> 'm caches \<Rightarrow> (addr \<times> 'm caches) option" where
  "discord_cache_get H ty oid cs =
     (let c = get_cache ty cs; n = hm_get H (c_map c) oid
      in if n = NULL then Some (NULL, cs)
         else case move_to_tail n c of None \<Rightarrow> None
              | Some c' \<Rightarrow>
                  case c_nodes c n of None \<Rightarrow> None
                  | Some nd \<Rightarrow> Some (node_cont nd, put_cache ty c' cs))"

text \<open>Unlinked and destroyed, a node and its data: the common body of delete and destroy.\<close>

definition destroy_item ::
  "cache_type \<Rightarrow> addr \<Rightarrow> 'm caches \<Rightarrow> 'm caches option" where
  "destroy_item ty n cs =
     (let c = get_cache ty cs
      in case c_nodes c n of None \<Rightarrow> None
         | Some nd \<Rightarrow>
             case destroy_item_callback cs ty (node_cont nd) (c_objs c) of None \<Rightarrow> None
             | Some objs \<Rightarrow>
                 Some ((put_cache ty (c\<lparr>c_objs := objs, c_nodes := (c_nodes c)(n := None),
                                        c_size := c_size c - 1\<rparr>) cs)
                       \<lparr>destroyed := destroyed cs @ [(ty, node_cont nd)]\<rparr>))"

definition discord_cache_delete ::
  "'m hashmap_api \<Rightarrow> cache_type \<Rightarrow> u64 \<Rightarrow> 'm caches \<Rightarrow> 'm caches option" where
  "discord_cache_delete H ty oid cs =
     (let c = get_cache ty cs; n = hm_get H (c_map c) oid
      in if n = NULL then Some cs
         else case tailq_remove n (c_queue c) of None \<Rightarrow> None
              | Some q \<Rightarrow>
                  destroy_item ty n
                    (put_cache ty (c\<lparr>c_queue := q, c_map := hm_remove H (c_map c) oid\<rparr>) cs))"

text \<open>
  The clean-up loop of \<open>discord_cache_set\<close> deletes by the ID of the first node's data.
\<close>

fun remove_oldest ::
  "'m hashmap_api \<Rightarrow> cache_type \<Rightarrow> nat \<Rightarrow> 'm caches \<Rightarrow> 'm caches option" where
  "remove_oldest H ty 0 cs = Some cs"
| "remove_oldest H ty (Suc k) cs =
     (let c = get_cache ty cs
      in case c_queue c of [] \<Rightarrow> None
         | first # _ \<Rightarrow>
             case c_nodes c first of None \<Rightarrow> None
             | Some nd \<Rightarrow>
                 case c_objs c (node_cont nd) of None \<Rightarrow> None
                 | Some oid \<Rightarrow>
                     case discord_cache_delete H ty oid cs of None \<Rightarrow> None
                     | Some cs' \<Rightarrow> remove_oldest H ty k cs')"

text \<open>\<open>n\<close> is the address \<open>malloc\<close> returns for the new node.\<close>

definition discord_cache_set ::
  "'m hashmap_api \<Rightarrow> cache_type \<Rightarrow> addr \<Rightarrow> addr \<Rightarrow> 'm caches \<Rightarrow> (int \<times> 'm caches) option" where
  "discord_cache_set H ty cont n cs =
     (let c = get_cache ty cs
      in case c_objs c cont of None \<Rightarrow> None
         | Some oid \<Rightarrow>
             let old = hm_get H (c_map c) oid
             in case (if old \<noteq> NULL then move_to_tail old c else Some c) of None \<Rightarrow> None
                | Some c1 \<Rightarrow>
                    let c2 = c1\<lparr>c_size := c_size c1 + 1,
                                c_nodes := (c_nodes c1)(n \<mapsto> \<lparr>alloc_id = oid, node_cont = cont\<rparr>)\<rparr>
                    in case hm_put H (c_map c2) oid n of
                         None \<Rightarrow> Some (1, put_cache ty c2 cs)
                       | Some m \<Rightarrow>
                           let c3 = c2\<lparr>c_map := m, c_queue := c_queue c2 @ [n]\<rparr>;
                               cs3 = put_cache ty c3 cs
                           in case (if c_max c3 < c_size c3
                                    then remove_oldest H ty (nat (c_size c3 - c_max c3)) cs3
                                    else Some cs3) of
                                None \<Rightarrow> None
                              | Some cs4 \<Rightarrow> Some (0, cs4))"

text \<open>One loop of \<open>discord_cache_destroy\<close>: the queue is emptied from its head.\<close>

fun destroy_queue :: "cache_type \<Rightarrow> addr list \<Rightarrow> 'm caches \<Rightarrow> 'm caches option" where
  "destroy_queue ty [] cs = Some cs"
| "destroy_queue ty (first # q) cs =
     (case destroy_item ty first (put_cache ty ((get_cache ty cs)\<lparr>c_queue := q\<rparr>) cs) of
        None \<Rightarrow> None
      | Some cs' \<Rightarrow> destroy_queue ty q cs')"

definition discord_cache_destroy :: "'m caches \<Rightarrow> 'm caches option" where
  "discord_cache_destroy cs =
     (case destroy_queue DISCO_MESSAGE_CACHE (c_queue (messages cs)) cs of None \<Rightarrow> None
      | Some cs1 \<Rightarrow>
          case destroy_queue DISCO_CHANNEL_CACHE (c_queue (channels cs1)) cs1 of None \<Rightarrow> None
          | Some cs2 \<Rightarrow> destroy_queue DISCO_GUILD_CACHE (c_queue (guilds cs2)) cs2)"

lemma get_put_cache [simp]: "get_cache ty (put_cache ty c cs) = c"
  by (cases ty) (simp_all add: get_cache_def put_cache_def)

lemma get_put_cache_other [simp]: "ty' \<noteq> ty \<Longrightarrow> get_cache ty' (put_cache ty c cs) = get_cache ty' cs"
  by (cases ty; cases ty') (simp_all add: get_cache_def put_cache_def)

lemma put_put_cache [simp]: "put_cache ty c (put_cache ty c' cs) = put_cache ty c cs"
  by (cases ty) (simp_all add: put_cache_def)

lemma put_cache_fields [simp]:
  "destroy_item_callback (put_cache ty c cs) = destroy_item_callback cs"
  "destroyed (put_cache ty c cs) = destroyed cs"
  "put_cache ty c (cs\<lparr>destroyed := l\<rparr>) = (put_cache ty c cs)\<lparr>destroyed := l\<rparr>"
  "get_cache ty (cs\<lparr>destroyed := l\<rparr>) = get_cache ty cs"
  by (cases ty; simp add: put_cache_def get_cache_def)+

section \<open>The entries of a cache\<close>

text \<open>An entry is an ID, the structure and its node.\<close>

type_synonym entry = "u64 \<times> addr \<times> addr"

abbreviation e_id :: "entry \<Rightarrow> u64" where "e_id x \<equiv> fst x"
abbreviation e_cont :: "entry \<Rightarrow> addr" where "e_cont x \<equiv> fst (snd x)"
abbreviation e_node :: "entry \<Rightarrow> addr" where "e_node x \<equiv> snd (snd x)"

definition entry_ok :: "'m buffer \<Rightarrow> entry \<Rightarrow> bool" where
  "entry_ok c x \<longleftrightarrow>
     e_node x \<noteq> NULL \<and> c_nodes c (e_node x) = Some \<lparr>alloc_id = e_id x, node_cont = e_cont x\<rparr> \<and>
     c_objs c (e_cont x) = Some (e_id x)"

definition map_ok :: "'m hashmap_api \<Rightarrow> 'm buffer \<Rightarrow> entry list \<Rightarrow> bool" where
  "map_ok H c xs \<longleftrightarrow>
     (\<forall>x \<in> set xs. hm_get H (c_map c) (e_id x) = e_node x) \<and>
     (\<forall>i. i \<notin> e_id ` set xs \<longrightarrow> hm_get H (c_map c) i = NULL)"

definition cache_rep :: "'m hashmap_api \<Rightarrow> 'm buffer \<Rightarrow> entry list \<Rightarrow> bool" where
  "cache_rep H c xs \<longleftrightarrow>
     hashmap_laws H \<and> c_queue c = map e_node xs \<and> distinct (map e_id xs) \<and>
     distinct (map e_cont xs) \<and> distinct (map e_node xs) \<and> (\<forall>x \<in> set xs. entry_ok c x) \<and>
     map_ok H c xs \<and> c_size c = int (length xs)"

text \<open>What the operations do to the entries: a looked-up entry becomes the newest.\<close>

definition touch :: "u64 \<Rightarrow> entry list \<Rightarrow> entry list" where
  "touch i xs = filter (\<lambda>x. e_id x \<noteq> i) xs @ filter (\<lambda>x. e_id x = i) xs"

definition drop_id :: "u64 \<Rightarrow> entry list \<Rightarrow> entry list" where
  "drop_id i xs = filter (\<lambda>x. e_id x \<noteq> i) xs"

definition find_cont :: "u64 \<Rightarrow> entry list \<Rightarrow> addr" where
  "find_cont i xs = (case List.find (\<lambda>x. e_id x = i) xs of None \<Rightarrow> NULL | Some x \<Rightarrow> e_cont x)"

text \<open>The callback may do what it likes with the structure it is given, but with no other.\<close>

definition callback_ok :: "destroy_fn \<Rightarrow> bool" where
  "callback_ok f \<longleftrightarrow>
     (\<forall>ty d objs i. objs d = Some i \<longrightarrow>
        (\<exists>objs'. f ty d objs = Some objs' \<and> (\<forall>d'. d' \<noteq> d \<longrightarrow> objs' d' = objs d')))"

lemma default_callback_ok: "callback_ok default_destroy_callback"
  by (auto simp: callback_ok_def default_destroy_callback_def split: cache_type.splits)


definition only_changes :: "cache_type \<Rightarrow> 'm caches \<Rightarrow> 'm caches \<Rightarrow> bool" where
  "only_changes ty cs cs' \<longleftrightarrow>
     (\<forall>ty'. ty' \<noteq> ty \<longrightarrow> get_cache ty' cs' = get_cache ty' cs) \<and>
     destroy_item_callback cs' = destroy_item_callback cs \<and>
     c_max (get_cache ty cs') = c_max (get_cache ty cs)"

lemma only_changes_refl [simp]: "only_changes ty cs cs"
  by (simp add: only_changes_def)

lemma only_changes_trans [trans]:
  "only_changes ty a b \<Longrightarrow> only_changes ty b c \<Longrightarrow> only_changes ty a c"
  by (simp add: only_changes_def)

section \<open>Each operation on the entries\<close>

lemma mset_touch: "mset (touch i xs) = mset xs"
  by (simp add: touch_def)

lemma set_touch [simp]: "set (touch i xs) = set xs"
  by (metis mset_touch mset_eq_setD)

lemma filter_id_eq:
  "distinct (map e_id xs) \<Longrightarrow> x \<in> set xs \<Longrightarrow> filter (\<lambda>y. e_id y = e_id x) xs = [x]"
proof (induction xs)
  case (Cons y xs)
  show ?case
  proof (cases "y = x")
    case True
    with Cons.prems have "e_id x \<notin> e_id ` set xs" by simp
    then have "filter (\<lambda>y. e_id y = e_id x) xs = []" by (auto simp: filter_empty_conv image_iff)
    with True show ?thesis by simp
  next
    case False
    with Cons.prems have "x \<in> set xs" "e_id y \<noteq> e_id x" by (auto simp: image_iff)
    with Cons show ?thesis by simp
  qed
qed simp

lemma remove1_node:
  "distinct (map e_id xs) \<Longrightarrow> distinct (map e_node xs) \<Longrightarrow> x \<in> set xs \<Longrightarrow>
   remove1 (e_node x) (map e_node xs) = map e_node (drop_id (e_id x) xs)"
proof (induction xs)
  case (Cons y xs)
  show ?case
  proof (cases "y = x")
    case True
    with Cons.prems have "e_id x \<notin> e_id ` set xs" by simp
    then have "filter (\<lambda>y. e_id y \<noteq> e_id x) xs = xs" by (auto simp: filter_id_conv image_iff)
    with True show ?thesis by (simp add: drop_id_def)
  next
    case False
    with Cons.prems have x: "x \<in> set xs" by simp
    have "e_id y \<noteq> e_id x" 
      using imageI [OF x, of fst] Cons.prems(1) unfolding list.map distinct.simps set_map by metis
    moreover have "e_node y \<noteq> e_node x"
      using imageI [OF x, of "\<lambda>z. snd (snd z)"] Cons.prems(2)
      unfolding list.map distinct.simps set_map by metis
    ultimately show ?thesis using Cons x by (simp add: drop_id_def)
  qed
qed simp

lemma find_cont_in:
  "distinct (map e_id xs) \<Longrightarrow> x \<in> set xs \<Longrightarrow> find_cont (e_id x) xs = e_cont x"
proof (induction xs)
  case (Cons y xs)
  show ?case
  proof (cases "y = x")
    case False
    with Cons.prems have "x \<in> set xs" "e_id y \<noteq> e_id x" by (auto simp: image_iff)
    with Cons show ?thesis by (simp add: find_cont_def)
  qed (simp add: find_cont_def)
qed simp

lemma find_cont_out: "i \<notin> e_id ` set xs \<Longrightarrow> find_cont i xs = NULL"
  by (induction xs) (auto simp: find_cont_def)

lemma touch_absent: "i \<notin> e_id ` set xs \<Longrightarrow> touch i xs = xs"
  by (induction xs) (auto simp: touch_def)

lemma drop_id_absent: "i \<notin> e_id ` set xs \<Longrightarrow> drop_id i xs = xs"
  by (auto simp: drop_id_def filter_id_conv)

lemma set_drop_id: "set (drop_id i xs) = {x \<in> set xs. e_id x \<noteq> i}"
  by (auto simp: drop_id_def)

lemma ids_drop_id: "e_id ` set (drop_id i xs) = e_id ` set xs - {i}"
  by (induction xs) (auto simp: drop_id_def)

lemma map_ok_remove:
  assumes "hashmap_laws H" and "map_ok H c xs"
  shows "map_ok H (c\<lparr>c_queue := q, c_map := hm_remove H (c_map c) i, c_objs := objs,
    c_nodes := nodes, c_size := n\<rparr>) (drop_id i xs)"
  using assms unfolding map_ok_def hashmap_laws_def ids_drop_id by (simp add: set_drop_id)

lemma length_drop_id:
  "distinct (map e_id xs) \<Longrightarrow> x \<in> set xs \<Longrightarrow> length xs = Suc (length (drop_id (e_id x) xs))"
  using sum_length_filter_compl [of "\<lambda>y. e_id y = e_id x" xs]
  by (simp add: filter_id_eq drop_id_def)

lemma distinct_drop_id: "distinct (map f xs) \<Longrightarrow> distinct (map f (drop_id i xs))"
  by (simp add: drop_id_def distinct_map_filter)

lemma cache_repD:
  assumes "cache_rep H c xs" and "x \<in> set xs"
  shows "hm_get H (c_map c) (e_id x) = e_node x" "e_node x \<noteq> NULL" "e_node x \<in> set (c_queue c)"
    "c_nodes c (e_node x) = Some \<lparr>alloc_id = e_id x, node_cont = e_cont x\<rparr>"
    "c_objs c (e_cont x) = Some (e_id x)"
    "remove1 (e_node x) (c_queue c) = map e_node (drop_id (e_id x) xs)"
  using assms by (auto simp: cache_rep_def map_ok_def entry_ok_def remove1_node)

lemma cache_rep_absent:
  "cache_rep H c xs \<Longrightarrow> i \<notin> e_id ` set xs \<Longrightarrow> hm_get H (c_map c) i = NULL"
  by (simp add: cache_rep_def map_ok_def)

lemma cache_rep_reorder:
  assumes "cache_rep H c xs" and "mset ys = mset xs"
  shows "cache_rep H (c\<lparr>c_queue := map e_node ys\<rparr>) ys"
proof -
  have "set ys = set xs" "length ys = length xs"
    using assms(2) mset_eq_setD mset_eq_length by blast+
  moreover have "distinct (map f ys) = distinct (map f xs)" for f :: "entry \<Rightarrow> u64"
    using assms(2) by (metis mset_eq_imp_distinct_iff mset_map)
  ultimately show ?thesis
    using assms(1) by (simp add: cache_rep_def map_ok_def entry_ok_def)
qed

lemma move_to_tail_ok:
  assumes rep: "cache_rep H c xs" and x: "x \<in> set xs"
  shows "\<exists>c'. move_to_tail (e_node x) c = Some c' \<and> cache_rep H c' (touch (e_id x) xs) \<and>
    c_nodes c' = c_nodes c \<and> c_objs c' = c_objs c \<and> c_max c' = c_max c \<and> c_map c' = c_map c \<and>
    c_size c' = c_size c"
proof -
  have "distinct (map e_id xs)" using rep by (simp add: cache_rep_def)
  then have "map e_node (touch (e_id x) xs) = map e_node (drop_id (e_id x) xs) @ [e_node x]"
    using x by (simp add: touch_def drop_id_def filter_id_eq)
  then show ?thesis
    using cache_repD [OF rep x] cache_rep_reorder [OF rep mset_touch [of "e_id x" xs]]
    by (simp add: move_to_tail_def tailq_remove_def)
qed

lemma cache_get_ok:
  assumes rep: "cache_rep H (get_cache ty cs) xs"
  shows "\<exists>cs'. discord_cache_get H ty i cs = Some (find_cont i xs, cs') \<and>
     cache_rep H (get_cache ty cs') (touch i xs) \<and> only_changes ty cs cs' \<and>
     destroyed cs' = destroyed cs"
proof (cases "i \<in> e_id ` set xs")
  case True
  then obtain x where x: "x \<in> set xs" "i = e_id x" by auto
  obtain c' where c': "move_to_tail (e_node x) (get_cache ty cs) = Some c'"
      "cache_rep H c' (touch (e_id x) xs)" "c_max c' = c_max (get_cache ty cs)"
    using move_to_tail_ok [OF rep x(1)] by blast
  have "find_cont i xs = e_cont x"
    using find_cont_in x rep by (simp add: cache_rep_def)
  then show ?thesis
    using c' cache_repD [OF rep x(1)] x
    by (simp add: discord_cache_get_def Let_def only_changes_def)
next
  case False
  with rep show ?thesis
    by (simp add: discord_cache_get_def cache_rep_absent find_cont_out touch_absent)
qed

lemma cache_delete_ok:
  assumes rep: "cache_rep H (get_cache ty cs) xs" and cb: "callback_ok (destroy_item_callback cs)"
    and x: "x \<in> set xs"
  shows "\<exists>cs'. discord_cache_delete H ty (e_id x) cs = Some cs' \<and>
     cache_rep H (get_cache ty cs') (drop_id (e_id x) xs) \<and> only_changes ty cs cs' \<and>
     destroyed cs' = destroyed cs @ [(ty, e_cont x)]"
proof -
  let ?c = "get_cache ty cs"
  note d = cache_repD [OF rep x]
  obtain objs where objs: "destroy_item_callback cs ty (e_cont x) (c_objs ?c) = Some objs"
      "\<And>d'. d' \<noteq> e_cont x \<Longrightarrow> objs d' = c_objs ?c d'"
    using cb d(5) unfolding callback_ok_def by blast
  let ?c' = "?c\<lparr>c_queue := map e_node (drop_id (e_id x) xs),
      c_map := hm_remove H (c_map ?c) (e_id x), c_objs := objs,
      c_nodes := (c_nodes ?c)(e_node x := None), c_size := c_size ?c - 1\<rparr>"
  have del: "discord_cache_delete H ty (e_id x) cs =
      Some ((put_cache ty ?c' cs)\<lparr>destroyed := destroyed cs @ [(ty, e_cont x)]\<rparr>)"
    using d objs by (simp add: discord_cache_delete_def tailq_remove_def destroy_item_def Let_def)
  have dist: "distinct (map e_id xs)" "distinct (map e_cont xs)" "distinct (map e_node xs)"
    and laws: "hashmap_laws H" using rep by (simp_all add: cache_rep_def)
  have rest: "e_cont y \<noteq> e_cont x \<and> e_node y \<noteq> e_node x" if "y \<in> set xs" "e_id y \<noteq> e_id x" for y
    using that x dist(2,3) by (auto simp: distinct_map inj_on_def)
  have "cache_rep H ?c' (drop_id (e_id x) xs)"
    unfolding cache_rep_def
  proof (intro conjI ballI)
    show "entry_ok ?c' y" if "y \<in> set (drop_id (e_id x) xs)" for y
      using that rest objs(2) rep by (auto simp: set_drop_id cache_rep_def entry_ok_def)
    show "map_ok H ?c' (drop_id (e_id x) xs)"
      using rep laws by (intro map_ok_remove) (simp_all add: cache_rep_def)
    show "c_size ?c' = int (length (drop_id (e_id x) xs))"
      using rep length_drop_id [OF dist(1) x] by (simp add: cache_rep_def)
  qed (use dist laws in \<open>simp_all add: distinct_drop_id\<close>)
  with del show ?thesis by (simp add: only_changes_def)
qed

lemma cache_delete_absent:
  "cache_rep H (get_cache ty cs) xs \<Longrightarrow> i \<notin> e_id ` set xs \<Longrightarrow>
   discord_cache_delete H ty i cs = Some cs"
  by (simp add: discord_cache_delete_def cache_rep_absent)

lemma drop_id_hd: "distinct (map e_id (x # xs)) \<Longrightarrow> drop_id (e_id x) (x # xs) = xs"
  using drop_id_absent [of "e_id x" xs] by (simp add: drop_id_def)

lemma remove_oldest_ok:
  "cache_rep H (get_cache ty cs) xs \<Longrightarrow> callback_ok (destroy_item_callback cs) \<Longrightarrow> k \<le> length xs \<Longrightarrow>
   \<exists>cs'. remove_oldest H ty k cs = Some cs' \<and> cache_rep H (get_cache ty cs') (drop k xs) \<and>
     only_changes ty cs cs' \<and>
     destroyed cs' = destroyed cs @ map (\<lambda>x. (ty, e_cont x)) (take k xs)"
proof (induction k arbitrary: cs xs)
  case (Suc k)
  then obtain x xs' where xs: "xs = x # xs'" by (cases xs) auto
  have x: "x \<in> set xs" by (simp add: xs)
  have q: "c_queue (get_cache ty cs) = e_node x # map e_node xs'"
    using Suc.prems(1) by (simp add: cache_rep_def xs)
  have dr: "drop_id (e_id x) xs = xs'"
    using Suc.prems(1) drop_id_hd unfolding cache_rep_def xs by blast
  obtain cs1 where cs1: "discord_cache_delete H ty (e_id x) cs = Some cs1"
      "cache_rep H (get_cache ty cs1) xs'" "only_changes ty cs cs1"
      "destroyed cs1 = destroyed cs @ [(ty, e_cont x)]"
    using cache_delete_ok [OF Suc.prems(1,2) x] dr by auto
  have "callback_ok (destroy_item_callback cs1)" "k \<le> length xs'"
    using cs1(3) Suc.prems(2,3) by (simp_all add: only_changes_def xs)
  from Suc.IH [OF cs1(2) this] obtain cs2 where cs2: "remove_oldest H ty k cs1 = Some cs2"
      "cache_rep H (get_cache ty cs2) (drop k xs')" "only_changes ty cs1 cs2"
      "destroyed cs2 = destroyed cs1 @ map (\<lambda>x. (ty, e_cont x)) (take k xs')"
    by blast
  moreover have "remove_oldest H ty (Suc k) cs = Some cs2"
    using q cache_repD(4,5) [OF Suc.prems(1) x] cs1(1) cs2(1) by simp
  ultimately show ?case
    using cs1(3,4) by (auto simp: xs intro: only_changes_trans)
qed simp


text \<open>The state after the insertion, before the clean-up.\<close>

definition inserted :: "addr \<Rightarrow> u64 \<Rightarrow> addr \<Rightarrow> 'm \<Rightarrow> 'm buffer \<Rightarrow> 'm buffer" where
  "inserted n i d m c = c\<lparr>c_size := c_size c + 1, c_nodes := (c_nodes c)(n \<mapsto> \<lparr>alloc_id = i, node_cont = d\<rparr>),
     c_map := m, c_queue := c_queue c @ [n]\<rparr>"

lemma inserted_rep:
  assumes rep: "cache_rep H c xs" and i: "i \<notin> e_id ` set xs" and d: "c_objs c d = Some i"
    and n: "n \<noteq> NULL" "c_nodes c n = None" and put: "hm_put H (c_map c) i n = Some m"
  shows "cache_rep H (inserted n i d m c) (xs @ [(i, d, n)])"
proof -
  have laws: "hashmap_laws H" and ok: "\<And>x. x \<in> set xs \<Longrightarrow> entry_ok c x"
    using rep by (simp_all add: cache_rep_def)
  have get: "\<And>k. hm_get H m k = (if k = i then n else hm_get H (c_map c) k)"
    using laws put unfolding hashmap_laws_def by blast
  have nd: "e_node x \<noteq> n" and dd: "e_cont x \<noteq> d" and id: "e_id x \<noteq> i" if "x \<in> set xs" for x
    using ok [OF that] n d that i by (auto simp: entry_ok_def)
  have "entry_ok (inserted n i d m c) x" if "x \<in> set xs" for x
    using ok [OF that] nd [OF that] by (simp add: entry_ok_def inserted_def)
  moreover have "map_ok H (inserted n i d m c) (xs @ [(i, d, n)])"
    using rep id by (auto simp: map_ok_def inserted_def get cache_rep_def)
  moreover have "n \<notin> e_node ` set xs" "d \<notin> e_cont ` set xs"
    using nd dd by blast+
  ultimately show ?thesis
    using rep i n d by (simp add: cache_rep_def) (simp add: inserted_def entry_ok_def)
qed

lemma cache_set_fresh:
  assumes rep: "cache_rep H (get_cache ty cs) xs" and cb: "callback_ok (destroy_item_callback cs)"
    and d: "c_objs (get_cache ty cs) d = Some i" and i: "i \<notin> e_id ` set xs"
    and n: "n \<noteq> NULL" "c_nodes (get_cache ty cs) n = None"
    and put: "hm_put H (c_map (get_cache ty cs)) i n = Some m"
    and max: "0 \<le> c_max (get_cache ty cs)"
  defines "k \<equiv> Suc (length xs) - nat (c_max (get_cache ty cs))"
  shows "\<exists>cs'. discord_cache_set H ty d n cs = Some (0, cs') \<and>
     cache_rep H (get_cache ty cs') (drop k (xs @ [(i, d, n)])) \<and> only_changes ty cs cs' \<and>
     destroyed cs' = destroyed cs @ map (\<lambda>x. (ty, e_cont x)) (take k (xs @ [(i, d, n)]))"
proof -
  let ?c = "get_cache ty cs"
  let ?c3 = "inserted n i d m ?c"
  let ?cs3 = "put_cache ty ?c3 cs"
  have rep3: "cache_rep H (get_cache ty ?cs3) (xs @ [(i, d, n)])"
    using inserted_rep [OF rep i d n put] by simp
  have cb3: "callback_ok (destroy_item_callback ?cs3)" using cb by simp
  have old: "hm_get H (c_map ?c) i = NULL" using rep i by (rule cache_rep_absent)
  have sz: "c_size ?c3 = int (Suc (length xs))" and mx: "c_max ?c3 = c_max ?c"
    using rep by (simp_all add: inserted_def cache_rep_def)
  have kz: "k = (if c_max ?c3 < c_size ?c3 then nat (c_size ?c3 - c_max ?c3) else 0)"
    using max by (auto simp: k_def sz mx)
  have kle: "k \<le> length (xs @ [(i, d, n)])" by (simp add: k_def)
  from remove_oldest_ok [OF rep3 cb3 kle] obtain cs' where cs': "remove_oldest H ty k ?cs3 = Some cs'"
      "cache_rep H (get_cache ty cs') (drop k (xs @ [(i, d, n)]))" "only_changes ty ?cs3 cs'"
      "destroyed cs' = destroyed cs @ map (\<lambda>x. (ty, e_cont x)) (take k (xs @ [(i, d, n)]))"
    by auto
  have "discord_cache_set H ty d n cs =
      (case (if c_max ?c3 < c_size ?c3 then remove_oldest H ty (nat (c_size ?c3 - c_max ?c3)) ?cs3
             else Some ?cs3) of None \<Rightarrow> None | Some cs4 \<Rightarrow> Some (0, cs4))"
    using d old put by (simp add: discord_cache_set_def Let_def inserted_def)
  also have "\<dots> = Some (0, cs')" using cs'(1) unfolding kz by (simp split: if_splits)
  finally have "discord_cache_set H ty d n cs = Some (0, cs')" .
  moreover have "only_changes ty cs ?cs3" by (simp add: only_changes_def mx)
  ultimately show ?thesis using cs' by (blast intro: only_changes_trans)
qed

lemma cache_set_put_fails:
  assumes rep: "cache_rep H (get_cache ty cs) xs" and i: "i \<notin> e_id ` set xs"
    and d: "c_objs (get_cache ty cs) d = Some i"
    and put: "hm_put H (c_map (get_cache ty cs)) i n = None"
  shows "discord_cache_set H ty d n cs =
    Some (1, put_cache ty ((get_cache ty cs)\<lparr>c_size := int (length xs) + 1, c_nodes :=
      (c_nodes (get_cache ty cs))(n \<mapsto> \<lparr>alloc_id = i, node_cont = d\<rparr>)\<rparr>) cs)"
  using assms cache_rep_absent [OF rep i] by (simp add: discord_cache_set_def Let_def cache_rep_def)

text \<open>Emptying a queue frees its nodes and destroys its data, in order.\<close>

lemma destroy_queue_nodes:
  "(\<forall>x \<in> set xs. entry_ok (get_cache ty cs) x) \<Longrightarrow> distinct (map e_cont xs) \<Longrightarrow>
   distinct (map e_node xs) \<Longrightarrow> callback_ok (destroy_item_callback cs) \<Longrightarrow>
   c_queue (get_cache ty cs) = map e_node xs \<Longrightarrow>
   \<exists>cs'. destroy_queue ty (map e_node xs) cs = Some cs' \<and> only_changes ty cs cs' \<and>
     c_queue (get_cache ty cs') = [] \<and>
     c_size (get_cache ty cs') = c_size (get_cache ty cs) - int (length xs) \<and>
     (\<forall>a. c_nodes (get_cache ty cs') a =
        (if a \<in> e_node ` set xs then None else c_nodes (get_cache ty cs) a)) \<and>
     destroyed cs' = destroyed cs @ map (\<lambda>x. (ty, e_cont x)) xs"
proof (induction xs arbitrary: cs)
  case (Cons x xs)
  let ?c = "get_cache ty cs"
  from Cons.prems(1) have x: "c_nodes ?c (e_node x) = Some \<lparr>alloc_id = e_id x, node_cont = e_cont x\<rparr>"
      "c_objs ?c (e_cont x) = Some (e_id x)" by (simp_all add: entry_ok_def)
  obtain objs where objs: "destroy_item_callback cs ty (e_cont x) (c_objs ?c) = Some objs"
      "\<And>d'. d' \<noteq> e_cont x \<Longrightarrow> objs d' = c_objs ?c d'"
    using Cons.prems(4) x(2) unfolding callback_ok_def by blast
  define c1 where "c1 = ?c\<lparr>c_queue := map e_node xs, c_objs := objs,
    c_nodes := (c_nodes ?c)(e_node x := None), c_size := c_size ?c - 1\<rparr>"
  define cs1 where "cs1 = (put_cache ty c1 cs)\<lparr>destroyed := destroyed cs @ [(ty, e_cont x)]\<rparr>"
  have c1: "get_cache ty cs1 = c1" by (simp add: cs1_def)
  have step: "destroy_queue ty (map e_node (x # xs)) cs = destroy_queue ty (map e_node xs) cs1"
    using x objs by (simp add: destroy_item_def Let_def cs1_def c1_def)
  have "entry_ok c1 y" if y: "y \<in> set xs" for y
  proof -
    have "entry_ok ?c y" using Cons.prems(1) y by simp
    moreover have "e_node y \<noteq> e_node x" "e_cont y \<noteq> e_cont x"
      using imageI [OF y, of "\<lambda>z. snd (snd z)"] imageI [OF y, of "\<lambda>z. fst (snd z)"] Cons.prems(2,3)
      unfolding list.map distinct.simps set_map by metis+
    ultimately show ?thesis using objs(2) by (simp add: entry_ok_def c1_def)
  qed
  then obtain cs' where cs': "destroy_queue ty (map e_node xs) cs1 = Some cs'" "only_changes ty cs1 cs'"
     "c_queue (get_cache ty cs') = []" "c_size (get_cache ty cs') = c_size c1 - int (length xs)"
     "\<forall>a. c_nodes (get_cache ty cs') a = (if a \<in> e_node ` set xs then None else c_nodes c1 a)"
     "destroyed cs' = destroyed cs1 @ map (\<lambda>x. (ty, e_cont x)) xs"
    using Cons.IH [of cs1] Cons.prems(2-4) by (auto simp: c1) (auto simp: cs1_def c1_def)
  have "only_changes ty cs cs1" by (simp add: only_changes_def cs1_def c1_def)
  with cs'(2) have oc: "only_changes ty cs cs'" by (rule only_changes_trans [rotated])
  have "\<forall>a. c_nodes (get_cache ty cs') a =
      (if a \<in> e_node ` set (x # xs) then None else c_nodes ?c a)"
    using cs'(5) by (simp add: c1_def)
  then show ?case
    using step cs' oc by (simp add: c1_def cs1_def)
qed simp

lemma destroy_queue_ok:
  assumes "cache_rep H (get_cache ty cs) xs" and "callback_ok (destroy_item_callback cs)"
  shows "\<exists>cs'. destroy_queue ty (c_queue (get_cache ty cs)) cs = Some cs' \<and>
     c_queue (get_cache ty cs') = [] \<and> c_size (get_cache ty cs') = 0 \<and> only_changes ty cs cs' \<and>
     (\<forall>x \<in> set xs. c_nodes (get_cache ty cs') (e_node x) = None) \<and>
     destroyed cs' = destroyed cs @ map (\<lambda>x. (ty, e_cont x)) xs"
  using destroy_queue_nodes [of xs ty cs] assms unfolding cache_rep_def
  by (elim conjE exE) (auto simp: image_iff)

section \<open>The interface of a cache\<close>

text \<open>
  What the event handlers rely on: a structure that was set is found until newer entries push it
  out, looking up protects an entry, and no more than the capacity is kept. The state keeps a list
  of entries, oldest first; \<open>holds s d i\<close> says that \<open>d\<close> is a structure with ID \<open>i\<close>, and
  \<open>fresh s n\<close> that \<open>malloc\<close> may return \<open>n\<close>.
\<close>

locale lru_cache =
  fixes get :: "'s \<Rightarrow> u64 \<Rightarrow> (addr \<times> 's) option"
    and set_new :: "'s \<Rightarrow> addr \<Rightarrow> addr \<Rightarrow> (int \<times> 's) option"
    and delete :: "'s \<Rightarrow> u64 \<Rightarrow> 's option"
    and rep :: "'s \<Rightarrow> entry list \<Rightarrow> bool"
    and cap :: "'s \<Rightarrow> nat"
    and holds :: "'s \<Rightarrow> addr \<Rightarrow> u64 \<Rightarrow> bool"
    and fresh :: "'s \<Rightarrow> addr \<Rightarrow> bool"
  assumes rep_distinct: "rep s xs \<Longrightarrow> distinct (map e_id xs)"
    and get_ok: "rep s xs \<Longrightarrow>
      \<exists>s'. get s i = Some (find_cont i xs, s') \<and> rep s' (touch i xs) \<and> cap s' = cap s"
    and set_returns: "rep s xs \<Longrightarrow> holds s d i \<Longrightarrow> i \<notin> e_id ` set xs \<Longrightarrow> fresh s n \<Longrightarrow>
      \<exists>rc s'. set_new s d n = Some (rc, s') \<and> (rc = 0 \<or> rc = 1)"
    and set_ok: "rep s xs \<Longrightarrow> holds s d i \<Longrightarrow> i \<notin> e_id ` set xs \<Longrightarrow> fresh s n \<Longrightarrow>
      set_new s d n = Some (0, s') \<Longrightarrow>
      rep s' (drop (Suc (length xs) - cap s) (xs @ [(i, d, n)])) \<and> cap s' = cap s"
    and delete_ok: "rep s xs \<Longrightarrow>
      \<exists>s'. delete s i = Some s' \<and> rep s' (drop_id i xs) \<and> cap s' = cap s"
begin

lemma get_after_set:
  assumes "rep s xs" and "holds s d i" and "i \<notin> e_id ` set xs" and "fresh s n"
    and "set_new s d n = Some (0, s')" and "0 < cap s"
  shows "\<exists>s''. get s' i = Some (d, s'')"
proof -
  let ?k = "Suc (length xs) - cap s"
  have r: "rep s' (drop ?k xs @ [(i, d, n)])"
    using set_ok [OF assms(1-5)] assms(6) by simp
  then have "find_cont i (drop ?k xs @ [(i, d, n)]) = d"
    using find_cont_in [OF rep_distinct [OF r], of "(i, d, n)"] by simp
  with get_ok [OF r, of i] show ?thesis by auto
qed

text \<open>An entry that was just looked up survives \<open>cap - 1\<close> insertions; here the first one.\<close>

lemma touched_survives_set:
  assumes "rep s xs" and "x \<in> set xs" and "length xs \<le> cap s" and "2 \<le> cap s"
    and "get s (e_id x) = Some (v, s1)" and "holds s1 d i" and "i \<notin> e_id ` set xs" and "fresh s1 n"
    and "set_new s1 d n = Some (0, s2)"
  shows "v = e_cont x \<and> (\<exists>s3. get s2 (e_id x) = Some (e_cont x, s3))"
proof -
  have dist: "distinct (map e_id xs)" using assms(1) by (rule rep_distinct)
  have s1: "v = e_cont x" "rep s1 (touch (e_id x) xs)" "cap s1 = cap s"
    using get_ok [OF assms(1), of "e_id x"] assms(5) find_cont_in [OF dist assms(2)] by auto
  have t: "touch (e_id x) xs = drop_id (e_id x) xs @ [x]"
    using filter_id_eq [OF dist assms(2)] by (simp add: touch_def drop_id_def)
  have len: "length xs = Suc (length (drop_id (e_id x) xs))"
    using length_drop_id [OF dist assms(2)] .
  have out: "i \<notin> e_id ` set (touch (e_id x) xs)" using assms(7) by simp
  from set_ok [OF s1(2) assms(6) out assms(8,9)] have r:
      "rep s2 (drop (Suc (length xs) - cap s) (drop_id (e_id x) xs) @ [x, (i, d, n)])"
    using len assms(3,4) by (simp add: t s1(3))
  have "find_cont (e_id x) (drop (Suc (length xs) - cap s) (drop_id (e_id x) xs) @ [x, (i, d, n)]) =
      e_cont x"
    using find_cont_in [OF rep_distinct [OF r], of x] by simp
  with get_ok [OF r, of "e_id x"] s1(1) show ?thesis by auto
qed

lemma set_keeps_bound:
  assumes "rep s xs" and "holds s d i" and "i \<notin> e_id ` set xs" and "fresh s n"
    and "set_new s d n = Some (0, s')"
  shows "\<exists>ys. rep s' ys \<and> length ys \<le> cap s' \<and> mset ys \<subseteq># add_mset (i, d, n) (mset xs)"
proof -
  let ?ys = "drop (Suc (length xs) - cap s) (xs @ [(i, d, n)])"
  have "mset (drop k zs) \<subseteq># mset zs" for k and zs :: "entry list"
    by (metis append_take_drop_id mset_append mset_subset_eq_add_right)
  then have "mset ?ys \<subseteq># mset (xs @ [(i, d, n)])" .
  moreover have "length ?ys \<le> cap s" by simp
  ultimately show ?thesis
    using set_ok [OF assms] by (intro exI [of _ ?ys]) (simp del: drop_append)
qed

lemma get_after_delete:
  assumes "rep s xs" and "delete s i = Some s'"
  shows "\<exists>s''. get s' i = Some (NULL, s'')"
proof -
  have r: "rep s' (drop_id i xs)" using delete_ok [OF assms(1), of i] assms(2) by auto
  have "find_cont i (drop_id i xs) = NULL"
    by (rule find_cont_out) (simp add: ids_drop_id)
  with get_ok [OF r, of i] show ?thesis by auto
qed

end

definition caches_rep :: "'m hashmap_api \<Rightarrow> cache_type \<Rightarrow> 'm caches \<Rightarrow> entry list \<Rightarrow> bool" where
  "caches_rep H ty cs xs \<longleftrightarrow>
     cache_rep H (get_cache ty cs) xs \<and> callback_ok (destroy_item_callback cs) \<and>
     0 \<le> c_max (get_cache ty cs)"

interpretation lc: lru_cache "\<lambda>cs i. discord_cache_get H ty i cs" "\<lambda>cs d n. discord_cache_set H ty d n cs"
    "\<lambda>cs i. discord_cache_delete H ty i cs" "caches_rep H ty" "\<lambda>cs. nat (c_max (get_cache ty cs))"
    "\<lambda>cs d i. c_objs (get_cache ty cs) d = Some i"
    "\<lambda>cs n. n \<noteq> NULL \<and> c_nodes (get_cache ty cs) n = None" for H ty
proof (unfold_locales, goal_cases)
  case (1 s xs)
  then show ?case by (simp add: caches_rep_def cache_rep_def)
next
  case (2 s xs i)
  then show ?case
    using cache_get_ok [of H ty s xs i] by (auto simp: caches_rep_def only_changes_def)
next
  case (3 s xs d i n)
  then show ?case
    using cache_set_fresh [of H ty s xs d i n] cache_set_put_fails [of H ty s xs i d n]
    by (cases "hm_put H (c_map (get_cache ty s)) i n") (auto simp: caches_rep_def)
next
  case (4 s xs d i n s')
  then show ?case
    using cache_set_fresh [of H ty s xs d i n] cache_set_put_fails [of H ty s xs i d n]
    by (cases "hm_put H (c_map (get_cache ty s)) i n") (auto simp: caches_rep_def only_changes_def)
next
  case (5 s xs i)
  show ?case
  proof (cases "i \<in> e_id ` set xs")
    case True
    then obtain x where x: "x \<in> set xs" "i = e_id x" by blast
    with 5 cache_delete_ok [of H ty s xs x] show ?thesis
      by (auto simp: caches_rep_def only_changes_def)
  next
    case False
    with 5 show ?thesis
      by (auto simp: caches_rep_def cache_delete_absent drop_id_absent)
  qed
qed


section \<open>What goes wrong when an ID is set again\<close>

text \<open>Setting an ID that is in the cache appends a second node and forgets the first one.\<close>

lemma cache_set_again:
  assumes rep: "cache_rep H (get_cache ty cs) xs" and x: "x \<in> set xs"
    and d: "c_objs (get_cache ty cs) d = Some (e_id x)"
    and put: "hm_put H (c_map (get_cache ty cs)) (e_id x) n = Some m"
    and room: "int (length xs) < c_max (get_cache ty cs)"
  shows "\<exists>cs'. discord_cache_set H ty d n cs = Some (0, cs') \<and>
     c_queue (get_cache ty cs') = map e_node (touch (e_id x) xs) @ [n] \<and>
     c_size (get_cache ty cs') = int (length xs) + 1 \<and> c_map (get_cache ty cs') = m \<and>
     c_nodes (get_cache ty cs') =
       (c_nodes (get_cache ty cs))(n \<mapsto> \<lparr>alloc_id = e_id x, node_cont = d\<rparr>) \<and>
     c_objs (get_cache ty cs') = c_objs (get_cache ty cs) \<and> destroyed cs' = destroyed cs \<and>
     only_changes ty cs cs'"
proof -
  let ?c = "get_cache ty cs"
  obtain c' where c': "move_to_tail (e_node x) ?c = Some c'" "cache_rep H c' (touch (e_id x) xs)"
      "c_nodes c' = c_nodes ?c" "c_objs c' = c_objs ?c" "c_max c' = c_max ?c" "c_map c' = c_map ?c"
      "c_size c' = c_size ?c"
    using move_to_tail_ok [OF rep x] by blast
  have sz: "c_size ?c = int (length xs)" using rep by (simp add: cache_rep_def)
  have q: "c_queue c' = map e_node (touch (e_id x) xs)" using c'(2) by (simp add: cache_rep_def)
  show ?thesis
    using c' cache_repD(1,2) [OF rep x] d put room
    by (simp add: discord_cache_set_def Let_def sz q only_changes_def)
qed

text \<open>The clean-up of one entry, when the oldest node is not the one its ID is mapped to.\<close>

definition stale_head :: "'m hashmap_api \<Rightarrow> 'm buffer \<Rightarrow> u64 \<Rightarrow> addr \<Rightarrow> bool" where
  "stale_head H c i first \<longleftrightarrow>
     c_queue c \<noteq> [] \<and> hd (c_queue c) = first \<and>
     (\<exists>nd. c_nodes c first = Some nd \<and> c_objs c (node_cont nd) = Some i) \<and>
     hm_get H (c_map c) i \<noteq> first"

lemma stale_headD:
  "stale_head H (get_cache ty cs) i first \<Longrightarrow>
   remove_oldest H ty (Suc k) cs =
     (case discord_cache_delete H ty i cs of None \<Rightarrow> None | Some cs' \<Rightarrow> remove_oldest H ty k cs')"
  by (cases "c_queue (get_cache ty cs)") (auto simp: stale_head_def)

text \<open>When the ID of the oldest node is not mapped at all, no clean-up removes anything.\<close>

lemma orphan_blocks:
  "stale_head H (get_cache ty cs) i first \<Longrightarrow> hm_get H (c_map (get_cache ty cs)) i = NULL \<Longrightarrow>
   remove_oldest H ty k cs = Some cs"
proof (induction k)
  case (Suc k)
  have "discord_cache_delete H ty i cs = Some cs"
    using Suc.prems(2) by (simp add: discord_cache_delete_def)
  then show ?case
    using Suc.IH Suc.prems by (simp only: stale_headD [OF Suc.prems(1)] option.case simp_thms)
qed simp

text \<open>A history of sets with the results ignored, as the event handlers ignore them.\<close>

fun set_many :: "'m hashmap_api \<Rightarrow> cache_type \<Rightarrow> (addr \<times> addr) list \<Rightarrow> 'm caches \<Rightarrow> 'm caches option" where
  "set_many H ty [] cs = Some cs"
| "set_many H ty ((d, n) # ds) cs =
     (case discord_cache_set H ty d n cs of None \<Rightarrow> None | Some (_, cs') \<Rightarrow> set_many H ty ds cs')"

lemma orphan_set:
  assumes st: "stale_head H (get_cache ty cs) i first" "hm_get H (c_map (get_cache ty cs)) i = NULL"
    and laws: "hashmap_laws H" and d: "c_objs (get_cache ty cs) d = Some j" and ne: "j \<noteq> i"
    and new: "hm_get H (c_map (get_cache ty cs)) j = NULL"
    and n: "c_nodes (get_cache ty cs) n = None" and put: "hm_put H (c_map (get_cache ty cs)) j n \<noteq> None"
  shows "\<exists>cs' m. discord_cache_set H ty d n cs = Some (0, cs') \<and>
     get_cache ty cs' = inserted n j d m (get_cache ty cs) \<and>
     hm_put H (c_map (get_cache ty cs)) j n = Some m \<and>
     stale_head H (get_cache ty cs') i first \<and> hm_get H (c_map (get_cache ty cs')) i = NULL \<and>
     destroyed cs' = destroyed cs"
proof -
  let ?c = "get_cache ty cs"
  obtain m where m: "hm_put H (c_map ?c) j n = Some m" using put by blast
  let ?c3 = "inserted n j d m ?c"
  let ?cs3 = "put_cache ty ?c3 cs"
  have get: "hm_get H m i = NULL" using laws m ne st(2) unfolding hashmap_laws_def by metis
  have "first \<noteq> n" using st(1) n by (auto simp: stale_head_def)
  then have st3: "stale_head H ?c3 i first"
    using st get by (auto simp: stale_head_def inserted_def hd_append)
  have get3: "hm_get H (c_map ?c3) i = NULL" using get by (simp add: inserted_def)
  have "\<And>k. remove_oldest H ty k ?cs3 = Some ?cs3"
    using orphan_blocks [of H ty ?cs3 i first] st3 get3 by simp
  then have "discord_cache_set H ty d n cs = Some (0, ?cs3)"
    using d new m by (simp add: discord_cache_set_def Let_def inserted_def)
  with st3 get3 m show ?thesis by (intro exI [of _ ?cs3] exI [of _ m]) simp
qed


lemma orphan_set_many:
  "stale_head H (get_cache ty cs) i first \<Longrightarrow> hm_get H (c_map (get_cache ty cs)) i = NULL \<Longrightarrow>
   hashmap_laws H \<Longrightarrow> \<forall>m k v. hm_put H m k v \<noteq> None \<Longrightarrow>
   map (c_objs (get_cache ty cs)) (map fst ds) = map Some js \<Longrightarrow> distinct js \<Longrightarrow> i \<notin> set js \<Longrightarrow>
   \<forall>j \<in> set js. hm_get H (c_map (get_cache ty cs)) j = NULL \<Longrightarrow>
   distinct (map snd ds) \<Longrightarrow> \<forall>n \<in> snd ` set ds. c_nodes (get_cache ty cs) n = None \<Longrightarrow>
   \<exists>cs'. set_many H ty ds cs = Some cs' \<and>
     c_size (get_cache ty cs') = c_size (get_cache ty cs) + int (length ds) \<and>
     length (c_queue (get_cache ty cs')) = length (c_queue (get_cache ty cs)) + length ds \<and>
     destroyed cs' = destroyed cs"
proof (induction ds arbitrary: cs js)
  case (Cons dn ds)
  obtain d n where dn: "dn = (d, n)" by (cases dn)
  obtain j js' where js: "js = j # js'" using Cons.prems(5) by (cases js) auto
  have "c_objs (get_cache ty cs) d = Some j" using Cons.prems(5) by (simp add: dn js)
  moreover have "j \<noteq> i" "hm_get H (c_map (get_cache ty cs)) j = NULL"
    "c_nodes (get_cache ty cs) n = None" "hm_put H (c_map (get_cache ty cs)) j n \<noteq> None"
    using Cons.prems(4,7,8,10) by (auto simp: js dn)
  ultimately obtain cs1 m where cs1: "discord_cache_set H ty d n cs = Some (0, cs1)"
      "get_cache ty cs1 = inserted n j d m (get_cache ty cs)"
      "hm_put H (c_map (get_cache ty cs)) j n = Some m"
      "stale_head H (get_cache ty cs1) i first" "hm_get H (c_map (get_cache ty cs1)) i = NULL"
      "destroyed cs1 = destroyed cs"
    using orphan_set [OF Cons.prems(1,2,3)] by blast
  have get: "\<And>k. hm_get H m k = (if k = j then n else hm_get H (c_map (get_cache ty cs)) k)"
    using Cons.prems(3) cs1(3) unfolding hashmap_laws_def by blast
  have "\<exists>cs'. set_many H ty ds cs1 = Some cs' \<and>
     c_size (get_cache ty cs') = c_size (get_cache ty cs1) + int (length ds) \<and>
     length (c_queue (get_cache ty cs')) = length (c_queue (get_cache ty cs1)) + length ds \<and>
     destroyed cs' = destroyed cs1"
  proof (rule Cons.IH [OF cs1(4,5) Cons.prems(3,4), of js'])
    show "map (c_objs (get_cache ty cs1)) (map fst ds) = map Some js'"
      using Cons.prems(5) by (simp add: cs1(2) inserted_def js)
    show "\<forall>k \<in> set js'. hm_get H (c_map (get_cache ty cs1)) k = NULL"
      using Cons.prems(6,8) by (auto simp: cs1(2) inserted_def js get)
    show "\<forall>n' \<in> snd ` set ds. c_nodes (get_cache ty cs1) n' = None"
      using Cons.prems(9,10) by (auto simp: cs1(2) inserted_def dn)
  qed (use Cons.prems(6,7,9) in \<open>auto simp: js dn\<close>)
  then show ?case
    using cs1(1,6) by (auto simp: dn cs1(2) inserted_def)
qed simp

lemma stale_evicts_mapped:
  assumes st: "stale_head H (get_cache ty cs) i first"
    and n: "hm_get H (c_map (get_cache ty cs)) i = n" "n \<noteq> NULL" "n \<in> set (c_queue (get_cache ty cs))"
    and nd: "c_nodes (get_cache ty cs) n = Some nd" "c_objs (get_cache ty cs) (node_cont nd) = Some i'"
    and cb: "callback_ok (destroy_item_callback cs)"
  shows "\<exists>cs'. remove_oldest H ty 1 cs = Some cs' \<and>
     destroyed cs' = destroyed cs @ [(ty, node_cont nd)] \<and>
     c_queue (get_cache ty cs') = remove1 n (c_queue (get_cache ty cs)) \<and>
     c_map (get_cache ty cs') = hm_remove H (c_map (get_cache ty cs)) i \<and>
     c_nodes (get_cache ty cs') = (c_nodes (get_cache ty cs))(n := None) \<and>
     c_size (get_cache ty cs') = c_size (get_cache ty cs) - 1"
proof -
  let ?c = "get_cache ty cs"
  obtain objs where objs: "destroy_item_callback cs ty (node_cont nd) (c_objs ?c) = Some objs"
    using cb nd(2) unfolding callback_ok_def by blast
  have "discord_cache_delete H ty i cs = Some ((put_cache ty (?c\<lparr>c_queue := remove1 n (c_queue ?c),
      c_map := hm_remove H (c_map ?c) i, c_objs := objs, c_nodes := (c_nodes ?c)(n := None),
      c_size := c_size ?c - 1\<rparr>) cs)\<lparr>destroyed := destroyed cs @ [(ty, node_cont nd)]\<rparr>)"
    using n nd(1) objs by (simp add: discord_cache_delete_def tailq_remove_def destroy_item_def Let_def)
  then show ?thesis
    using stale_headD [OF st, of 0] by simp
qed

section \<open>Properties\<close>

text \<open>A hash map that satisfies the laws, for the witnesses: a function, with no failures.\<close>

definition fun_map :: "(u64 \<Rightarrow> addr) hashmap_api" where
  "fun_map = \<lparr>hm_create = Some (\<lambda>_. NULL), hm_get = (\<lambda>m k. m k),
     hm_put = (\<lambda>m k v. Some (m(k := v))), hm_remove = (\<lambda>m k. m(k := NULL))\<rparr>"

lemma fun_map_laws [simp]: "hashmap_laws fun_map"
  by (simp add: hashmap_laws_def fun_map_def)

text \<open>Messages 11, 12, ... with IDs 1, 2, ...; 21 is a second structure with ID 1.\<close>

definition demo_buffer :: "entry list \<Rightarrow> (u64 \<Rightarrow> addr) buffer" where
  "demo_buffer xs = \<lparr>c_map = (\<lambda>k. case map_of (map (\<lambda>x. (e_id x, e_node x)) xs) k of None \<Rightarrow> NULL | Some n \<Rightarrow> n),
     c_queue = map e_node xs, c_size = int (length xs), c_max = 2,
     c_nodes = map_of (map (\<lambda>x. (e_node x, \<lparr>alloc_id = e_id x, node_cont = e_cont x\<rparr>)) xs),
     c_objs = [11 \<mapsto> 1, 12 \<mapsto> 2, 13 \<mapsto> 3, 14 \<mapsto> 4, 21 \<mapsto> 1]\<rparr>"

definition demo_caches :: "entry list \<Rightarrow> (u64 \<Rightarrow> addr) caches" where
  "demo_caches xs = \<lparr>messages = demo_buffer xs, channels = demo_buffer [], guilds = demo_buffer [],
     destroy_item_callback = default_destroy_callback, destroyed = []\<rparr>"

lemma demo_rep1: "cache_rep fun_map (get_cache DISCO_MESSAGE_CACHE (demo_caches [(1, 11, 101)])) [(1, 11, 101)]"
  by (simp add: cache_rep_def demo_caches_def demo_buffer_def get_cache_def map_ok_def entry_ok_def)
    (simp add: fun_map_def)

lemma demo_rep2: "cache_rep fun_map (get_cache DISCO_MESSAGE_CACHE (demo_caches [(1, 11, 101), (2, 12, 102)]))
    [(1, 11, 101), (2, 12, 102)]"
  by (simp add: cache_rep_def demo_caches_def demo_buffer_def get_cache_def map_ok_def entry_ok_def)
    (simp add: fun_map_def)

lemma demo_callback: "callback_ok (destroy_item_callback (demo_caches xs))"
  by (simp add: demo_caches_def default_callback_ok)

text \<open>C7. Setting a structure whose ID is not in a coherent cache succeeds when the hash map
  accepts it: the cache then holds the newest entries up to its maximum, the new one last, the
  evicted ones are exactly the oldest and each was handed to the destroy callback once, oldest
  first, and no other cache changed.\<close>

theorem cache_set_keeps_newest:
  assumes "cache_rep H (get_cache ty cs) xs" and "callback_ok (destroy_item_callback cs)"
    and "c_objs (get_cache ty cs) d = Some i" and "i \<notin> e_id ` set xs"
    and "n \<noteq> NULL" and "c_nodes (get_cache ty cs) n = None"
    and "hm_put H (c_map (get_cache ty cs)) i n \<noteq> None" and "0 \<le> c_max (get_cache ty cs)"
  shows "\<exists>cs'. discord_cache_set H ty d n cs = Some (0, cs') \<and>
     (let k = Suc (length xs) - nat (c_max (get_cache ty cs)); ys = xs @ [(i, d, n)]
      in cache_rep H (get_cache ty cs') (drop k ys) \<and>
         int (length (drop k ys)) \<le> c_max (get_cache ty cs) \<and>
         destroyed cs' = destroyed cs @ map (\<lambda>x. (ty, e_cont x)) (take k ys)) \<and>
     (\<forall>ty'. ty' \<noteq> ty \<longrightarrow> get_cache ty' cs' = get_cache ty' cs)"
proof -
  from assms(7) obtain m where m: "hm_put H (c_map (get_cache ty cs)) i n = Some m" by blast
  from cache_set_fresh [OF assms(1-6) m assms(8)] show ?thesis
    using assms(8) by (auto simp: Let_def only_changes_def)
qed

theorem cache_set_keeps_newest_witness:
  "\<exists>cs'. discord_cache_set fun_map DISCO_MESSAGE_CACHE 13 103
       (demo_caches [(1, 11, 101), (2, 12, 102)]) = Some (0, cs') \<and>
     cache_rep fun_map (get_cache DISCO_MESSAGE_CACHE cs') [(2, 12, 102), (3, 13, 103)] \<and>
     destroyed cs' = [(DISCO_MESSAGE_CACHE, 11)]"
proof -
  let ?c = "get_cache DISCO_MESSAGE_CACHE (demo_caches [(1, 11, 101), (2, 12, 102)])"
  have "c_objs ?c 13 = Some 3" "c_nodes ?c 103 = None" "c_max ?c = 2"
      "hm_put fun_map (c_map ?c) 3 103 \<noteq> None" "destroyed (demo_caches xs) = []" for xs
    by (simp_all add: demo_caches_def demo_buffer_def get_cache_def fun_map_def)
  then show ?thesis
    using cache_set_keeps_newest [OF demo_rep2 demo_callback, of 13 3 103] by (simp add: Let_def) blast
qed

text \<open>A looked-up entry is found, and the next insertion does not evict it: a handler may
  look up the old version, insert another structure, and look it up again.\<close>

theorem cache_get_protects:
  assumes "caches_rep H ty cs xs" and "x \<in> set xs" and "length xs \<le> nat (c_max (get_cache ty cs))"
    and "2 \<le> nat (c_max (get_cache ty cs))" and "discord_cache_get H ty (e_id x) cs = Some (v, cs1)"
    and "c_objs (get_cache ty cs1) d = Some i" and "i \<notin> e_id ` set xs"
    and "n \<noteq> NULL \<and> c_nodes (get_cache ty cs1) n = None"
    and "discord_cache_set H ty d n cs1 = Some (0, cs2)"
  shows "v = e_cont x \<and> (\<exists>cs3. discord_cache_get H ty (e_id x) cs2 = Some (e_cont x, cs3))"
  by (rule lc.touched_survives_set [OF assms])

theorem cache_get_protects_witness:
  "\<exists>cs1 cs2 cs3. discord_cache_get fun_map DISCO_MESSAGE_CACHE 1
       (demo_caches [(1, 11, 101), (2, 12, 102)]) = Some (11, cs1) \<and>
     discord_cache_set fun_map DISCO_MESSAGE_CACHE 13 103 cs1 = Some (0, cs2) \<and>
     discord_cache_get fun_map DISCO_MESSAGE_CACHE 1 cs2 = Some (11, cs3)"
proof -
  let ?ty = DISCO_MESSAGE_CACHE
  let ?cs = "demo_caches [(1, 11, 101), (2, 12, 102)]"
  have rep: "caches_rep fun_map ?ty ?cs [(1, 11, 101), (2, 12, 102)]" and mx: "c_max (get_cache ?ty ?cs) = 2"
    using demo_rep2 demo_callback by (simp_all add: caches_rep_def demo_caches_def demo_buffer_def get_cache_def)
  define cs1 where "cs1 = put_cache ?ty ((get_cache ?ty ?cs)\<lparr>c_queue := [102, 101]\<rparr>) ?cs"
  have get: "discord_cache_get fun_map ?ty 1 ?cs = Some (11, cs1)"
    by (simp add: discord_cache_get_def demo_caches_def demo_buffer_def get_cache_def fun_map_def
        move_to_tail_def tailq_remove_def cs1_def)
  have "\<exists>cs2. discord_cache_set fun_map ?ty 13 103 cs1 = Some (0, cs2)"
    by (simp add: discord_cache_set_def cs1_def demo_caches_def demo_buffer_def get_cache_def put_cache_def
        fun_map_def discord_cache_delete_def tailq_remove_def destroy_item_def default_destroy_callback_def
        Let_def)
  then obtain cs2 where set: "discord_cache_set fun_map ?ty 13 103 cs1 = Some (0, cs2)" by blast
  have "c_objs (get_cache ?ty cs1) 13 = Some 3" "c_nodes (get_cache ?ty cs1) 103 = None"
    by (simp_all add: cs1_def demo_caches_def demo_buffer_def get_cache_def put_cache_def)
  then have "\<exists>cs3. discord_cache_get fun_map ?ty 1 cs2 = Some (11, cs3)"
    using cache_get_protects [OF rep, of "(1, 11, 101)" 11 cs1 13 3 103 cs2] get set mx by simp
  with get set show ?thesis by blast
qed


text \<open>Deleting a cached ID unlinks exactly its entry, hands its structure to the destroy
  callback once, and a later look-up of the ID finds nothing; deleting any other ID changes
  nothing.\<close>

theorem cache_delete_removes:
  assumes "cache_rep H (get_cache ty cs) xs" and "callback_ok (destroy_item_callback cs)"
  shows "\<exists>cs'. discord_cache_delete H ty i cs = Some cs' \<and>
     cache_rep H (get_cache ty cs') (drop_id i xs) \<and>
     destroyed cs' = destroyed cs @ map (\<lambda>x. (ty, e_cont x)) (filter (\<lambda>x. e_id x = i) xs) \<and>
     (i \<notin> e_id ` set xs \<longrightarrow> cs' = cs) \<and>
     (\<exists>cs''. discord_cache_get H ty i cs' = Some (NULL, cs''))"
proof -
  have gone: "\<exists>cs''. discord_cache_get H ty i cs' = Some (NULL, cs'')"
    if "cache_rep H (get_cache ty cs') (drop_id i xs)" for cs'
    using cache_get_ok [OF that, of i] find_cont_out [of i "drop_id i xs"] by (auto simp: ids_drop_id)
  show ?thesis
  proof (cases "i \<in> e_id ` set xs")
    case True
    then obtain x where x: "x \<in> set xs" "i = e_id x" by blast
    have "distinct (map e_id xs)" using assms(1) by (simp add: cache_rep_def)
    then have "filter (\<lambda>y. e_id y = i) xs = [x]" using x by (simp add: filter_id_eq)
    then show ?thesis
      using cache_delete_ok [OF assms x(1)] x gone by fastforce
  next
    case False
    then have "filter (\<lambda>y. e_id y = i) xs = []" by (auto simp: filter_empty_conv)
    then show ?thesis
      using cache_delete_absent [OF assms(1) False] drop_id_absent [OF False] gone assms(1) by simp
  qed
qed

theorem cache_delete_removes_witness:
  "\<exists>cs'. discord_cache_delete fun_map DISCO_MESSAGE_CACHE 1
       (demo_caches [(1, 11, 101), (2, 12, 102)]) = Some cs' \<and>
     cache_rep fun_map (get_cache DISCO_MESSAGE_CACHE cs') [(2, 12, 102)]"
  using cache_delete_removes [OF demo_rep2 demo_callback, of 1] by (auto simp: drop_id_def)

text \<open>\<open>discord_cache_init\<close> returns 1 when a hash map cannot be created and 0 otherwise; then
  all three caches are empty and coherent, with a maximum of what was asked for but at least 2, and
  the callback is the given one or the default one.\<close>

theorem cache_init_ok:
  assumes "hashmap_laws H"
  shows "case discord_cache_init H m c g cb cs of (rc, cs') \<Rightarrow>
     (if hm_create H = None then rc = 1
      else rc = 0 \<and> (\<forall>ty. cache_rep H (get_cache ty cs') [] \<and> 2 \<le> c_max (get_cache ty cs')) \<and>
        c_max (messages cs') = max 2 m \<and> c_max (channels cs') = max 2 c \<and>
        c_max (guilds cs') = max 2 g \<and>
        destroy_item_callback cs' = (case cb of None \<Rightarrow> default_destroy_callback | Some f \<Rightarrow> f))"
proof -
  have "cache_rep H (b\<lparr>c_map := h, c_queue := [], c_size := 0\<rparr>) []" if "hm_create H = Some h" for b h
    using assms that by (simp add: cache_rep_def map_ok_def hashmap_laws_def)
  then show ?thesis
    by (cases "hm_create H")
      (auto simp: discord_cache_init_def init_buffer_def get_cache_def clamp_size_def Let_def
        split: cache_type.split)
qed

theorem cache_init_ok_witness:
  "\<exists>cs. discord_cache_init fun_map 1000 0 5 None (demo_caches []) = (0, cs) \<and> c_max (channels cs) = 2"
  using cache_init_ok [OF fun_map_laws, of 1000 0 5 None "demo_caches []"]
  by (auto simp: fun_map_def split: prod.splits)

text \<open>C8. \<open>discord_cache_destroy\<close> on coherent caches does not fault and hands every cached
  structure to the destroy callback exactly once, messages first, then channels, then guilds, each
  from the oldest to the newest, and leaves empty queues.\<close>

theorem cache_destroy_all:
  assumes "cache_rep H (messages cs) ms" and "cache_rep H (channels cs) chs" and "cache_rep H (guilds cs) gs"
    and "callback_ok (destroy_item_callback cs)"
  shows "\<exists>cs'. discord_cache_destroy cs = Some cs' \<and>
     destroyed cs' = destroyed cs @ map (\<lambda>x. (DISCO_MESSAGE_CACHE, e_cont x)) ms @
       map (\<lambda>x. (DISCO_CHANNEL_CACHE, e_cont x)) chs @ map (\<lambda>x. (DISCO_GUILD_CACHE, e_cont x)) gs \<and>
     (\<forall>ty. c_queue (get_cache ty cs') = [] \<and> c_size (get_cache ty cs') = 0)"
proof -
  let ?M = DISCO_MESSAGE_CACHE and ?C = DISCO_CHANNEL_CACHE and ?G = DISCO_GUILD_CACHE
  have sel: "get_cache ?M s = messages s" "get_cache ?C s = channels s" "get_cache ?G s = guilds s"
    for s :: "'a caches" by (simp_all add: get_cache_def)
  obtain s1 where s1: "destroy_queue ?M (c_queue (messages cs)) cs = Some s1"
      "c_queue (get_cache ?M s1) = []" "c_size (get_cache ?M s1) = 0" "only_changes ?M cs s1"
      "destroyed s1 = destroyed cs @ map (\<lambda>x. (?M, e_cont x)) ms"
    using destroy_queue_ok [of H ?M cs ms] assms(1,4) by (auto simp: sel)
  have c1: "get_cache ?C s1 = get_cache ?C cs" "get_cache ?G s1 = get_cache ?G cs"
      "callback_ok (destroy_item_callback s1)"
    using s1(4) assms(4) by (simp_all add: only_changes_def)
  obtain s2 where s2: "destroy_queue ?C (c_queue (channels s1)) s1 = Some s2"
      "c_queue (get_cache ?C s2) = []" "c_size (get_cache ?C s2) = 0" "only_changes ?C s1 s2"
      "destroyed s2 = destroyed s1 @ map (\<lambda>x. (?C, e_cont x)) chs"
    using destroy_queue_ok [of H ?C s1 chs] assms(2) c1 by (auto simp: sel)
  have c2: "get_cache ?M s2 = get_cache ?M s1" "get_cache ?G s2 = get_cache ?G cs"
      "callback_ok (destroy_item_callback s2)"
    using s2(4) c1 by (simp_all add: only_changes_def)
  obtain s3 where s3: "destroy_queue ?G (c_queue (guilds s2)) s2 = Some s3"
      "c_queue (get_cache ?G s3) = []" "c_size (get_cache ?G s3) = 0" "only_changes ?G s2 s3"
      "destroyed s3 = destroyed s2 @ map (\<lambda>x. (?G, e_cont x)) gs"
    using destroy_queue_ok [of H ?G s2 gs] assms(3) c2 by (auto simp: sel)
  have c3: "get_cache ?M s3 = get_cache ?M s1" "get_cache ?C s3 = get_cache ?C s2"
    using s3(4) c2(1) by (simp_all add: only_changes_def)
  have "c_queue (get_cache ty s3) = [] \<and> c_size (get_cache ty s3) = 0" for ty
    using s1 s2 s3 c3 by (cases ty) simp_all
  then show ?thesis
    using s1(1,5) s2(1,5) s3(1,5) by (simp add: discord_cache_destroy_def)
qed

lemma demo_rep0: "cache_rep fun_map (demo_buffer []) []"
  by (simp add: cache_rep_def demo_buffer_def map_ok_def) (simp add: fun_map_def)

theorem cache_destroy_all_witness:
  "\<exists>cs'. discord_cache_destroy (demo_caches [(1, 11, 101), (2, 12, 102)]) = Some cs' \<and>
     destroyed cs' = [(DISCO_MESSAGE_CACHE, 11), (DISCO_MESSAGE_CACHE, 12)]"
proof -
  let ?cs = "demo_caches [(1, 11, 101), (2, 12, 102)]"
  have "cache_rep fun_map (messages ?cs) [(1, 11, 101), (2, 12, 102)]"
    using demo_rep2 by (simp add: get_cache_def)
  moreover have "cache_rep fun_map (channels ?cs) []" "cache_rep fun_map (guilds ?cs) []"
    using demo_rep0 by (simp_all add: demo_caches_def)
  ultimately show ?thesis
    using cache_destroy_all [OF _ _ _ demo_callback] by (fastforce simp: demo_caches_def)
qed

text \<open>Setting a structure whose ID is already cached does not free the older entry, as the
  documentation says: the older node stays in the queue and is counted, its structure is not
  destroyed, and only the ID's mapping is overwritten.\<close>

theorem cache_set_again_keeps_old:
  assumes "cache_rep H (get_cache ty cs) xs" and "x \<in> set xs"
    and "c_objs (get_cache ty cs) d = Some (e_id x)"
    and "hm_put H (c_map (get_cache ty cs)) (e_id x) n \<noteq> None" and "n \<noteq> e_node x"
    and "int (length xs) < c_max (get_cache ty cs)"
  shows "\<exists>cs'. discord_cache_set H ty d n cs = Some (0, cs') \<and> destroyed cs' = destroyed cs \<and>
     e_node x \<in> set (c_queue (get_cache ty cs')) \<and> n \<in> set (c_queue (get_cache ty cs')) \<and>
     c_size (get_cache ty cs') = int (length xs) + 1 \<and>
     c_nodes (get_cache ty cs') (e_node x) = Some \<lparr>alloc_id = e_id x, node_cont = e_cont x\<rparr> \<and>
     hm_get H (c_map (get_cache ty cs')) (e_id x) = n"
proof -
  from assms(4) obtain m where m: "hm_put H (c_map (get_cache ty cs)) (e_id x) n = Some m" by blast
  have "hm_get H m (e_id x) = n"
    using assms(1) m unfolding cache_rep_def hashmap_laws_def by metis
  with cache_set_again [OF assms(1-3) m assms(6)] show ?thesis
    using cache_repD(4) [OF assms(1,2)] assms(2,5) by auto
qed

theorem cache_set_again_keeps_old_witness:
  "\<exists>cs'. discord_cache_set fun_map DISCO_MESSAGE_CACHE 21 103 (demo_caches [(1, 11, 101)]) = Some (0, cs') \<and>
     destroyed cs' = [] \<and> 101 \<in> set (c_queue (get_cache DISCO_MESSAGE_CACHE cs'))"
proof -
  let ?c = "get_cache DISCO_MESSAGE_CACHE (demo_caches [(1, 11, 101)])"
  have "c_objs ?c 21 = Some 1" "c_max ?c = 2" "hm_put fun_map (c_map ?c) 1 103 \<noteq> None"
      "destroyed (demo_caches xs) = []" for xs
    by (simp_all add: demo_caches_def demo_buffer_def get_cache_def fun_map_def)
  then show ?thesis
    using cache_set_again_keeps_old [OF demo_rep1, of "(1, 11, 101)" 21 103] by auto
qed


text \<open>An update evicts the wrong version: in a cache of maximum 2 that holds one structure,
  setting a newer structure with the same ID and then any other one destroys the newer structure
  (not the oldest), and the ID is no longer found although the older version is still kept.\<close>

theorem cache_update_loses_newest:
  assumes "cache_rep H (get_cache ty cs) [x]" and "callback_ok (destroy_item_callback cs)"
    and "c_max (get_cache ty cs) = 2"
    and "c_objs (get_cache ty cs) d = Some (e_id x)" and "c_objs (get_cache ty cs) d2 = Some j"
    and "j \<noteq> e_id x" and "n \<noteq> NULL" and "n2 \<noteq> NULL" and "distinct [e_node x, n, n2]"
    and "\<forall>m k v. hm_put H m k v \<noteq> None"
  shows "\<exists>cs1 cs2 cs3. discord_cache_set H ty d n cs = Some (0, cs1) \<and>
     discord_cache_set H ty d2 n2 cs1 = Some (0, cs2) \<and>
     destroyed cs2 = destroyed cs @ [(ty, d)] \<and>
     c_queue (get_cache ty cs2) = [e_node x, n2] \<and>
     discord_cache_get H ty (e_id x) cs2 = Some (NULL, cs3)"
proof -
  let ?c = "get_cache ty cs"
  obtain m where m: "hm_put H (c_map ?c) (e_id x) n = Some m" using assms(10) by blast
  obtain m2 where m2: "hm_put H m j n2 = Some m2" using assms(10) by blast
  have laws: "hashmap_laws H" using assms(1) by (simp add: cache_rep_def)
  have get: "\<And>k. hm_get H m k = (if k = e_id x then n else hm_get H (c_map ?c) k)"
      "\<And>k. hm_get H m2 k = (if k = j then n2 else hm_get H m k)"
      "\<And>k k'. hm_get H (hm_remove H m2 k) k' = (if k' = k then NULL else hm_get H m2 k')"
    using laws m m2 unfolding hashmap_laws_def by blast+
  have j: "hm_get H (c_map ?c) j = NULL" using cache_rep_absent [OF assms(1)] assms(6) by simp
  note x = cache_repD [OF assms(1), of x, simplified]
  obtain cs1 where cs1: "discord_cache_set H ty d n cs = Some (0, cs1)"
      "c_queue (get_cache ty cs1) = [e_node x, n]" "c_size (get_cache ty cs1) = 2"
      "c_map (get_cache ty cs1) = m"
      "c_nodes (get_cache ty cs1) = (c_nodes ?c)(n \<mapsto> \<lparr>alloc_id = e_id x, node_cont = d\<rparr>)"
      "c_objs (get_cache ty cs1) = c_objs ?c" "destroyed cs1 = destroyed cs" "only_changes ty cs cs1"
    using cache_set_again [OF assms(1) _ assms(4) m] assms(3) by (auto simp: touch_def)
  let ?c1 = "get_cache ty cs1"
  let ?c3 = "inserted n2 j d2 m2 ?c1"
  let ?cs3 = "put_cache ty ?c3 cs1"
  have st: "stale_head H (get_cache ty ?cs3) (e_id x) (e_node x)"
    using cs1 x assms(6,9) get by (auto simp: stale_head_def inserted_def)
  have "callback_ok (destroy_item_callback ?cs3)"
    using cs1(8) assms(2) by (simp add: only_changes_def)
  then obtain cs2 where cs2: "remove_oldest H ty 1 ?cs3 = Some cs2"
      "destroyed cs2 = destroyed ?cs3 @ [(ty, d)]"
      "c_queue (get_cache ty cs2) = remove1 n (c_queue ?c3)"
      "c_map (get_cache ty cs2) = hm_remove H m2 (e_id x)"
    using stale_evicts_mapped [OF st, of n "\<lparr>alloc_id = e_id x, node_cont = d\<rparr>" "e_id x"]
      cs1 get assms(4,6,7,9) by (auto simp: inserted_def)
  have max: "c_max ?c1 = 2" using cs1(8) assms(3) by (simp add: only_changes_def)
  have "discord_cache_set H ty d2 n2 cs1 = Some (0, cs2)"
    using cs1(2-6) assms(5,6) get j m2 max cs2(1)
    by (simp add: discord_cache_set_def Let_def inserted_def)
  moreover have "discord_cache_get H ty (e_id x) cs2 = Some (NULL, cs2)"
    using cs2(4) get(3) by (simp add: discord_cache_get_def)
  moreover have "c_queue (get_cache ty cs2) = [e_node x, n2]"
    using cs2(3) cs1(2) assms(9) by (simp add: inserted_def)
  ultimately show ?thesis using cs1(1,7) cs2(2) by auto
qed

theorem cache_update_loses_newest_witness:
  "\<exists>cs1 cs2 cs3. discord_cache_set fun_map DISCO_MESSAGE_CACHE 21 103 (demo_caches [(1, 11, 101)]) = Some (0, cs1) \<and>
     discord_cache_set fun_map DISCO_MESSAGE_CACHE 12 102 cs1 = Some (0, cs2) \<and>
     destroyed cs2 = [(DISCO_MESSAGE_CACHE, 21)] \<and>
     discord_cache_get fun_map DISCO_MESSAGE_CACHE 1 cs2 = Some (NULL, cs3)"
proof -
  let ?c = "get_cache DISCO_MESSAGE_CACHE (demo_caches [(1, 11, 101)])"
  have "c_objs ?c 21 = Some 1" "c_objs ?c 12 = Some 2" "c_max ?c = 2" "destroyed (demo_caches xs) = []"
    "\<forall>m k v. hm_put fun_map m k v \<noteq> None" for xs
    by (simp_all add: demo_caches_def demo_buffer_def get_cache_def fun_map_def)
  then show ?thesis
    using cache_update_loses_newest [OF demo_rep1 demo_callback, of 21 12 2 103 102] by simp blast
qed

text \<open>C9. Once the oldest node's ID is not mapped, the cache never evicts again: every later set
  of a new ID succeeds without a clean-up, so after any number of them the cache has grown by
  that number, whatever its maximum.\<close>

theorem cache_orphan_grows:
  assumes "stale_head H (get_cache ty cs) i first" and "hm_get H (c_map (get_cache ty cs)) i = NULL"
    and "hashmap_laws H" and "\<forall>m k v. hm_put H m k v \<noteq> None"
    and "map (c_objs (get_cache ty cs)) (map fst ds) = map Some js" and "distinct js" and "i \<notin> set js"
    and "\<forall>j \<in> set js. hm_get H (c_map (get_cache ty cs)) j = NULL"
    and "distinct (map snd ds)" and "\<forall>n \<in> snd ` set ds. c_nodes (get_cache ty cs) n = None"
  shows "\<exists>cs'. set_many H ty ds cs = Some cs' \<and>
     c_size (get_cache ty cs') = c_size (get_cache ty cs) + int (length ds) \<and>
     length (c_queue (get_cache ty cs')) = length (c_queue (get_cache ty cs)) + length ds \<and>
     destroyed cs' = destroyed cs"
  using orphan_set_many [OF assms] .

definition demo_orphan :: "(u64 \<Rightarrow> addr) caches" where
  "demo_orphan = put_cache DISCO_MESSAGE_CACHE
     ((demo_buffer [(1, 11, 101), (2, 12, 102)])\<lparr>c_map := (\<lambda>k. if k = 2 then 102 else NULL)\<rparr>)
     (demo_caches [])"

theorem cache_orphan_grows_witness:
  "\<exists>cs'. set_many fun_map DISCO_MESSAGE_CACHE [(13, 103), (14, 104)] demo_orphan = Some cs' \<and>
     c_max (get_cache DISCO_MESSAGE_CACHE demo_orphan) = 2 \<and>
     c_size (get_cache DISCO_MESSAGE_CACHE cs') = 4 \<and> destroyed cs' = []"
proof -
  have "stale_head fun_map (get_cache DISCO_MESSAGE_CACHE demo_orphan) 1 101"
    by (simp add: stale_head_def demo_orphan_def demo_buffer_def fun_map_def)
  then show ?thesis
    using cache_orphan_grows [of fun_map DISCO_MESSAGE_CACHE demo_orphan 1 101 "[(13, 103), (14, 104)]" "[3, 4]"]
    by (simp add: demo_orphan_def demo_buffer_def fun_map_laws del: set_many.simps)
      (simp add: fun_map_def demo_caches_def del: set_many.simps, blast)
qed

end
