(* ===== verification/Env_Parse.thy ===== *)
theory Env_Parse
  imports Disco_Prelude
begin

text \<open>
  \<open>src/utils/env_parse.c\<close>: \<open>d_getenv\<close> reads the value of a variable from a file of
  \<open>NAME=value\<close> lines. A file is the list of its bytes; the scanning loop is a recursion over it
  that carries the C function's local variables. The lemmas say which lines the scan skips, which
  it accepts and what it returns, and in which files it misses a variable or cuts its value.
\<close>

section \<open>The code\<close>

definition newline :: char where "newline = CHR 0x0A"

text \<open>\<open>fgetc\<close> is stored in a \<open>signed char\<close>: the byte 255 equals \<open>EOF\<close>.\<close>

definition eof_byte :: char where "eof_byte = CHR 0xFF"

record env_scan =
  val :: bool
  found :: bool
  offset :: nat
  cur :: nat
  count :: nat
  env_len :: nat

definition env_start :: env_scan where
  "env_start = \<lparr>val = True, found = False, offset = 0, cur = 0, count = 0, env_len = 0\<rparr>"

text \<open>The loop body after the end-of-file test; \<open>True\<close> is \<open>break\<close>.\<close>

definition env_step :: "string \<Rightarrow> char \<Rightarrow> env_scan \<Rightarrow> bool \<times> env_scan" where
  "env_step name c s =
     (let s1 = s\<lparr>cur := cur s + 1\<rparr>;
          s2 = (if found s1 then s1\<lparr>env_len := env_len s1 + 1\<rparr> else s1)
      in if c = newline then (found s2, s2\<lparr>val := True\<rparr>)
         else if \<not> found s2 \<and> val s2 \<and> c = CHR ''='' then (False, s2\<lparr>found := True, offset := cur s2\<rparr>)
         else if val s2
         then (False, if count s2 < strnlen name 1000 \<and> c = name ! count s2
                      then s2\<lparr>count := count s2 + 1\<rparr> else s2\<lparr>val := False\<rparr>)
         else (False, s2))"

fun env_loop :: "string \<Rightarrow> string \<Rightarrow> env_scan \<Rightarrow> env_scan" where
  "env_loop name [] s = s"
| "env_loop name (c # cs) s =
     (if c = eof_byte then s
      else let (stop, s') = env_step name c s in if stop then s' else env_loop name cs s')"

datatype getenv_result = Exit_Failure | Null | Value string

text \<open>\<open>None\<close> is a file that cannot be opened.\<close>

definition d_getenv :: "string option \<Rightarrow> string \<Rightarrow> getenv_result" where
  "d_getenv file name =
     (case file of None \<Rightarrow> Exit_Failure
      | Some bytes \<Rightarrow>
          let s = env_loop name bytes env_start
          in if env_len s = 0 then Null
             else Value (take (env_len s - 1) (drop (offset s) bytes)))"

section \<open>Scanning a line\<close>

definition plain :: "string \<Rightarrow> bool" where
  "plain s \<longleftrightarrow> newline \<notin> set s \<and> eof_byte \<notin> set s"

text \<open>Inside the value: every byte is counted until the newline.\<close>

lemma loop_value:
  "plain v \<Longrightarrow> found s \<Longrightarrow>
   \<exists>s'. env_loop name (v @ rest) s = env_loop name rest s' \<and> found s' \<and> offset s' = offset s \<and>
     env_len s' = env_len s + length v"
proof (induction v arbitrary: s)
  case Nil
  then show ?case by auto
next
  case (Cons c v)
  then have c: "c \<noteq> newline" "c \<noteq> eof_byte" "plain v" by (auto simp: plain_def)
  define s1 where "s1 = snd (env_step name c s)"
  have st: "env_step name c s = (False, s1)" "found s1" "offset s1 = offset s"
      "env_len s1 = env_len s + 1"
    using c Cons.prems(2) by (simp_all add: s1_def env_step_def Let_def)
  from Cons.IH [OF c(3) st(2)] st c(2) show ?case by auto
qed

lemma loop_newline_found:
  "found s \<Longrightarrow> found (env_loop name (newline # rest) s) \<and>
     offset (env_loop name (newline # rest) s) = offset s \<and>
     env_len (env_loop name (newline # rest) s) = env_len s + 1"
  by (simp add: env_step_def Let_def newline_def eof_byte_def)

text \<open>A line that is already known not to match.\<close>

lemma loop_invalid:
  "plain l \<Longrightarrow> \<not> val s \<Longrightarrow> \<not> found s \<Longrightarrow>
   env_loop name (l @ rest) s = env_loop name rest (s\<lparr>cur := cur s + length l\<rparr>)"
proof (induction l arbitrary: s)
  case (Cons c l)
  then have "c \<noteq> newline" "c \<noteq> eof_byte" "plain l" by (auto simp: plain_def)
  with Cons show ?case by (simp add: env_step_def Let_def)
qed simp

lemma loop_newline:
  "\<not> found s \<Longrightarrow> env_loop name (newline # rest) s = env_loop name rest (s\<lparr>cur := cur s + 1, val := True\<rparr>)"
  by (simp add: env_step_def Let_def newline_def eof_byte_def)

text \<open>A stretch of bytes that agree with the name from \<open>count\<close> on.\<close>

lemma loop_match:
  "plain p \<Longrightarrow> CHR ''='' \<notin> set p \<Longrightarrow> val s \<Longrightarrow> \<not> found s \<Longrightarrow>
   count s + length p \<le> strnlen name 1000 \<Longrightarrow> p = take (length p) (drop (count s) name) \<Longrightarrow>
   env_loop name (p @ rest) s =
     env_loop name rest (s\<lparr>cur := cur s + length p, count := count s + length p\<rparr>)"
proof (induction p arbitrary: s)
  case (Cons c p)
  from Cons.prems have c: "c \<noteq> newline" "c \<noteq> eof_byte" "c \<noteq> CHR ''=''" "plain p"
    by (auto simp: plain_def)
  have lt: "count s < strnlen name 1000" "count s < length name"
    using Cons.prems(5) by (auto simp: strnlen_def)
  then have dr: "drop (count s) name = name ! count s # drop (Suc (count s)) name"
    by (simp add: Cons_nth_drop_Suc)
  have eq: "c = name ! count s" "p = take (length p) (drop (Suc (count s)) name)"
    using Cons.prems(6) by (simp_all add: dr)
  let ?s1 = "s\<lparr>cur := cur s + 1, count := count s + 1\<rparr>"
  have st: "env_step name c s = (False, ?s1)"
    unfolding env_step_def using c lt Cons.prems(3,4) eq(1) by (simp add: Let_def)
  have "env_loop name (p @ rest) ?s1 =
      env_loop name rest (?s1\<lparr>cur := cur ?s1 + length p, count := count ?s1 + length p\<rparr>)"
    using Cons.prems(2-5) c(4) eq(2) by (intro Cons.IH) simp_all
  with st c(2) show ?case by simp
qed simp

lemma loop_equals:
  "val s \<Longrightarrow> \<not> found s \<Longrightarrow>
   env_loop name (CHR ''='' # rest) s =
     env_loop name rest (s\<lparr>cur := cur s + 1, found := True, offset := cur s + 1\<rparr>)"
  by (simp add: env_step_def Let_def newline_def eof_byte_def)

lemma loop_mismatch:
  "val s \<Longrightarrow> \<not> found s \<Longrightarrow> c \<noteq> newline \<Longrightarrow> c \<noteq> eof_byte \<Longrightarrow> c \<noteq> CHR ''='' \<Longrightarrow>
   \<not> (count s < strnlen name 1000 \<and> c = name ! count s) \<Longrightarrow>
   env_loop name (c # rest) s = env_loop name rest (s\<lparr>cur := cur s + 1, val := False\<rparr>)"
  by (auto simp: env_step_def Let_def)

declare env_loop.simps(2) [simp del]

lemma val_upd_same [simp]: "val s \<Longrightarrow> s\<lparr>cur := k, val := True\<rparr> = s\<lparr>cur := k\<rparr>"
  by (cases s) simp

text \<open>A whole line that disagrees in its first byte leaves the scan at the start of the next one.\<close>

definition skipped :: "string \<Rightarrow> nat \<Rightarrow> string \<Rightarrow> bool" where
  "skipped name k l \<longleftrightarrow>
     plain l \<and> (l = [] \<or> hd l \<noteq> CHR ''='' \<and> \<not> (k < strnlen name 1000 \<and> hd l = name ! k))"

lemma loop_skip:
  assumes "skipped name (count s) l" and "val s" and "\<not> found s"
  shows "env_loop name (l @ newline # rest) s = env_loop name rest (s\<lparr>cur := cur s + length l + 1\<rparr>)"
proof (cases l)
  case Nil
  with assms show ?thesis by (simp add: loop_newline)
next
  case (Cons c l')
  with assms have c: "c \<noteq> newline" "c \<noteq> eof_byte" "c \<noteq> CHR ''=''" "plain l'"
      "\<not> (count s < strnlen name 1000 \<and> c = name ! count s)"
    by (auto simp: skipped_def plain_def)
  show ?thesis
    using assms c by (simp add: Cons loop_mismatch loop_invalid loop_newline)
qed

definition file_lines :: "string list \<Rightarrow> string" where
  "file_lines ls = concat (map (\<lambda>l. l @ [newline]) ls)"

lemma loop_skip_lines:
  "\<forall>l \<in> set ls. skipped name (count s) l \<Longrightarrow> val s \<Longrightarrow> \<not> found s \<Longrightarrow>
   env_loop name (file_lines ls @ rest) s =
     env_loop name rest (s\<lparr>cur := cur s + length (file_lines ls)\<rparr>)"
proof (induction ls arbitrary: s)
  case (Cons l ls)
  let ?s1 = "s\<lparr>cur := cur s + length l + 1\<rparr>"
  have "env_loop name (file_lines (l # ls) @ rest) s = env_loop name (file_lines ls @ rest) ?s1"
    using loop_skip [of name s l "file_lines ls @ rest"] Cons.prems by (simp add: file_lines_def)
  also have "\<dots> = env_loop name rest (?s1\<lparr>cur := cur ?s1 + length (file_lines ls)\<rparr>)"
    using Cons.prems by (intro Cons.IH) simp_all
  finally show ?case by (simp add: file_lines_def algebra_simps)
qed (simp add: file_lines_def)

text \<open>A key that is a prefix of the name is accepted; the value starts after it.\<close>

lemma loop_key:
  assumes "plain p" and "CHR ''='' \<notin> set p" and "length p \<le> strnlen name 1000"
    and "p = take (length p) name" and "\<forall>l \<in> set ls. skipped name 0 l"
  shows "env_loop name (file_lines ls @ p @ CHR ''='' # rest) env_start =
    env_loop name rest \<lparr>val = True, found = True, offset = length (file_lines ls @ p) + 1,
      cur = length (file_lines ls @ p) + 1, count = length p, env_len = 0\<rparr>"
  using assms
  by (simp add: loop_skip_lines loop_match loop_equals env_start_def)

lemma getenv_prefix_key:
  assumes "plain p" and "CHR ''='' \<notin> set p" and "length p \<le> strnlen name 1000"
    and "p = take (length p) name" and "\<forall>l \<in> set ls. skipped name 0 l" and "plain v"
  shows "d_getenv (Some (file_lines ls @ p @ CHR ''='' # v @ newline # rest)) name = Value v"
proof -
  let ?s = "\<lparr>val = True, found = True, offset = length (file_lines ls @ p) + 1,
      cur = length (file_lines ls @ p) + 1, count = length p, env_len = 0\<rparr>"
  obtain s' where s': "env_loop name (v @ newline # rest) ?s = env_loop name (newline # rest) s'"
      "found s'" "offset s' = length (file_lines ls @ p) + 1" "env_len s' = length v"
    using loop_value [OF assms(6), of ?s name "newline # rest"] by auto
  then show ?thesis
    using loop_key [OF assms(1-5), of "v @ newline # rest"] loop_newline_found [of s' name rest]
    by (simp add: d_getenv_def Let_def)
qed

section \<open>Properties\<close>

text \<open>C10. A variable is found with its exact value when every earlier line starts with a byte
  other than the first one of its name and other than an equals sign.\<close>

theorem getenv_finds:
  assumes "plain name" and "CHR ''='' \<notin> set name" and "name \<noteq> []" and "length name \<le> 1000"
    and "\<forall>l \<in> set ls. plain l \<and> (l = [] \<or> hd l \<noteq> CHR ''='' \<and> hd l \<noteq> hd name)" and "plain v"
  shows "d_getenv (Some (file_lines ls @ name @ CHR ''='' # v @ newline # rest)) name = Value v"
proof (rule getenv_prefix_key)
  show "\<forall>l \<in> set ls. skipped name 0 l"
    using assms(3,5) by (auto simp: skipped_def hd_conv_nth)
qed (use assms in \<open>simp_all add: strnlen_def\<close>)

theorem getenv_finds_witness:
  "d_getenv (Some (file_lines [''PORT=80'', []] @ ''TOKEN'' @ CHR ''='' # ''a=b'' @ newline # ''X'')) ''TOKEN'' =
     Value ''a=b''"
  by (rule getenv_finds) (simp_all add: plain_def newline_def eof_byte_def)

text \<open>A value that ends the file without a newline loses its last byte.\<close>

theorem getenv_cuts_last_line:
  assumes "plain name" and "CHR ''='' \<notin> set name" and "length name \<le> 1000" and "plain v" and "v \<noteq> []"
  shows "d_getenv (Some (name @ CHR ''='' # v)) name = Value (butlast v)"
proof -
  let ?s = "\<lparr>val = True, found = True, offset = length name + 1,
      cur = length name + 1, count = length name, env_len = 0\<rparr>"
  obtain s' where s': "env_loop name v ?s = s'" "offset s' = length name + 1" "env_len s' = length v"
    using loop_value [OF assms(4), of ?s name "[]"] by auto
  have "env_loop name (name @ CHR ''='' # v) env_start = s'"
    using loop_key [of name name "[]" v] assms(1-3) s'(1) by (simp add: strnlen_def file_lines_def)
  then show ?thesis
    using s' assms(5) by (simp add: d_getenv_def Let_def butlast_conv_take)
qed

theorem getenv_cuts_last_line_witness: "d_getenv (Some (''TOKEN'' @ CHR ''='' # ''abc'')) ''TOKEN'' = Value ''ab''"
  using getenv_cuts_last_line [of "''TOKEN''" "''abc''"] by (simp add: plain_def newline_def eof_byte_def)

text \<open>The count of matched bytes is not reset at the end of a line: after a line whose key
  shares only its beginning \<open>p\<close> with the name, the variable's own line is not recognised, and
  the variable is not found although it is in the file.\<close>

theorem getenv_hidden_by_similar_key:
  assumes "name = p @ k # ns" and "p \<noteq> []" and "plain name" and "CHR ''='' \<notin> set name"
    and "length name \<le> 1000" and "hd name \<noteq> k"
    and "c \<noteq> k" and "c \<noteq> CHR ''=''" and "plain (c # l)" and "plain v"
  shows "d_getenv (Some (p @ c # l @ newline # name @ CHR ''='' # v @ [newline])) name = Null"
proof -
  have p: "plain p" "CHR ''='' \<notin> set p" using assms(1,3,4) by (auto simp: plain_def)
  have c: "c \<noteq> newline" "c \<noteq> eof_byte" "plain l" using assms(9) by (auto simp: plain_def)
  let ?s1 = "env_start\<lparr>cur := length p, count := length p\<rparr>"
  let ?rest = "name @ CHR ''='' # v @ [newline]"
  have "env_loop name (p @ c # l @ newline # ?rest) env_start = env_loop name (c # l @ newline # ?rest) ?s1"
    using loop_match [of p env_start name "c # l @ newline # ?rest"] p assms(1,5)
    by (simp add: env_start_def strnlen_def)
  also have "\<dots> = env_loop name (l @ newline # ?rest) (?s1\<lparr>cur := length p + 1, val := False\<rparr>)"
    using c assms(1,7,8) by (subst loop_mismatch) (simp_all add: env_start_def)
  also have "\<dots> = env_loop name ?rest (env_start\<lparr>cur := length p + 2 + length l, count := length p\<rparr>)"
    using c by (simp add: loop_invalid loop_newline env_start_def)
  also have "?rest = (name @ CHR ''='' # v) @ newline # []" by simp
  also have "env_loop name \<dots> (env_start\<lparr>cur := length p + 2 + length l, count := length p\<rparr>) =
      env_start\<lparr>cur := length p + 2 + length l + length (name @ CHR ''='' # v) + 1, count := length p\<rparr>"
  proof (subst loop_skip)
    have "plain (name @ CHR ''='' # v)"
      using assms(3,10) by (auto simp: plain_def newline_def eof_byte_def)
    moreover have "hd (name @ CHR ''='' # v) = hd name" "hd name \<noteq> CHR ''=''"
      using assms(1,4) by (cases p; auto)+
    ultimately show "skipped name (count (env_start\<lparr>cur := length p + 2 + length l, count := length p\<rparr>))
        (name @ CHR ''='' # v)"
      using assms(1,6) by (simp add: skipped_def)
  qed (simp_all add: env_start_def)
  finally show ?thesis by (simp add: d_getenv_def Let_def env_start_def)
qed

theorem getenv_hidden_by_similar_key_witness:
  "d_getenv (Some (''TO'' @ CHR ''P'' # ''=1'' @ newline # ''TOKEN'' @ CHR ''='' # ''abc'' @ [newline])) ''TOKEN'' = Null"
  by (rule getenv_hidden_by_similar_key [where k = "CHR ''K''" and ns = "''EN''"])
    (simp_all add: plain_def newline_def eof_byte_def)

text \<open>A key that is a proper prefix of the name is taken for the name.\<close>

lemma getenv_accepts_prefix: "d_getenv (Some (''TOK=x'' @ [newline])) ''TOKEN'' = Value ''x''"
  using getenv_prefix_key [of "''TOK''" "''TOKEN''" "[]" "''x''" "[]"]
  by (simp add: plain_def newline_def eof_byte_def strnlen_def file_lines_def)

end
