(* ===== verification/Mem.thy ===== *)
theory Mem
  imports Complex_Main Disco_Prelude "HOL-Library.State_Monad"
begin

text \<open>
  The memory that the structures of \<open>src/discord\<close> live in. A pointer is NULL or names a block
  and what it holds; \<open>malloc\<close>, \<open>calloc\<close> and \<open>strndup\<close> take the next unused block number,
  \<open>free\<close> appends the block to the list of freed ones, and an access the C standard gives no
  meaning to (a NULL dereference, a structure used at another type) sets \<open>bad\<close>. The functions of
  the program run in the state monad over this memory. \<open>does\<close> is the logic for them: which
  blocks a computation takes, which it frees and what it returns; its rules are collected in
  \<open>does_intros\<close>. The locale \<open>owned_struct\<close> is the contract that a copy function and a
  destroy function keep together, with its consequences for single structures and arrays.
\<close>

section \<open>Blocks and pointers\<close>

datatype 'a ptr = Nul | Ptr (blk: nat) (target: 'a)

record mem =
  next_blk :: nat
  freed :: "nat list"
  bad :: bool

definition fresh_blk :: "(mem, nat) state" where
  "fresh_blk = State (\<lambda>m. (next_blk m, m\<lparr>next_blk := next_blk m + 1\<rparr>))"

definition free_blk :: "nat \<Rightarrow> (mem, unit) state" where
  "free_blk b = State (\<lambda>m. ((), m\<lparr>freed := freed m @ [b]\<rparr>))"

definition fault :: "(mem, unit) state" where
  "fault = State (\<lambda>m. ((), m\<lparr>bad := True\<rparr>))"

text \<open>\<open>if (p) free(p)\<close>; \<open>free(NULL)\<close> does the same.\<close>

definition free_ptr :: "'a ptr \<Rightarrow> (mem, unit) state" where
  "free_ptr p = (case p of Nul \<Rightarrow> State_Monad.return () | Ptr b _ \<Rightarrow> free_blk b)"

text \<open>\<open>if (src->s) c->s = strndup(src->s, k)\<close> after \<open>memcpy\<close>.\<close>

definition copy_str :: "nat \<Rightarrow> string ptr \<Rightarrow> (mem, string ptr) state" where
  "copy_str k p =
     (case p of Nul \<Rightarrow> State_Monad.return Nul
      | Ptr _ s \<Rightarrow> do { b \<leftarrow> fresh_blk; State_Monad.return (Ptr b (strndup s k)) })"

text \<open>
  An array of structures is a pointer to the list of its element pointers; its count is the length
  of the list. A copy allocates a new array when the count is positive and otherwise keeps the
  pointer that \<open>memcpy\<close> brought along.
\<close>

definition copy_array :: "('a ptr \<Rightarrow> (mem, 'b ptr) state) \<Rightarrow> 'a ptr list ptr \<Rightarrow> (mem, 'b ptr list ptr) state" where
  "copy_array f p =
     (case p of Nul \<Rightarrow> State_Monad.return Nul
      | Ptr b xs \<Rightarrow>
          if xs = [] then State_Monad.return (Ptr b [])
          else do { a \<leftarrow> fresh_blk; ys \<leftarrow> State_Monad.traverse_list f xs; State_Monad.return (Ptr a ys) })"

text \<open>An array of numbers.\<close>

definition copy_ids :: "u64 list ptr \<Rightarrow> (mem, u64 list ptr) state" where
  "copy_ids p =
     (case p of Nul \<Rightarrow> State_Monad.return Nul
      | Ptr b xs \<Rightarrow>
          if xs = [] then State_Monad.return (Ptr b [])
          else do { a \<leftarrow> fresh_blk; State_Monad.return (Ptr a xs) })"

fun each :: "('a \<Rightarrow> (mem, unit) state) \<Rightarrow> 'a list \<Rightarrow> (mem, unit) state" where
  "each f [] = State_Monad.return ()"
| "each f (x # xs) = do { _ \<leftarrow> f x; each f xs }"

text \<open>\<open>for (i < count) destroy(arr[i]); if (arr) free(arr)\<close>.\<close>

definition destroy_array :: "('a ptr \<Rightarrow> (mem, unit) state) \<Rightarrow> 'a ptr list ptr \<Rightarrow> (mem, unit) state" where
  "destroy_array f p =
     (case p of Nul \<Rightarrow> State_Monad.return ()
      | Ptr b xs \<Rightarrow> do { _ \<leftarrow> each f xs; free_blk b })"

text \<open>\<open>if (p) destroy(p)\<close>.\<close>

definition when_ptr :: "('a ptr \<Rightarrow> (mem, unit) state) \<Rightarrow> 'a ptr \<Rightarrow> (mem, unit) state" where
  "when_ptr f p = (case p of Nul \<Rightarrow> State_Monad.return () | Ptr _ _ \<Rightarrow> f p)"

section \<open>What a computation does to the memory\<close>

text \<open>
  \<open>does c P\<close>: from every memory, \<open>c\<close> returns some \<open>y\<close>, takes the unused blocks \<open>bs\<close>
  (the next ones, in some order), frees \<open>fs\<close> and nothing else, meets no fault, and \<open>P y bs fs\<close>.
\<close>

definition does :: "(mem, 'a) state \<Rightarrow> ('a \<Rightarrow> nat list \<Rightarrow> nat list \<Rightarrow> bool) \<Rightarrow> bool" where
  "does c P \<longleftrightarrow>
     (\<forall>m. \<exists>y bs fs. run_state c m = (y, m\<lparr>next_blk := next_blk m + length bs, freed := freed m @ fs\<rparr>) \<and>
        mset bs = mset [next_blk m ..< next_blk m + length bs] \<and> P y bs fs)"

named_theorems does_intros \<open>rules for the logic of memory effects\<close>

lemma doesE:
  assumes "does c P"
  obtains y bs fs where
    "run_state c m = (y, m\<lparr>next_blk := next_blk m + length bs, freed := freed m @ fs\<rparr>)"
    "mset bs = mset [next_blk m ..< next_blk m + length bs]" "P y bs fs"
  using assms unfolding does_def by blast

lemma does_seq:
  assumes c: "does c P" and f: "\<And>y bs fs. P y bs fs \<Longrightarrow> does (f y) (\<lambda>z bs' fs'. R z (bs @ bs') (fs @ fs'))"
  shows "does (State_Monad.bind c f) R"
  unfolding does_def
proof
  fix m :: mem
  obtain y bs fs where c1: "run_state c m = (y, m\<lparr>next_blk := next_blk m + length bs, freed := freed m @ fs\<rparr>)"
      "mset bs = mset [next_blk m ..< next_blk m + length bs]" "P y bs fs"
    using c by (rule doesE)
  let ?m1 = "m\<lparr>next_blk := next_blk m + length bs, freed := freed m @ fs\<rparr>"
  obtain z bs' fs' where f1: "run_state (f y) ?m1 =
        (z, ?m1\<lparr>next_blk := next_blk ?m1 + length bs', freed := freed ?m1 @ fs'\<rparr>)"
      "mset bs' = mset [next_blk ?m1 ..< next_blk ?m1 + length bs']" "R z (bs @ bs') (fs @ fs')"
    using f [OF c1(3)] by (rule doesE)
  have "[next_blk m ..< next_blk m + length (bs @ bs')] =
      [next_blk m ..< next_blk m + length bs] @ [next_blk m + length bs ..< next_blk m + length bs + length bs']"
    using upt_add_eq_append [of "next_blk m" "next_blk m + length bs" "length bs'"]
    by (simp add: add.assoc)
  then show "\<exists>y bs fs. run_state (State_Monad.bind c f) m =
      (y, m\<lparr>next_blk := next_blk m + length bs, freed := freed m @ fs\<rparr>) \<and>
      mset bs = mset [next_blk m ..< next_blk m + length bs] \<and> R y bs fs"
    using c1(1,2) f1 by (intro exI [of _ z] exI [of _ "bs @ bs'"] exI [of _ "fs @ fs'"]) simp
qed

lemma does_bind [does_intros]:
  "does c (\<lambda>y bs fs. does (f y) (\<lambda>z bs' fs'. R z (bs @ bs') (fs @ fs'))) \<Longrightarrow>
   does (State_Monad.bind c f) R"
  by (rule does_seq)

lemma does_return [does_intros]: "P y [] [] \<Longrightarrow> does (State_Monad.return y) P"
  unfolding does_def by (intro allI exI [of _ y] exI [of _ "[]"]) simp

lemma does_weaken: "does c P \<Longrightarrow> (\<And>y bs fs. P y bs fs \<Longrightarrow> Q y bs fs) \<Longrightarrow> does c Q"
  unfolding does_def by meson

lemma does_fresh [does_intros]:
  assumes "\<And>b. P b [b] []"
  shows "does fresh_blk P"
  unfolding does_def
proof
  fix m :: mem
  show "\<exists>y bs fs. run_state fresh_blk m = (y, m\<lparr>next_blk := next_blk m + length bs, freed := freed m @ fs\<rparr>) \<and>
      mset bs = mset [next_blk m ..< next_blk m + length bs] \<and> P y bs fs"
    using assms by (intro exI [of _ "next_blk m"] exI [of _ "[next_blk m]"] exI [of _ "[]"])
      (simp add: fresh_blk_def)
qed

lemma does_free [does_intros]:
  assumes "P () [] [b]"
  shows "does (free_blk b) P"
  unfolding does_def using assms
  by (intro allI exI [of _ "()"] exI [of _ "[]"] exI [of _ "[b]"]) (simp add: free_blk_def)

lemma does_if: "(c \<Longrightarrow> does x P) \<Longrightarrow> (\<not> c \<Longrightarrow> does y P) \<Longrightarrow> does (if c then x else y) P"
  by simp

definition blk_of :: "'a ptr \<Rightarrow> nat list" where
  "blk_of p = (case p of Nul \<Rightarrow> [] | Ptr b _ \<Rightarrow> [b])"

lemma blk_of_simps [simp]: "blk_of Nul = []" "blk_of (Ptr b x) = [b]"
  by (simp_all add: blk_of_def)

lemma does_free_ptr [does_intros]: "P () [] (blk_of p) \<Longrightarrow> does (free_ptr p) P"
  by (cases p) (auto simp: free_ptr_def intro!: does_intros)

lemma does_free_if:
  "P () [] (if c then blk_of p else []) \<Longrightarrow> does (if c then free_ptr p else State_Monad.return ()) P"
  by (cases c) (auto intro!: does_intros)

lemma does_when_ptr: "(p = Nul \<Longrightarrow> P () [] []) \<Longrightarrow> (p \<noteq> Nul \<Longrightarrow> does (f p) P) \<Longrightarrow> does (when_ptr f p) P"
  by (cases p) (auto simp: when_ptr_def intro!: does_intros)

text \<open>The contents of a pointer, forgetting the block.\<close>

definition erase :: "'a ptr \<Rightarrow> 'a ptr" where
  "erase p = (case p of Nul \<Rightarrow> Nul | Ptr _ x \<Rightarrow> Ptr 0 x)"

definition fits :: "nat \<Rightarrow> string ptr \<Rightarrow> bool" where
  "fits k p = (case p of Nul \<Rightarrow> True | Ptr _ s \<Rightarrow> length s \<le> k)"

lemma does_copy_str [does_intros]:
  assumes "\<And>q. (fits k p \<longrightarrow> erase q = erase p) \<Longrightarrow> (q = Nul \<longleftrightarrow> p = Nul) \<Longrightarrow> P q (blk_of q) []"
  shows "does (copy_str k p) P"
proof (cases p)
  case Nul
  with assms [of Nul] show ?thesis by (auto simp: copy_str_def intro!: does_intros)
next
  case (Ptr b s)
  have "P (Ptr a (strndup s k)) [a] []" for a
    using assms [of "Ptr a (strndup s k)"] by (simp add: Ptr fits_def erase_def)
  then show ?thesis by (auto simp: copy_str_def Ptr intro!: does_intros)
qed

section \<open>Arrays\<close>

definition arr_blocks :: "('a ptr \<Rightarrow> nat list) \<Rightarrow> 'a ptr list ptr \<Rightarrow> nat list" where
  "arr_blocks B p = (case p of Nul \<Rightarrow> [] | Ptr b xs \<Rightarrow> b # concat (map B xs))"

definition arr_ok :: "('a ptr \<Rightarrow> bool) \<Rightarrow> 'a ptr list ptr \<Rightarrow> bool" where
  "arr_ok W p = (case p of Nul \<Rightarrow> True | Ptr b xs \<Rightarrow> xs \<noteq> [] \<and> (\<forall>x \<in> set xs. x \<noteq> Nul \<and> W x))"

definition arr_content :: "('a ptr \<Rightarrow> 'c) \<Rightarrow> 'a ptr list ptr \<Rightarrow> 'c list option" where
  "arr_content C p = (case p of Nul \<Rightarrow> None | Ptr _ xs \<Rightarrow> Some (map C xs))"

definition arr_all :: "('a ptr \<Rightarrow> bool) \<Rightarrow> 'a ptr list ptr \<Rightarrow> bool" where
  "arr_all F p = (case p of Nul \<Rightarrow> True | Ptr _ xs \<Rightarrow> list_all F xs)"

definition ids_ok :: "u64 list ptr \<Rightarrow> bool" where
  "ids_ok p = (case p of Nul \<Rightarrow> True | Ptr _ xs \<Rightarrow> xs \<noteq> [])"

lemma does_copy_ids [does_intros]:
  assumes "ids_ok p" and "\<And>q. ids_ok q \<Longrightarrow> erase q = erase p \<Longrightarrow> P q (blk_of q) []"
  shows "does (copy_ids p) P"
proof (cases p)
  case Nul
  with assms(2) [of Nul] show ?thesis by (auto simp: copy_ids_def ids_ok_def intro!: does_intros)
next
  case (Ptr b xs)
  have "P (Ptr a xs) [a] []" for a
    using assms(2) [of "Ptr a xs"] assms(1) by (simp add: Ptr ids_ok_def erase_def)
  then show ?thesis using assms(1) by (auto simp: copy_ids_def Ptr ids_ok_def intro!: does_intros)
qed

lemma concat_map_Nil [simp]: "concat (map (\<lambda>_. []) xs) = []"
  by (induction xs) simp_all

lemma does_each:
  assumes "\<And>x. x \<in> set xs \<Longrightarrow> does (f x) (\<lambda>_ bs fs. bs = [] \<and> mset fs = mset (B x))"
  shows "does (each f xs) (\<lambda>_ bs fs. bs = [] \<and> mset fs = mset (concat (map B xs)))"
  using assms
proof (induction xs)
  case Nil
  show ?case by (auto intro!: does_intros)
next
  case (Cons x xs)
  have "does (f x) (\<lambda>_ bs fs. bs = [] \<and> mset fs = mset (B x))" using Cons.prems by simp
  moreover have "does (each f xs) (\<lambda>_ bs fs. bs = [] \<and> mset fs = mset (concat (map B xs)))"
    using Cons by simp
  ultimately show ?case
    by (auto intro!: does_bind elim!: does_weaken)
qed

lemma does_traverse:
  assumes "\<And>x. x \<in> set xs \<Longrightarrow> does (f x) (\<lambda>y bs fs. mset bs = mset (B y) \<and> fs = [] \<and> Q x y)"
  shows "does (State_Monad.traverse_list f xs)
    (\<lambda>ys bs fs. mset bs = mset (concat (map B ys)) \<and> fs = [] \<and> list_all2 Q xs ys)"
  using assms
proof (induction xs)
  case Nil
  show ?case by (auto intro!: does_intros)
next
  case (Cons x xs)
  have "does (f x) (\<lambda>y bs fs. mset bs = mset (B y) \<and> fs = [] \<and> Q x y)" using Cons.prems by simp
  moreover have "does (State_Monad.traverse_list f xs)
      (\<lambda>ys bs fs. mset bs = mset (concat (map B ys)) \<and> fs = [] \<and> list_all2 Q xs ys)"
    using Cons by simp
  ultimately show ?case
    by (auto intro!: does_bind does_return elim!: does_weaken)
qed

section \<open>The contract of copy and destroy\<close>

text \<open>
  \<open>wf\<close> holds of the structures the program builds, \<open>blocks\<close> are all blocks a structure owns,
  \<open>content\<close> is what it says, forgetting the blocks, and \<open>small\<close> that its strings are within the
  limits of the copy. A copy consists of new blocks only, and destroying a structure frees each of
  its blocks exactly once.
\<close>

locale owned_struct =
  fixes wf :: "'a ptr \<Rightarrow> bool"
    and blocks :: "'a ptr \<Rightarrow> nat list"
    and content :: "'a ptr \<Rightarrow> 'c"
    and small :: "'a ptr \<Rightarrow> bool"
    and copy :: "'a ptr \<Rightarrow> (mem, 'a ptr) state"
    and destroy :: "'a ptr \<Rightarrow> (mem, unit) state"
  assumes blocks_Nul: "blocks Nul = []"
    and copy_does: "wf p \<Longrightarrow> does (copy p) (\<lambda>q bs fs. mset bs = mset (blocks q) \<and> fs = [] \<and>
      wf q \<and> (q = Nul \<longleftrightarrow> p = Nul) \<and> (small p \<longrightarrow> content q = content p))"
    and destroy_does: "wf p \<Longrightarrow> p \<noteq> Nul \<Longrightarrow>
      does (destroy p) (\<lambda>_ bs fs. bs = [] \<and> mset fs = mset (blocks p))"
begin

lemma copy_rule:
  assumes "wf p" and "\<And>q bs. mset bs = mset (blocks q) \<Longrightarrow> wf q \<Longrightarrow> (q = Nul \<longleftrightarrow> p = Nul) \<Longrightarrow>
    (small p \<longrightarrow> content q = content p) \<Longrightarrow> P q bs []"
  shows "does (copy p) P"
  using copy_does [OF assms(1)] by (rule does_weaken) (use assms(2) in blast)

lemma destroy_rule:
  assumes "wf p" and "\<And>fs. mset fs = mset (blocks p) \<Longrightarrow> P () [] fs"
  shows "does (when_ptr destroy p) P"
proof (rule does_when_ptr)
  show "P () [] []" if "p = Nul" using assms(2) [of "[]"] that by (simp add: blocks_Nul)
  show "does (destroy p) P" if "p \<noteq> Nul"
    using destroy_does [OF assms(1) that] by (rule does_weaken) (use assms(2) in auto)
qed

lemma copy_array_rule:
  assumes ok: "arr_ok wf p"
    and P: "\<And>q bs. mset bs = mset (arr_blocks blocks q) \<Longrightarrow> arr_ok wf q \<Longrightarrow>
      (q = Nul \<longleftrightarrow> p = Nul) \<Longrightarrow>
      (arr_all small p \<longrightarrow> arr_content content q = arr_content content p) \<Longrightarrow> P q bs []"
  shows "does (copy_array copy p) P"
proof (cases p)
  case Nul
  with P [of "[]" Nul] show ?thesis
    by (auto simp: copy_array_def arr_blocks_def arr_ok_def intro!: does_intros)
next
  case (Ptr b xs)
  let ?Q = "\<lambda>x y. wf y \<and> y \<noteq> Nul \<and> (small x \<longrightarrow> content y = content x)"
  have xs: "xs \<noteq> []" "\<And>x. x \<in> set xs \<Longrightarrow> wf x \<and> x \<noteq> Nul" using ok by (auto simp: Ptr arr_ok_def)
  have "does (State_Monad.traverse_list copy xs)
      (\<lambda>ys bs fs. mset bs = mset (concat (map blocks ys)) \<and> fs = [] \<and> list_all2 ?Q xs ys)"
    by (rule does_traverse, rule does_weaken [OF copy_does]) (use xs(2) in auto)
  moreover have "P (Ptr a ys) (a # bs @ []) []"
    if "mset bs = mset (concat (map blocks ys))" "list_all2 ?Q xs ys" for a ys bs
  proof (rule P)
    have len: "length ys = length xs" using that(2) by (simp add: list_all2_lengthD)
    have ys: "\<forall>y \<in> set ys. y \<noteq> Nul \<and> wf y" using that(2) by (auto simp: list_all2_conv_all_nth in_set_conv_nth)
    show "arr_ok wf (Ptr a ys)" using len xs(1) ys by (auto simp: arr_ok_def)
    show "arr_all small p \<longrightarrow> arr_content content (Ptr a ys) = arr_content content p"
      using that(2) by (auto simp: Ptr arr_all_def arr_content_def list_all2_conv_all_nth list_all_length
          intro!: nth_equalityI)
  qed (use that(1) in \<open>simp_all add: arr_blocks_def Ptr\<close>)
  ultimately show ?thesis
    using xs(1) by (auto simp: copy_array_def Ptr intro!: does_intros elim!: does_weaken)
qed

lemma destroy_array_rule:
  assumes ok: "arr_ok wf p" and P: "\<And>fs. mset fs = mset (arr_blocks blocks p) \<Longrightarrow> P () [] fs"
  shows "does (destroy_array destroy p) P"
proof (cases p)
  case Nul
  with P [of "[]"] show ?thesis
    by (auto simp: destroy_array_def arr_blocks_def intro!: does_intros)
next
  case (Ptr b xs)
  have "does (each destroy xs) (\<lambda>_ bs fs. bs = [] \<and> mset fs = mset (concat (map blocks xs)))"
    by (rule does_each, rule does_weaken [OF destroy_does]) (use ok in \<open>auto simp: Ptr arr_ok_def\<close>)
  then show ?thesis
    using P by (auto simp: destroy_array_def Ptr arr_blocks_def intro!: does_intros elim!: does_weaken)
qed

text \<open>Destroying a copy frees exactly the blocks the copy took, each once.\<close>

lemma copy_destroy:
  assumes "wf p" and "p \<noteq> Nul" and "run_state (copy p) m = (q, m1)" and "run_state (destroy q) m1 = (u, m2)"
  shows "bad m2 = bad m \<and> (\<exists>fs. freed m2 = freed m @ fs \<and> mset fs = mset [next_blk m ..< next_blk m1]) \<and>
    next_blk m2 = next_blk m1"
proof -
  obtain bs where q: "m1 = m\<lparr>next_blk := next_blk m + length bs, freed := freed m\<rparr>"
      "mset bs = mset [next_blk m ..< next_blk m + length bs]" "mset bs = mset (blocks q)" "wf q" "q \<noteq> Nul"
    using copy_does [OF assms(1), THEN doesE, of m] assms(2,3) by auto
  obtain fs where fs: "m2 = m1\<lparr>next_blk := next_blk m1, freed := freed m1 @ fs\<rparr>" "mset fs = mset (blocks q)"
    using destroy_does [OF q(4,5), THEN doesE, of m1] assms(4) by auto
  show ?thesis using q(1-3) fs by simp
qed

end

end
