(* ===== verification/Json_Access.thy ===== *)
theory Json_Access
  imports Mem
begin

text \<open>
  The JSON accessors of \<open>src/discord/disco.c\<close>. cJSON is not part of the repository: the functions
  and fields of it that the program reads are the parameter \<open>J\<close>, a record over an abstract type
  of documents, and \<open>json_laws\<close> states what cJSON documents of them. A \<open>cJSON *\<close> is an option,
  \<open>None\<close> being NULL. cJSON refuses to parse documents nested deeper than \<open>CJSON_NESTING_LIMIT\<close>
  (1000), so the recursive readers built on these accessors take a depth as fuel.
\<close>

section \<open>The interface of cJSON\<close>

record 'j cjson =
  get_object_item :: "'j option \<Rightarrow> string \<Rightarrow> 'j option"
  is_string :: "'j option \<Rightarrow> bool"
  is_number :: "'j option \<Rightarrow> bool"
  is_bool :: "'j option \<Rightarrow> bool"
  is_null :: "'j option \<Rightarrow> bool"
  valuestring :: "'j \<Rightarrow> string option"
  valueint :: "'j \<Rightarrow> int"
  valuedouble :: "'j \<Rightarrow> rat"
  json_children :: "'j \<Rightarrow> 'j list"

text \<open>
  What \<open>request.c\<close> and \<open>gateway.c\<close> use besides: \<open>cJSON_Parse\<close>, the type tests of containers and
  the case-sensitive look-up.
\<close>

record 'j json_lib =
  parse_json :: "string \<Rightarrow> 'j option"
  is_array :: "'j option \<Rightarrow> bool"
  is_object :: "'j option \<Rightarrow> bool"
  item_cs :: "'j option \<Rightarrow> string \<Rightarrow> 'j option"
  access :: "'j cjson"

text \<open>The items \<open>cJSON_ArrayForEach\<close> visits; \<open>cJSON_GetArraySize\<close> is their number, 0 for NULL.\<close>

definition json_items :: "'j cjson \<Rightarrow> 'j option \<Rightarrow> 'j list" where
  "json_items J d = (case d of None \<Rightarrow> [] | Some j \<Rightarrow> json_children J j)"

definition json_laws :: "'j cjson \<Rightarrow> bool" where
  "json_laws J \<longleftrightarrow>
     (\<forall>name. get_object_item J None name = None) \<and>
     \<not> is_string J None \<and> \<not> is_number J None \<and> \<not> is_bool J None \<and> \<not> is_null J None \<and>
     (\<forall>j. is_string J (Some j) \<longrightarrow> valuestring J j \<noteq> None \<and> \<not> is_number J (Some j)) \<and>
     (\<forall>j name f. get_object_item J (Some j) name = Some f \<longrightarrow> f \<in> set (json_children J j))"

text \<open>A document nested less than \<open>k\<close> levels deep.\<close>

fun json_depth :: "'j cjson \<Rightarrow> nat \<Rightarrow> 'j \<Rightarrow> bool" where
  "json_depth J 0 j \<longleftrightarrow> False"
| "json_depth J (Suc k) j \<longleftrightarrow> list_all (json_depth J k) (json_children J j)"

section \<open>The code\<close>

definition get_string_from_json :: "'j cjson \<Rightarrow> 'j option \<Rightarrow> string \<Rightarrow> (mem, string ptr) state" where
  "get_string_from_json J data name =
     (case get_object_item J data name of
        None \<Rightarrow> State_Monad.return Nul
      | Some f \<Rightarrow>
          if \<not> is_string J (Some f) then State_Monad.return Nul
          else case valuestring J f of
                 None \<Rightarrow> do { _ \<leftarrow> fault; State_Monad.return Nul }
               | Some s \<Rightarrow> do { b \<leftarrow> fresh_blk; State_Monad.return (Ptr b (strndup s 4097)) })"

definition get_bool_from_json :: "'j cjson \<Rightarrow> 'j option \<Rightarrow> string \<Rightarrow> bool \<Rightarrow> bool" where
  "get_bool_from_json J data name dflt =
     (case get_object_item J data name of
        None \<Rightarrow> dflt
      | Some f \<Rightarrow> if \<not> is_bool J (Some f) then dflt else valueint J f \<noteq> 0)"

definition get_int_from_json :: "'j cjson \<Rightarrow> 'j option \<Rightarrow> string \<Rightarrow> int \<Rightarrow> int" where
  "get_int_from_json J data name dflt =
     (case get_object_item J data name of
        None \<Rightarrow> dflt
      | Some f \<Rightarrow> if \<not> is_number J (Some f) then dflt else valueint J f)"

definition get_array_from_json ::
  "'j cjson \<Rightarrow> 'j option \<Rightarrow> string \<Rightarrow> ('j option \<Rightarrow> (mem, 'a ptr) state) \<Rightarrow> (mem, 'a ptr list ptr) state" where
  "get_array_from_json J data name func =
     (let items = json_items J (get_object_item J data name)
      in if items = [] then State_Monad.return Nul
         else do { a \<leftarrow> fresh_blk;
                   xs \<leftarrow> State_Monad.traverse_list (\<lambda>j. func (Some j)) items;
                   State_Monad.return (Ptr a xs) })"

text \<open>The conversion of a double to \<open>uint64_t\<close> cuts off the fraction.\<close>

definition u64_of_double :: "rat \<Rightarrow> u64" where
  "u64_of_double d = word_of_int (if d < 0 then \<lceil>d\<rceil> else \<lfloor>d\<rfloor>)"

definition get_long_from_string_json :: "'j cjson \<Rightarrow> 'j option \<Rightarrow> string \<Rightarrow> u64 \<Rightarrow> u64" where
  "get_long_from_string_json J data name dflt =
     (case get_object_item J data name of
        None \<Rightarrow> dflt
      | Some f \<Rightarrow>
          if is_number J (Some f) then u64_of_double (valuedouble J f)
          else if \<not> is_string J (Some f) then dflt
          else case valuestring J f of None \<Rightarrow> dflt | Some s \<Rightarrow> strtoull10 s)"

definition get_double_from_string_json :: "'j cjson \<Rightarrow> 'j option \<Rightarrow> string \<Rightarrow> rat \<Rightarrow> rat" where
  "get_double_from_string_json J data name dflt =
     (case get_object_item J data name of
        None \<Rightarrow> dflt
      | Some f \<Rightarrow> if \<not> is_number J (Some f) then dflt else valuedouble J f)"

text \<open>Reading an array of ID strings: \<open>strtoull(cur->valuestring, NULL, 10)\<close> for every item.\<close>

definition id_of_item :: "'j cjson \<Rightarrow> 'j \<Rightarrow> (mem, u64) state" where
  "id_of_item J j =
     (case valuestring J j of
        None \<Rightarrow> do { _ \<leftarrow> fault; State_Monad.return 0 }
      | Some s \<Rightarrow> State_Monad.return (strtoull10 s))"

definition get_ids_from_json :: "'j cjson \<Rightarrow> 'j option \<Rightarrow> string \<Rightarrow> (mem, u64 list ptr) state" where
  "get_ids_from_json J data name =
     (let items = json_items J (get_object_item J data name)
      in if items = [] then State_Monad.return Nul
         else do { a \<leftarrow> fresh_blk;
                   ids \<leftarrow> State_Monad.traverse_list (id_of_item J) items;
                   State_Monad.return (Ptr a ids) })"

definition nesting_limit :: nat where "nesting_limit = 1000"

section \<open>What the accessors do\<close>

lemma json_depth_Suc: "json_depth J k j \<Longrightarrow> json_depth J (Suc k) j"
proof (induction k arbitrary: j)
  case (Suc k)
  then show ?case by (auto simp: list_all_iff)
qed simp

lemma json_depth_mono: "json_depth J k j \<Longrightarrow> k \<le> l \<Longrightarrow> json_depth J l j"
proof (induction l)
  case (Suc l)
  then show ?case using json_depth_Suc [of J l j] by (cases "k = Suc l") auto
qed simp

lemma json_depth_item:
  "json_laws J \<Longrightarrow> json_depth J (Suc k) j \<Longrightarrow> get_object_item J (Some j) name = Some f \<Longrightarrow> json_depth J k f"
  by (auto simp: json_laws_def list_all_iff)

lemma json_depth_items:
  "json_laws J \<Longrightarrow> json_depth J (Suc k) j \<Longrightarrow>
   x \<in> set (json_items J (get_object_item J (Some j) name)) \<Longrightarrow> json_depth J k x"
proof -
  assume a: "json_laws J" "json_depth J (Suc k) j" "x \<in> set (json_items J (get_object_item J (Some j) name))"
  then obtain f where f: "get_object_item J (Some j) name = Some f" "x \<in> set (json_children J f)"
    by (cases "get_object_item J (Some j) name") (auto simp: json_items_def)
  from json_depth_item [OF a(1,2) f(1)] obtain l where l: "k = Suc l" "json_depth J k f"
    by (cases k) auto
  then have "json_depth J l x" using f(2) by (auto simp: list_all_iff)
  then show ?thesis unfolding l(1) by (rule json_depth_Suc)
qed

lemma does_get_string [does_intros]:
  assumes "json_laws J" and "\<And>q. P q (blk_of q) []"
  shows "does (get_string_from_json J data name) P"
proof (cases "get_object_item J data name")
  case None
  with assms(2) [of Nul] show ?thesis by (auto simp: get_string_from_json_def intro!: does_intros)
next
  case (Some f)
  show ?thesis
  proof (cases "is_string J (Some f)")
    case True
    with assms(1) obtain s where "valuestring J f = Some s" by (auto simp: json_laws_def)
    moreover have "P (Ptr a (strndup s 4097)) [a] []" for a
      using assms(2) [of "Ptr a (strndup s 4097)"] by simp
    ultimately show ?thesis using Some True by (auto simp: get_string_from_json_def intro!: does_intros)
  next
    case False
    with Some assms(2) [of Nul] show ?thesis
      by (auto simp: get_string_from_json_def intro!: does_intros)
  qed
qed

text \<open>The elements of an array that was read are what \<open>func\<close> returned for the items, in order.\<close>

lemma does_get_array:
  assumes "\<And>j. j \<in> set (json_items J (get_object_item J data name)) \<Longrightarrow>
      does (func (Some j)) (\<lambda>y bs fs. mset bs = mset (B y) \<and> fs = [] \<and> Q y)"
    and "\<And>q bs. mset bs = mset (arr_blocks B q) \<Longrightarrow>
      (q = Nul \<longleftrightarrow> json_items J (get_object_item J data name) = []) \<Longrightarrow>
      (case q of Nul \<Rightarrow> True | Ptr _ xs \<Rightarrow>
         length xs = length (json_items J (get_object_item J data name)) \<and> list_all Q xs) \<Longrightarrow> P q bs []"
  shows "does (get_array_from_json J data name func) P"
proof (cases "json_items J (get_object_item J data name) = []")
  case True
  with assms(2) [of "[]" Nul] show ?thesis
    by (auto simp: get_array_from_json_def arr_blocks_def intro!: does_intros)
next
  case False
  let ?items = "json_items J (get_object_item J data name)"
  have t: "does (State_Monad.traverse_list (\<lambda>j. func (Some j)) ?items)
      (\<lambda>ys bs fs. mset bs = mset (concat (map B ys)) \<and> fs = [] \<and> list_all2 (\<lambda>j y. Q y) ?items ys)"
    by (rule does_traverse) (rule assms(1))
  have "P (Ptr a xs) (a # bs) []"
    if "mset bs = mset (concat (map B xs))" "list_all2 (\<lambda>j y. Q y) ?items xs" for a xs bs
  proof (rule assms(2))
    show "case Ptr a xs of Nul \<Rightarrow> True | Ptr _ xs \<Rightarrow> length xs = length ?items \<and> list_all Q xs"
      using that(2) by (simp add: list_all2_conv_all_nth list_all_length)
  qed (use that(1) False in \<open>simp_all add: arr_blocks_def\<close>)
  with t False show ?thesis
    by (auto simp: get_array_from_json_def intro!: does_intros elim!: does_weaken)
qed

text \<open>An ID printed in decimal and read back from a JSON string is the ID.\<close>

lemma get_long_of_shown_id:
  "json_laws J \<Longrightarrow> get_object_item J data name = Some f \<Longrightarrow> is_string J (Some f) \<Longrightarrow>
   valuestring J f = Some (show_u64 i) \<Longrightarrow> get_long_from_string_json J data name d = i"
  by (simp add: get_long_from_string_json_def json_laws_def)

section \<open>A small instance\<close>

text \<open>A document type for the witnesses, with the fields cJSON keeps.\<close>

datatype jval = JNull | JBool bool | JNum rat | JStr string | JArr "jval list" | JObj "(string \<times> jval) list"

definition small_json :: "jval cjson" where
  "small_json =
     \<lparr>get_object_item = (\<lambda>d name. case d of Some (JObj kvs) \<Rightarrow> map_of kvs name | _ \<Rightarrow> None),
      is_string = (\<lambda>d. case d of Some (JStr _) \<Rightarrow> True | _ \<Rightarrow> False),
      is_number = (\<lambda>d. case d of Some (JNum _) \<Rightarrow> True | _ \<Rightarrow> False),
      is_bool = (\<lambda>d. case d of Some (JBool _) \<Rightarrow> True | _ \<Rightarrow> False),
      is_null = (\<lambda>d. case d of Some JNull \<Rightarrow> True | _ \<Rightarrow> False),
      valuestring = (\<lambda>j. case j of JStr s \<Rightarrow> Some s | _ \<Rightarrow> None),
      valueint = (\<lambda>j. case j of JNum q \<Rightarrow> \<lfloor>q\<rfloor> | JBool b \<Rightarrow> (if b then 1 else 0) | _ \<Rightarrow> 0),
      valuedouble = (\<lambda>j. case j of JNum q \<Rightarrow> q | _ \<Rightarrow> 0),
      json_children = (\<lambda>j. case j of JArr js \<Rightarrow> js | JObj kvs \<Rightarrow> map snd kvs | _ \<Rightarrow> [])\<rparr>"

lemma small_json_laws: "json_laws small_json"
  by (auto simp: json_laws_def small_json_def split: jval.splits)
    (metis map_of_SomeD snd_conv image_eqI)

text \<open>Its functions evaluated, and the accessors on it.\<close>

lemma small_json_simps [simp]:
  "get_object_item small_json None name = None"
  "get_object_item small_json (Some (JObj kvs)) name = map_of kvs name"
  "is_null small_json (Some v) \<longleftrightarrow> v = JNull" "is_null small_json None \<longleftrightarrow> False"
  "json_items small_json None = []"
  "json_items small_json (Some (JArr js)) = js"
  "json_items small_json (Some (JStr s)) = []"
  "json_children small_json (JArr js) = js" "json_children small_json (JObj kvs) = map snd kvs"
  "json_children small_json (JStr s) = []" "json_children small_json (JNum q) = []"
  "json_children small_json (JBool b) = []" "json_children small_json JNull = []"
  "valuestring small_json (JStr s) = Some s" "valueint small_json (JNum q) = \<lfloor>q\<rfloor>"
  by (auto simp: small_json_def json_items_def split: jval.splits)

lemma small_json_get [simp]:
  "get_string_from_json small_json (Some (JObj kvs)) name =
     (case map_of kvs name of
        Some (JStr s) \<Rightarrow> do { b \<leftarrow> fresh_blk; State_Monad.return (Ptr b (strndup s 4097)) }
      | _ \<Rightarrow> State_Monad.return Nul)"
  "get_bool_from_json small_json (Some (JObj kvs)) name d =
     (case map_of kvs name of Some (JBool b) \<Rightarrow> b | _ \<Rightarrow> d)"
  "get_int_from_json small_json (Some (JObj kvs)) name i =
     (case map_of kvs name of Some (JNum q) \<Rightarrow> \<lfloor>q\<rfloor> | _ \<Rightarrow> i)"
  "get_long_from_string_json small_json (Some (JObj kvs)) name l =
     (case map_of kvs name of Some (JNum q) \<Rightarrow> u64_of_double q | Some (JStr s) \<Rightarrow> strtoull10 s | _ \<Rightarrow> l)"
  by (auto simp: small_json_def get_string_from_json_def get_bool_from_json_def get_int_from_json_def
      get_long_from_string_json_def split: option.splits jval.splits)

end
