(* ===== verification/Structs.thy ===== *)
theory Structs
  imports Json_Access
begin

text \<open>
  The plain structures of \<open>src/discord\<close>: users and members (\<open>user.c\<close>), attachments
  (\<open>attachment.c\<close>), embeds with their parts (\<open>embed.c\<close>), and the structures whose files are
  stubs. Each has a record with the fields of the C structure, a reader from JSON, a copy
  function and a destroy function. For every structure whose copy and destroy keep the contract
  \<open>owned_struct\<close> there is an interpretation; the properties say what readers, copies and
  destroys do, and where the code breaks the contract.
\<close>

section \<open>Users (\<open>user.c\<close>)\<close>

record discord_user =
  us_id :: u64
  us_username :: "string ptr"
  us_discriminator :: "string ptr"
  us_avatar :: "string ptr"
  us_bot :: bool
  us_system :: bool
  us_mfa_enabled :: bool
  us_banner :: "string ptr"
  us_accent_color :: int
  us_locale :: "string ptr"
  us_verified :: bool
  us_email :: "string ptr"
  us_flags :: int
  us_premium_type :: int
  us_public_flags :: int

definition json_to_user :: "'j cjson \<Rightarrow> 'j option \<Rightarrow> (mem, discord_user ptr) state" where
  "json_to_user J data = do {
     b \<leftarrow> fresh_blk;
     username \<leftarrow> get_string_from_json J data ''username'';
     discriminator \<leftarrow> get_string_from_json J data ''discriminator'';
     avatar \<leftarrow> get_string_from_json J data ''avatar'';
     banner \<leftarrow> get_string_from_json J data ''banner'';
     locale1 \<leftarrow> get_string_from_json J data ''locale'';
     email \<leftarrow> get_string_from_json J data ''email'';
     State_Monad.return (Ptr b
       \<lparr>us_id = get_long_from_string_json J data ''id'' 0, us_username = username,
        us_discriminator = discriminator, us_avatar = avatar,
        us_bot = get_bool_from_json J data ''bot'' False,
        us_system = get_bool_from_json J data ''system'' False,
        us_mfa_enabled = get_bool_from_json J data ''mfa_enabled'' False, us_banner = banner,
        us_accent_color = get_int_from_json J data ''accent_color'' 0, us_locale = locale1,
        us_verified = get_bool_from_json J data ''verified'' False, us_email = email,
        us_flags = get_int_from_json J data ''flags'' 0,
        us_premium_type = get_int_from_json J data ''premium_type'' 0,
        us_public_flags = get_int_from_json J data ''public_flags'' 0\<rparr>) }"

definition copy_user :: "discord_user ptr \<Rightarrow> (mem, discord_user ptr) state" where
  "copy_user src =
     (case src of Nul \<Rightarrow> State_Monad.return Nul
      | Ptr _ u \<Rightarrow> do {
          b \<leftarrow> fresh_blk;
          username \<leftarrow> copy_str 50 (us_username u);
          discriminator \<leftarrow> copy_str 5 (us_discriminator u);
          avatar \<leftarrow> copy_str 100 (us_avatar u);
          banner \<leftarrow> copy_str 100 (us_banner u);
          locale1 \<leftarrow> copy_str 10 (us_locale u);
          email \<leftarrow> copy_str 100 (us_email u);
          State_Monad.return (Ptr b (u\<lparr>us_username := username, us_discriminator := discriminator,
            us_avatar := avatar, us_banner := banner, us_locale := locale1, us_email := email\<rparr>)) })"

definition destroy_user :: "discord_user ptr \<Rightarrow> (mem, unit) state" where
  "destroy_user p =
     (case p of Nul \<Rightarrow> fault
      | Ptr b u \<Rightarrow> do {
          _ \<leftarrow> free_ptr (us_username u);
          _ \<leftarrow> free_ptr (us_discriminator u);
          _ \<leftarrow> free_ptr (us_avatar u);
          _ \<leftarrow> free_ptr (us_banner u);
          _ \<leftarrow> free_ptr (us_locale u);
          _ \<leftarrow> free_ptr (us_email u);
          free_blk b })"

definition user_blocks :: "discord_user ptr \<Rightarrow> nat list" where
  "user_blocks p =
     (case p of Nul \<Rightarrow> []
      | Ptr b u \<Rightarrow> b # blk_of (us_username u) @ blk_of (us_discriminator u) @ blk_of (us_avatar u) @
          blk_of (us_banner u) @ blk_of (us_locale u) @ blk_of (us_email u))"

definition user_content :: "discord_user ptr \<Rightarrow> discord_user option" where
  "user_content p =
     (case p of Nul \<Rightarrow> None
      | Ptr _ u \<Rightarrow> Some (u\<lparr>us_username := erase (us_username u),
          us_discriminator := erase (us_discriminator u), us_avatar := erase (us_avatar u),
          us_banner := erase (us_banner u), us_locale := erase (us_locale u),
          us_email := erase (us_email u)\<rparr>))"

definition user_small :: "discord_user ptr \<Rightarrow> bool" where
  "user_small p =
     (case p of Nul \<Rightarrow> True
      | Ptr _ u \<Rightarrow> fits 50 (us_username u) \<and> fits 5 (us_discriminator u) \<and> fits 100 (us_avatar u) \<and>
          fits 100 (us_banner u) \<and> fits 10 (us_locale u) \<and> fits 100 (us_email u))"

lemma user_copy_does:
  "does (copy_user p) (\<lambda>q bs fs. mset bs = mset (user_blocks q) \<and> fs = [] \<and> True \<and>
     (q = Nul \<longleftrightarrow> p = Nul) \<and> (user_small p \<longrightarrow> user_content q = user_content p))"
proof (cases p)
  case Nul
  then show ?thesis by (auto simp: copy_user_def user_blocks_def intro!: does_intros)
next
  case (Ptr b u)
  show ?thesis
    unfolding Ptr copy_user_def ptr.case
    by (rule does_intros)+ (simp add: user_blocks_def user_content_def user_small_def)
qed

lemma user_destroy_does:
  "p \<noteq> Nul \<Longrightarrow> does (destroy_user p) (\<lambda>_ bs fs. bs = [] \<and> mset fs = mset (user_blocks p))"
  by (cases p) (auto simp: destroy_user_def user_blocks_def intro!: does_intros)

interpretation user: owned_struct "\<lambda>_. True" user_blocks user_content user_small copy_user destroy_user
  by unfold_locales (use user_copy_does user_destroy_does in \<open>auto simp: user_blocks_def\<close>)

lemma user_json_does:
  "json_laws J \<Longrightarrow>
   does (json_to_user J data) (\<lambda>q bs fs. mset bs = mset (user_blocks q) \<and> fs = [] \<and> q \<noteq> Nul)"
  unfolding json_to_user_def by (rule does_intros | assumption)+ (simp add: user_blocks_def)

section \<open>Attachments (\<open>attachment.c\<close>)\<close>

record discord_attachment =
  at_id :: u64
  at_filename :: "string ptr"
  at_description :: "string ptr"
  at_content_type :: "string ptr"
  at_size :: int
  at_url :: "string ptr"
  at_proxy_url :: "string ptr"
  at_height :: int
  at_width :: int
  at_ephemeral :: bool

definition json_to_attachment :: "'j cjson \<Rightarrow> 'j option \<Rightarrow> (mem, discord_attachment ptr) state" where
  "json_to_attachment J data = do {
     b \<leftarrow> fresh_blk;
     filename \<leftarrow> get_string_from_json J data ''filename'';
     description \<leftarrow> get_string_from_json J data ''description'';
     content_type \<leftarrow> get_string_from_json J data ''content_type'';
     url \<leftarrow> get_string_from_json J data ''url'';
     proxy_url \<leftarrow> get_string_from_json J data ''proxy_url'';
     State_Monad.return (Ptr b
       \<lparr>at_id = get_long_from_string_json J data ''id'' 0, at_filename = filename,
        at_description = description, at_content_type = content_type,
        at_size = get_int_from_json J data ''size'' (- 1), at_url = url, at_proxy_url = proxy_url,
        at_height = get_int_from_json J data ''height'' (- 1),
        at_width = get_int_from_json J data ''width'' (- 1),
        at_ephemeral = get_bool_from_json J data ''ephemeral'' False\<rparr>) }"

definition copy_attachment :: "discord_attachment ptr \<Rightarrow> (mem, discord_attachment ptr) state" where
  "copy_attachment src =
     (case src of Nul \<Rightarrow> State_Monad.return Nul
      | Ptr _ a \<Rightarrow> do {
          b \<leftarrow> fresh_blk;
          filename \<leftarrow> copy_str 100 (at_filename a);
          description \<leftarrow> copy_str 1025 (at_description a);
          content_type \<leftarrow> copy_str 50 (at_content_type a);
          url \<leftarrow> copy_str 2048 (at_url a);
          proxy_url \<leftarrow> copy_str 2048 (at_proxy_url a);
          State_Monad.return (Ptr b (a\<lparr>at_filename := filename, at_description := description,
            at_content_type := content_type, at_url := url, at_proxy_url := proxy_url\<rparr>)) })"

definition destroy_attachment :: "discord_attachment ptr \<Rightarrow> (mem, unit) state" where
  "destroy_attachment p =
     (case p of Nul \<Rightarrow> fault
      | Ptr b a \<Rightarrow> do {
          _ \<leftarrow> free_ptr (at_filename a);
          _ \<leftarrow> free_ptr (at_description a);
          _ \<leftarrow> free_ptr (at_content_type a);
          _ \<leftarrow> free_ptr (at_url a);
          _ \<leftarrow> free_ptr (at_proxy_url a);
          free_blk b })"

definition attachment_blocks :: "discord_attachment ptr \<Rightarrow> nat list" where
  "attachment_blocks p =
     (case p of Nul \<Rightarrow> []
      | Ptr b a \<Rightarrow> b # blk_of (at_filename a) @ blk_of (at_description a) @ blk_of (at_content_type a) @
          blk_of (at_url a) @ blk_of (at_proxy_url a))"

definition attachment_content :: "discord_attachment ptr \<Rightarrow> discord_attachment option" where
  "attachment_content p =
     (case p of Nul \<Rightarrow> None
      | Ptr _ a \<Rightarrow> Some (a\<lparr>at_filename := erase (at_filename a), at_description := erase (at_description a),
          at_content_type := erase (at_content_type a), at_url := erase (at_url a),
          at_proxy_url := erase (at_proxy_url a)\<rparr>))"

definition attachment_small :: "discord_attachment ptr \<Rightarrow> bool" where
  "attachment_small p =
     (case p of Nul \<Rightarrow> True
      | Ptr _ a \<Rightarrow> fits 100 (at_filename a) \<and> fits 1025 (at_description a) \<and>
          fits 50 (at_content_type a) \<and> fits 2048 (at_url a) \<and> fits 2048 (at_proxy_url a))"

lemma attachment_copy_does:
  "does (copy_attachment p) (\<lambda>q bs fs. mset bs = mset (attachment_blocks q) \<and> fs = [] \<and> True \<and>
     (q = Nul \<longleftrightarrow> p = Nul) \<and> (attachment_small p \<longrightarrow> attachment_content q = attachment_content p))"
proof (cases p)
  case Nul
  then show ?thesis by (auto simp: copy_attachment_def attachment_blocks_def intro!: does_intros)
next
  case (Ptr b a)
  show ?thesis
    unfolding Ptr copy_attachment_def ptr.case
    by (rule does_intros)+ (simp add: attachment_blocks_def attachment_content_def attachment_small_def)
qed

lemma attachment_destroy_does:
  "p \<noteq> Nul \<Longrightarrow> does (destroy_attachment p) (\<lambda>_ bs fs. bs = [] \<and> mset fs = mset (attachment_blocks p))"
  by (cases p) (auto simp: destroy_attachment_def attachment_blocks_def intro!: does_intros)

interpretation attachment: owned_struct "\<lambda>_. True" attachment_blocks attachment_content attachment_small
    copy_attachment destroy_attachment
  by unfold_locales (use attachment_copy_does attachment_destroy_does in \<open>auto simp: attachment_blocks_def\<close>)

lemma attachment_json_does:
  "json_laws J \<Longrightarrow>
   does (json_to_attachment J data) (\<lambda>q bs fs. mset bs = mset (attachment_blocks q) \<and> fs = [] \<and> q \<noteq> Nul)"
  unfolding json_to_attachment_def by (rule does_intros | assumption)+ (simp add: attachment_blocks_def)

section \<open>The parts of an embed (\<open>embed.c\<close>)\<close>

record discord_embed_footer =
  ef_text :: "string ptr"
  ef_icon_url :: "string ptr"
  ef_proxy_icon_url :: "string ptr"

definition json_to_embed_footer :: "'j cjson \<Rightarrow> 'j option \<Rightarrow> (mem, discord_embed_footer ptr) state" where
  "json_to_embed_footer J data = do {
     b \<leftarrow> fresh_blk;
     s_text \<leftarrow> get_string_from_json J data ''text'';
     s_icon_url \<leftarrow> get_string_from_json J data ''icon_url'';
     s_proxy_icon_url \<leftarrow> get_string_from_json J data ''proxy_icon_url'';
     State_Monad.return (Ptr b
       \<lparr>ef_text = s_text,
        ef_icon_url = s_icon_url,
        ef_proxy_icon_url = s_proxy_icon_url\<rparr>) }"

definition copy_embed_footer :: "discord_embed_footer ptr \<Rightarrow> (mem, discord_embed_footer ptr) state" where
  "copy_embed_footer src =
     (case src of Nul \<Rightarrow> State_Monad.return Nul
      | Ptr _ x \<Rightarrow> do {
          b \<leftarrow> fresh_blk;
          s_text \<leftarrow> copy_str 2050 (ef_text x);
          s_icon_url \<leftarrow> copy_str 2050 (ef_icon_url x);
          s_proxy_icon_url \<leftarrow> copy_str 2050 (ef_proxy_icon_url x);
          State_Monad.return (Ptr b (x\<lparr>ef_text := s_text, ef_icon_url := s_icon_url, ef_proxy_icon_url := s_proxy_icon_url\<rparr>)) })"

definition destroy_embed_footer :: "discord_embed_footer ptr \<Rightarrow> (mem, unit) state" where
  "destroy_embed_footer p =
     (case p of Nul \<Rightarrow> fault
      | Ptr b x \<Rightarrow> do {
          _ \<leftarrow> free_ptr (ef_text x);
          _ \<leftarrow> free_ptr (ef_icon_url x);
          _ \<leftarrow> free_ptr (ef_proxy_icon_url x);
          free_blk b })"

definition embed_footer_blocks :: "discord_embed_footer ptr \<Rightarrow> nat list" where
  "embed_footer_blocks p =
     (case p of Nul \<Rightarrow> []
      | Ptr b x \<Rightarrow> b # blk_of (ef_text x) @ blk_of (ef_icon_url x) @ blk_of (ef_proxy_icon_url x))"

definition embed_footer_content :: "discord_embed_footer ptr \<Rightarrow> discord_embed_footer option" where
  "embed_footer_content p =
     (case p of Nul \<Rightarrow> None
      | Ptr _ x \<Rightarrow> Some (x\<lparr>ef_text := erase (ef_text x), ef_icon_url := erase (ef_icon_url x), ef_proxy_icon_url := erase (ef_proxy_icon_url x)\<rparr>))"

definition embed_footer_small :: "discord_embed_footer ptr \<Rightarrow> bool" where
  "embed_footer_small p =
     (case p of Nul \<Rightarrow> True | Ptr _ x \<Rightarrow> fits 2050 (ef_text x) \<and> fits 2050 (ef_icon_url x) \<and> fits 2050 (ef_proxy_icon_url x))"

lemma embed_footer_copy_does:
  "does (copy_embed_footer p) (\<lambda>q bs fs. mset bs = mset (embed_footer_blocks q) \<and> fs = [] \<and> True \<and>
     (q = Nul \<longleftrightarrow> p = Nul) \<and> (embed_footer_small p \<longrightarrow> embed_footer_content q = embed_footer_content p))"
proof (cases p)
  case Nul
  then show ?thesis by (auto simp: copy_embed_footer_def embed_footer_blocks_def intro!: does_intros)
next
  case (Ptr b x)
  show ?thesis
    unfolding Ptr copy_embed_footer_def ptr.case
    by (rule does_intros)+ (simp add: embed_footer_blocks_def embed_footer_content_def embed_footer_small_def)
qed

lemma embed_footer_destroy_does:
  "p \<noteq> Nul \<Longrightarrow> does (destroy_embed_footer p) (\<lambda>_ bs fs. bs = [] \<and> mset fs = mset (embed_footer_blocks p))"
  by (cases p) (auto simp: destroy_embed_footer_def embed_footer_blocks_def intro!: does_intros)

interpretation embed_footer: owned_struct "\<lambda>_. True" embed_footer_blocks embed_footer_content embed_footer_small
    copy_embed_footer destroy_embed_footer
  by unfold_locales (use embed_footer_copy_does embed_footer_destroy_does in \<open>auto simp: embed_footer_blocks_def\<close>)

lemma embed_footer_json_does:
  "json_laws J \<Longrightarrow>
   does (json_to_embed_footer J data) (\<lambda>q bs fs. mset bs = mset (embed_footer_blocks q) \<and> fs = [] \<and> q \<noteq> Nul)"
  unfolding json_to_embed_footer_def by (rule does_intros | assumption)+ (simp add: embed_footer_blocks_def)

text \<open>\<open>_d_json_to_embed_media\<close> fills \<open>proxy_url\<close> from the item \<open>url\<close>.\<close>

record discord_embed_media =
  em_url :: "string ptr"
  em_proxy_url :: "string ptr"
  em_height :: int
  em_width :: int

definition json_to_embed_media :: "'j cjson \<Rightarrow> 'j option \<Rightarrow> (mem, discord_embed_media ptr) state" where
  "json_to_embed_media J data = do {
     b \<leftarrow> fresh_blk;
     s_url \<leftarrow> get_string_from_json J data ''url'';
     s_proxy_url \<leftarrow> get_string_from_json J data ''url'';
     State_Monad.return (Ptr b
       \<lparr>em_url = s_url,
        em_proxy_url = s_proxy_url,
        em_height = get_int_from_json J data ''height'' (- 1),
        em_width = get_int_from_json J data ''width'' (- 1)\<rparr>) }"

definition copy_embed_media :: "discord_embed_media ptr \<Rightarrow> (mem, discord_embed_media ptr) state" where
  "copy_embed_media src =
     (case src of Nul \<Rightarrow> State_Monad.return Nul
      | Ptr _ x \<Rightarrow> do {
          b \<leftarrow> fresh_blk;
          s_url \<leftarrow> copy_str 2050 (em_url x);
          s_proxy_url \<leftarrow> copy_str 2050 (em_proxy_url x);
          State_Monad.return (Ptr b (x\<lparr>em_url := s_url, em_proxy_url := s_proxy_url\<rparr>)) })"

definition destroy_embed_media :: "discord_embed_media ptr \<Rightarrow> (mem, unit) state" where
  "destroy_embed_media p =
     (case p of Nul \<Rightarrow> fault
      | Ptr b x \<Rightarrow> do {
          _ \<leftarrow> free_ptr (em_url x);
          _ \<leftarrow> free_ptr (em_proxy_url x);
          free_blk b })"

definition embed_media_blocks :: "discord_embed_media ptr \<Rightarrow> nat list" where
  "embed_media_blocks p =
     (case p of Nul \<Rightarrow> []
      | Ptr b x \<Rightarrow> b # blk_of (em_url x) @ blk_of (em_proxy_url x))"

definition embed_media_content :: "discord_embed_media ptr \<Rightarrow> discord_embed_media option" where
  "embed_media_content p =
     (case p of Nul \<Rightarrow> None
      | Ptr _ x \<Rightarrow> Some (x\<lparr>em_url := erase (em_url x), em_proxy_url := erase (em_proxy_url x)\<rparr>))"

definition embed_media_small :: "discord_embed_media ptr \<Rightarrow> bool" where
  "embed_media_small p =
     (case p of Nul \<Rightarrow> True | Ptr _ x \<Rightarrow> fits 2050 (em_url x) \<and> fits 2050 (em_proxy_url x))"

lemma embed_media_copy_does:
  "does (copy_embed_media p) (\<lambda>q bs fs. mset bs = mset (embed_media_blocks q) \<and> fs = [] \<and> True \<and>
     (q = Nul \<longleftrightarrow> p = Nul) \<and> (embed_media_small p \<longrightarrow> embed_media_content q = embed_media_content p))"
proof (cases p)
  case Nul
  then show ?thesis by (auto simp: copy_embed_media_def embed_media_blocks_def intro!: does_intros)
next
  case (Ptr b x)
  show ?thesis
    unfolding Ptr copy_embed_media_def ptr.case
    by (rule does_intros)+ (simp add: embed_media_blocks_def embed_media_content_def embed_media_small_def)
qed

lemma embed_media_destroy_does:
  "p \<noteq> Nul \<Longrightarrow> does (destroy_embed_media p) (\<lambda>_ bs fs. bs = [] \<and> mset fs = mset (embed_media_blocks p))"
  by (cases p) (auto simp: destroy_embed_media_def embed_media_blocks_def intro!: does_intros)

interpretation embed_media: owned_struct "\<lambda>_. True" embed_media_blocks embed_media_content embed_media_small
    copy_embed_media destroy_embed_media
  by unfold_locales (use embed_media_copy_does embed_media_destroy_does in \<open>auto simp: embed_media_blocks_def\<close>)

lemma embed_media_json_does:
  "json_laws J \<Longrightarrow>
   does (json_to_embed_media J data) (\<lambda>q bs fs. mset bs = mset (embed_media_blocks q) \<and> fs = [] \<and> q \<noteq> Nul)"
  unfolding json_to_embed_media_def by (rule does_intros | assumption)+ (simp add: embed_media_blocks_def)

record discord_embed_provider =
  ep_name :: "string ptr"
  ep_url :: "string ptr"

definition json_to_embed_provider :: "'j cjson \<Rightarrow> 'j option \<Rightarrow> (mem, discord_embed_provider ptr) state" where
  "json_to_embed_provider J data = do {
     b \<leftarrow> fresh_blk;
     s_name \<leftarrow> get_string_from_json J data ''name'';
     s_url \<leftarrow> get_string_from_json J data ''url'';
     State_Monad.return (Ptr b
       \<lparr>ep_name = s_name,
        ep_url = s_url\<rparr>) }"

definition copy_embed_provider :: "discord_embed_provider ptr \<Rightarrow> (mem, discord_embed_provider ptr) state" where
  "copy_embed_provider src =
     (case src of Nul \<Rightarrow> State_Monad.return Nul
      | Ptr _ x \<Rightarrow> do {
          b \<leftarrow> fresh_blk;
          s_name \<leftarrow> copy_str 2050 (ep_name x);
          s_url \<leftarrow> copy_str 2050 (ep_url x);
          State_Monad.return (Ptr b (x\<lparr>ep_name := s_name, ep_url := s_url\<rparr>)) })"

definition destroy_embed_provider :: "discord_embed_provider ptr \<Rightarrow> (mem, unit) state" where
  "destroy_embed_provider p =
     (case p of Nul \<Rightarrow> fault
      | Ptr b x \<Rightarrow> do {
          _ \<leftarrow> free_ptr (ep_name x);
          _ \<leftarrow> free_ptr (ep_url x);
          free_blk b })"

definition embed_provider_blocks :: "discord_embed_provider ptr \<Rightarrow> nat list" where
  "embed_provider_blocks p =
     (case p of Nul \<Rightarrow> []
      | Ptr b x \<Rightarrow> b # blk_of (ep_name x) @ blk_of (ep_url x))"

definition embed_provider_content :: "discord_embed_provider ptr \<Rightarrow> discord_embed_provider option" where
  "embed_provider_content p =
     (case p of Nul \<Rightarrow> None
      | Ptr _ x \<Rightarrow> Some (x\<lparr>ep_name := erase (ep_name x), ep_url := erase (ep_url x)\<rparr>))"

definition embed_provider_small :: "discord_embed_provider ptr \<Rightarrow> bool" where
  "embed_provider_small p =
     (case p of Nul \<Rightarrow> True | Ptr _ x \<Rightarrow> fits 2050 (ep_name x) \<and> fits 2050 (ep_url x))"

lemma embed_provider_copy_does:
  "does (copy_embed_provider p) (\<lambda>q bs fs. mset bs = mset (embed_provider_blocks q) \<and> fs = [] \<and> True \<and>
     (q = Nul \<longleftrightarrow> p = Nul) \<and> (embed_provider_small p \<longrightarrow> embed_provider_content q = embed_provider_content p))"
proof (cases p)
  case Nul
  then show ?thesis by (auto simp: copy_embed_provider_def embed_provider_blocks_def intro!: does_intros)
next
  case (Ptr b x)
  show ?thesis
    unfolding Ptr copy_embed_provider_def ptr.case
    by (rule does_intros)+ (simp add: embed_provider_blocks_def embed_provider_content_def embed_provider_small_def)
qed

lemma embed_provider_destroy_does:
  "p \<noteq> Nul \<Longrightarrow> does (destroy_embed_provider p) (\<lambda>_ bs fs. bs = [] \<and> mset fs = mset (embed_provider_blocks p))"
  by (cases p) (auto simp: destroy_embed_provider_def embed_provider_blocks_def intro!: does_intros)

interpretation embed_provider: owned_struct "\<lambda>_. True" embed_provider_blocks embed_provider_content embed_provider_small
    copy_embed_provider destroy_embed_provider
  by unfold_locales (use embed_provider_copy_does embed_provider_destroy_does in \<open>auto simp: embed_provider_blocks_def\<close>)

lemma embed_provider_json_does:
  "json_laws J \<Longrightarrow>
   does (json_to_embed_provider J data) (\<lambda>q bs fs. mset bs = mset (embed_provider_blocks q) \<and> fs = [] \<and> q \<noteq> Nul)"
  unfolding json_to_embed_provider_def by (rule does_intros | assumption)+ (simp add: embed_provider_blocks_def)

record discord_embed_author =
  ea_name :: "string ptr"
  ea_url :: "string ptr"
  ea_icon_url :: "string ptr"
  ea_proxy_icon_url :: "string ptr"

definition json_to_embed_author :: "'j cjson \<Rightarrow> 'j option \<Rightarrow> (mem, discord_embed_author ptr) state" where
  "json_to_embed_author J data = do {
     b \<leftarrow> fresh_blk;
     s_name \<leftarrow> get_string_from_json J data ''name'';
     s_url \<leftarrow> get_string_from_json J data ''url'';
     s_icon_url \<leftarrow> get_string_from_json J data ''icon_url'';
     s_proxy_icon_url \<leftarrow> get_string_from_json J data ''proxy_icon_url'';
     State_Monad.return (Ptr b
       \<lparr>ea_name = s_name,
        ea_url = s_url,
        ea_icon_url = s_icon_url,
        ea_proxy_icon_url = s_proxy_icon_url\<rparr>) }"

definition copy_embed_author :: "discord_embed_author ptr \<Rightarrow> (mem, discord_embed_author ptr) state" where
  "copy_embed_author src =
     (case src of Nul \<Rightarrow> State_Monad.return Nul
      | Ptr _ x \<Rightarrow> do {
          b \<leftarrow> fresh_blk;
          s_name \<leftarrow> copy_str 257 (ea_name x);
          s_url \<leftarrow> copy_str 2050 (ea_url x);
          s_icon_url \<leftarrow> copy_str 2050 (ea_icon_url x);
          s_proxy_icon_url \<leftarrow> copy_str 2050 (ea_proxy_icon_url x);
          State_Monad.return (Ptr b (x\<lparr>ea_name := s_name, ea_url := s_url, ea_icon_url := s_icon_url, ea_proxy_icon_url := s_proxy_icon_url\<rparr>)) })"

definition destroy_embed_author :: "discord_embed_author ptr \<Rightarrow> (mem, unit) state" where
  "destroy_embed_author p =
     (case p of Nul \<Rightarrow> fault
      | Ptr b x \<Rightarrow> do {
          _ \<leftarrow> free_ptr (ea_name x);
          _ \<leftarrow> free_ptr (ea_icon_url x);
          _ \<leftarrow> free_ptr (ea_url x);
          _ \<leftarrow> free_ptr (ea_proxy_icon_url x);
          free_blk b })"

definition embed_author_blocks :: "discord_embed_author ptr \<Rightarrow> nat list" where
  "embed_author_blocks p =
     (case p of Nul \<Rightarrow> []
      | Ptr b x \<Rightarrow> b # blk_of (ea_name x) @ blk_of (ea_url x) @ blk_of (ea_icon_url x) @ blk_of (ea_proxy_icon_url x))"

definition embed_author_content :: "discord_embed_author ptr \<Rightarrow> discord_embed_author option" where
  "embed_author_content p =
     (case p of Nul \<Rightarrow> None
      | Ptr _ x \<Rightarrow> Some (x\<lparr>ea_name := erase (ea_name x), ea_url := erase (ea_url x), ea_icon_url := erase (ea_icon_url x), ea_proxy_icon_url := erase (ea_proxy_icon_url x)\<rparr>))"

definition embed_author_small :: "discord_embed_author ptr \<Rightarrow> bool" where
  "embed_author_small p =
     (case p of Nul \<Rightarrow> True | Ptr _ x \<Rightarrow> fits 257 (ea_name x) \<and> fits 2050 (ea_url x) \<and> fits 2050 (ea_icon_url x) \<and> fits 2050 (ea_proxy_icon_url x))"

lemma embed_author_copy_does:
  "does (copy_embed_author p) (\<lambda>q bs fs. mset bs = mset (embed_author_blocks q) \<and> fs = [] \<and> True \<and>
     (q = Nul \<longleftrightarrow> p = Nul) \<and> (embed_author_small p \<longrightarrow> embed_author_content q = embed_author_content p))"
proof (cases p)
  case Nul
  then show ?thesis by (auto simp: copy_embed_author_def embed_author_blocks_def intro!: does_intros)
next
  case (Ptr b x)
  show ?thesis
    unfolding Ptr copy_embed_author_def ptr.case
    by (rule does_intros)+ (simp add: embed_author_blocks_def embed_author_content_def embed_author_small_def)
qed

lemma embed_author_destroy_does:
  "p \<noteq> Nul \<Longrightarrow> does (destroy_embed_author p) (\<lambda>_ bs fs. bs = [] \<and> mset fs = mset (embed_author_blocks p))"
  by (cases p) (auto simp: destroy_embed_author_def embed_author_blocks_def intro!: does_intros)

interpretation embed_author: owned_struct "\<lambda>_. True" embed_author_blocks embed_author_content embed_author_small
    copy_embed_author destroy_embed_author
  by unfold_locales (use embed_author_copy_does embed_author_destroy_does in \<open>auto simp: embed_author_blocks_def\<close>)

lemma embed_author_json_does:
  "json_laws J \<Longrightarrow>
   does (json_to_embed_author J data) (\<lambda>q bs fs. mset bs = mset (embed_author_blocks q) \<and> fs = [] \<and> q \<noteq> Nul)"
  unfolding json_to_embed_author_def by (rule does_intros | assumption)+ (simp add: embed_author_blocks_def)

record discord_embed_field =
  ed_name :: "string ptr"
  ed_value :: "string ptr"
  ed_inline :: bool

definition json_to_embed_field :: "'j cjson \<Rightarrow> 'j option \<Rightarrow> (mem, discord_embed_field ptr) state" where
  "json_to_embed_field J data = do {
     b \<leftarrow> fresh_blk;
     s_name \<leftarrow> get_string_from_json J data ''name'';
     s_value \<leftarrow> get_string_from_json J data ''value'';
     State_Monad.return (Ptr b
       \<lparr>ed_name = s_name,
        ed_value = s_value,
        ed_inline = get_bool_from_json J data ''inline'' False\<rparr>) }"

definition copy_embed_field :: "discord_embed_field ptr \<Rightarrow> (mem, discord_embed_field ptr) state" where
  "copy_embed_field src =
     (case src of Nul \<Rightarrow> State_Monad.return Nul
      | Ptr _ x \<Rightarrow> do {
          b \<leftarrow> fresh_blk;
          s_name \<leftarrow> copy_str 257 (ed_name x);
          s_value \<leftarrow> copy_str 1025 (ed_value x);
          State_Monad.return (Ptr b (x\<lparr>ed_name := s_name, ed_value := s_value\<rparr>)) })"

definition destroy_embed_field :: "discord_embed_field ptr \<Rightarrow> (mem, unit) state" where
  "destroy_embed_field p =
     (case p of Nul \<Rightarrow> fault
      | Ptr b x \<Rightarrow> do {
          _ \<leftarrow> free_ptr (ed_name x);
          _ \<leftarrow> free_ptr (ed_value x);
          free_blk b })"

definition embed_field_blocks :: "discord_embed_field ptr \<Rightarrow> nat list" where
  "embed_field_blocks p =
     (case p of Nul \<Rightarrow> []
      | Ptr b x \<Rightarrow> b # blk_of (ed_name x) @ blk_of (ed_value x))"

definition embed_field_content :: "discord_embed_field ptr \<Rightarrow> discord_embed_field option" where
  "embed_field_content p =
     (case p of Nul \<Rightarrow> None
      | Ptr _ x \<Rightarrow> Some (x\<lparr>ed_name := erase (ed_name x), ed_value := erase (ed_value x)\<rparr>))"

definition embed_field_small :: "discord_embed_field ptr \<Rightarrow> bool" where
  "embed_field_small p =
     (case p of Nul \<Rightarrow> True | Ptr _ x \<Rightarrow> fits 257 (ed_name x) \<and> fits 1025 (ed_value x))"

lemma embed_field_copy_does:
  "does (copy_embed_field p) (\<lambda>q bs fs. mset bs = mset (embed_field_blocks q) \<and> fs = [] \<and> True \<and>
     (q = Nul \<longleftrightarrow> p = Nul) \<and> (embed_field_small p \<longrightarrow> embed_field_content q = embed_field_content p))"
proof (cases p)
  case Nul
  then show ?thesis by (auto simp: copy_embed_field_def embed_field_blocks_def intro!: does_intros)
next
  case (Ptr b x)
  show ?thesis
    unfolding Ptr copy_embed_field_def ptr.case
    by (rule does_intros)+ (simp add: embed_field_blocks_def embed_field_content_def embed_field_small_def)
qed

lemma embed_field_destroy_does:
  "p \<noteq> Nul \<Longrightarrow> does (destroy_embed_field p) (\<lambda>_ bs fs. bs = [] \<and> mset fs = mset (embed_field_blocks p))"
  by (cases p) (auto simp: destroy_embed_field_def embed_field_blocks_def intro!: does_intros)

interpretation embed_field: owned_struct "\<lambda>_. True" embed_field_blocks embed_field_content embed_field_small
    copy_embed_field destroy_embed_field
  by unfold_locales (use embed_field_copy_does embed_field_destroy_does in \<open>auto simp: embed_field_blocks_def\<close>)

lemma embed_field_json_does:
  "json_laws J \<Longrightarrow>
   does (json_to_embed_field J data) (\<lambda>q bs fs. mset bs = mset (embed_field_blocks q) \<and> fs = [] \<and> q \<noteq> Nul)"
  unfolding json_to_embed_field_def by (rule does_intros | assumption)+ (simp add: embed_field_blocks_def)

section \<open>Embeds (\<open>embed.c\<close>)\<close>

record discord_embed =
  eb_title :: "string ptr"
  eb_type :: "string ptr"
  eb_description :: "string ptr"
  eb_url :: "string ptr"
  eb_timestamp :: "string ptr"
  eb_color :: int
  eb_footer :: "discord_embed_footer ptr"
  eb_image :: "discord_embed_media ptr"
  eb_thumbnail :: "discord_embed_media ptr"
  eb_video :: "discord_embed_media ptr"
  eb_provider :: "discord_embed_provider ptr"
  eb_author :: "discord_embed_author ptr"
  eb_fields :: "discord_embed_field ptr list ptr"

text \<open>\<open>tmp = cJSON_GetObjectItem(data, name); if (tmp) x = f(tmp)\<close>.\<close>

definition read_item ::
  "'j cjson \<Rightarrow> 'j option \<Rightarrow> string \<Rightarrow> ('j option \<Rightarrow> (mem, 'a ptr) state) \<Rightarrow> (mem, 'a ptr) state" where
  "read_item J data name f =
     (case get_object_item J data name of None \<Rightarrow> State_Monad.return Nul | Some t \<Rightarrow> f (Some t))"

text \<open>
  The footer is read with \<open>_d_json_to_embed\<close> and the result cast to a footer: the first three
  members of both structures are \<open>char *\<close>, so the footer's \<open>text\<close>, \<open>icon_url\<close> and
  \<open>proxy_icon_url\<close> are the \<open>title\<close>, \<open>type\<close> and \<open>description\<close> that were read.
\<close>

definition embed_as_footer :: "discord_embed ptr \<Rightarrow> discord_embed_footer ptr" where
  "embed_as_footer p =
     (case p of Nul \<Rightarrow> Nul
      | Ptr b e \<Rightarrow> Ptr b \<lparr>ef_text = eb_title e, ef_icon_url = eb_type e, ef_proxy_icon_url = eb_description e\<rparr>)"

fun json_to_embed :: "'j cjson \<Rightarrow> nat \<Rightarrow> 'j option \<Rightarrow> (mem, discord_embed ptr) state" where
  "json_to_embed J 0 data = State_Monad.return Nul"
| "json_to_embed J (Suc k) data = do {
     b \<leftarrow> fresh_blk;
     title \<leftarrow> get_string_from_json J data ''title'';
     type1 \<leftarrow> get_string_from_json J data ''type'';
     description \<leftarrow> get_string_from_json J data ''description'';
     url \<leftarrow> get_string_from_json J data ''url'';
     timestamp \<leftarrow> get_string_from_json J data ''timestamp'';
     footer \<leftarrow> read_item J data ''footer'' (json_to_embed J k);
     image1 \<leftarrow> read_item J data ''image'' (json_to_embed_media J);
     thumbnail \<leftarrow> read_item J data ''thumbnail'' (json_to_embed_media J);
     video \<leftarrow> read_item J data ''video'' (json_to_embed_media J);
     provider \<leftarrow> read_item J data ''provider'' (json_to_embed_provider J);
     author \<leftarrow> read_item J data ''author'' (json_to_embed_author J);
     fields \<leftarrow> get_array_from_json J data ''fields'' (json_to_embed_field J);
     State_Monad.return (Ptr b
       \<lparr>eb_title = title, eb_type = type1, eb_description = description, eb_url = url,
        eb_timestamp = timestamp, eb_color = get_int_from_json J data ''color'' 0,
        eb_footer = embed_as_footer footer, eb_image = image1, eb_thumbnail = thumbnail,
        eb_video = video, eb_provider = provider, eb_author = author, eb_fields = fields\<rparr>) }"

definition copy_embed :: "discord_embed ptr \<Rightarrow> (mem, discord_embed ptr) state" where
  "copy_embed src =
     (case src of Nul \<Rightarrow> State_Monad.return Nul
      | Ptr _ e \<Rightarrow> do {
          b \<leftarrow> fresh_blk;
          title \<leftarrow> copy_str 257 (eb_title e);
          type1 \<leftarrow> copy_str 20 (eb_type e);
          description \<leftarrow> copy_str 4097 (eb_description e);
          url \<leftarrow> copy_str 2050 (eb_url e);
          timestamp \<leftarrow> copy_str 50 (eb_timestamp e);
          footer \<leftarrow> copy_embed_footer (eb_footer e);
          image1 \<leftarrow> copy_embed_media (eb_image e);
          thumbnail \<leftarrow> copy_embed_media (eb_thumbnail e);
          video \<leftarrow> copy_embed_media (eb_video e);
          provider \<leftarrow> copy_embed_provider (eb_provider e);
          author \<leftarrow> copy_embed_author (eb_author e);
          fields \<leftarrow> copy_array copy_embed_field (eb_fields e);
          State_Monad.return (Ptr b (e\<lparr>eb_title := title, eb_type := type1,
            eb_description := description, eb_url := url, eb_timestamp := timestamp,
            eb_footer := footer, eb_image := image1, eb_thumbnail := thumbnail, eb_video := video,
            eb_provider := provider, eb_author := author, eb_fields := fields\<rparr>)) })"

text \<open>The line after \<open>if (embed->timestamp)\<close> frees the title again.\<close>

definition destroy_embed :: "discord_embed ptr \<Rightarrow> (mem, unit) state" where
  "destroy_embed p =
     (case p of Nul \<Rightarrow> fault
      | Ptr b e \<Rightarrow> do {
          _ \<leftarrow> free_ptr (eb_title e);
          _ \<leftarrow> free_ptr (eb_type e);
          _ \<leftarrow> free_ptr (eb_description e);
          _ \<leftarrow> free_ptr (eb_url e);
          _ \<leftarrow> (if eb_timestamp e \<noteq> Nul then free_ptr (eb_title e) else State_Monad.return ());
          _ \<leftarrow> when_ptr destroy_embed_footer (eb_footer e);
          _ \<leftarrow> when_ptr destroy_embed_media (eb_image e);
          _ \<leftarrow> when_ptr destroy_embed_media (eb_thumbnail e);
          _ \<leftarrow> when_ptr destroy_embed_media (eb_video e);
          _ \<leftarrow> when_ptr destroy_embed_provider (eb_provider e);
          _ \<leftarrow> when_ptr destroy_embed_author (eb_author e);
          _ \<leftarrow> destroy_array destroy_embed_field (eb_fields e);
          free_blk b })"

definition embed_blocks :: "discord_embed ptr \<Rightarrow> nat list" where
  "embed_blocks p =
     (case p of Nul \<Rightarrow> []
      | Ptr b e \<Rightarrow> b # blk_of (eb_title e) @ blk_of (eb_type e) @ blk_of (eb_description e) @
          blk_of (eb_url e) @ blk_of (eb_timestamp e) @ embed_footer_blocks (eb_footer e) @
          embed_media_blocks (eb_image e) @ embed_media_blocks (eb_thumbnail e) @
          embed_media_blocks (eb_video e) @ embed_provider_blocks (eb_provider e) @
          embed_author_blocks (eb_author e) @ arr_blocks embed_field_blocks (eb_fields e))"

definition embed_content where
  "embed_content p =
     (case p of Nul \<Rightarrow> None
      | Ptr _ e \<Rightarrow> Some ([erase (eb_title e), erase (eb_type e), erase (eb_description e),
          erase (eb_url e), erase (eb_timestamp e)], eb_color e,
          embed_footer_content (eb_footer e), embed_media_content (eb_image e),
          embed_media_content (eb_thumbnail e), embed_media_content (eb_video e),
          embed_provider_content (eb_provider e), embed_author_content (eb_author e),
          arr_content embed_field_content (eb_fields e)))"

definition embed_small :: "discord_embed ptr \<Rightarrow> bool" where
  "embed_small p =
     (case p of Nul \<Rightarrow> True
      | Ptr _ e \<Rightarrow> fits 257 (eb_title e) \<and> fits 20 (eb_type e) \<and> fits 4097 (eb_description e) \<and>
          fits 2050 (eb_url e) \<and> fits 50 (eb_timestamp e) \<and> embed_footer_small (eb_footer e) \<and>
          embed_media_small (eb_image e) \<and> embed_media_small (eb_thumbnail e) \<and>
          embed_media_small (eb_video e) \<and> embed_provider_small (eb_provider e) \<and>
          embed_author_small (eb_author e) \<and> arr_all embed_field_small (eb_fields e))"

definition embed_fields_ok :: "discord_embed ptr \<Rightarrow> bool" where
  "embed_fields_ok p = (case p of Nul \<Rightarrow> True | Ptr _ e \<Rightarrow> arr_ok (\<lambda>_. True) (eb_fields e))"

definition embed_has_timestamp :: "discord_embed ptr \<Rightarrow> bool" where
  "embed_has_timestamp p = (case p of Nul \<Rightarrow> False | Ptr _ e \<Rightarrow> eb_timestamp e \<noteq> Nul)"

lemma embed_copy_does:
  assumes "embed_fields_ok p"
  shows "does (copy_embed p) (\<lambda>q bs fs. mset bs = mset (embed_blocks q) \<and> fs = [] \<and>
     (embed_fields_ok q \<and> (embed_has_timestamp q \<longleftrightarrow> embed_has_timestamp p)) \<and>
     (q = Nul \<longleftrightarrow> p = Nul) \<and> (embed_small p \<longrightarrow> embed_content q = embed_content p))"
proof (cases p)
  case Nul
  then show ?thesis
    by (auto simp: copy_embed_def embed_blocks_def embed_fields_ok_def embed_has_timestamp_def
        intro!: does_intros)
next
  case (Ptr b e)
  have f: "arr_ok (\<lambda>_. True) (eb_fields e)" using assms by (simp add: embed_fields_ok_def Ptr)
  show ?thesis
    unfolding Ptr copy_embed_def ptr.case
    by (rule does_intros embed_footer.copy_rule embed_media.copy_rule embed_provider.copy_rule
        embed_author.copy_rule embed_field.copy_array_rule f TrueI)+
      (simp add: embed_blocks_def embed_content_def embed_small_def embed_fields_ok_def
        embed_has_timestamp_def)
qed

text \<open>What destroying frees: with a timestamp, the title twice and the timestamp never.\<close>

lemma embed_destroy_frees:
  assumes "embed_fields_ok (Ptr b e)"
  shows "does (destroy_embed (Ptr b e)) (\<lambda>_ bs fs. bs = [] \<and>
     mset fs + mset (blk_of (eb_timestamp e)) =
       mset (embed_blocks (Ptr b e)) + mset (if eb_timestamp e \<noteq> Nul then blk_of (eb_title e) else []))"
proof -
  have f: "arr_ok (\<lambda>_. True) (eb_fields e)" using assms by (simp add: embed_fields_ok_def)
  show ?thesis
    unfolding destroy_embed_def ptr.case
    by (rule does_intros does_free_if embed_footer.destroy_rule embed_media.destroy_rule
        embed_provider.destroy_rule embed_author.destroy_rule embed_field.destroy_array_rule f TrueI)+
      (simp_all add: embed_blocks_def)
qed

interpretation embed: owned_struct "\<lambda>p. embed_fields_ok p \<and> \<not> embed_has_timestamp p" embed_blocks
    embed_content embed_small copy_embed destroy_embed
proof (unfold_locales, goal_cases)
  case 1
  then show ?case by (simp add: embed_blocks_def)
next
  case (2 p)
  then show ?case using embed_copy_does [of p] by (auto elim!: does_weaken)
next
  case (3 p)
  then obtain b e where "p = Ptr b e" by (cases p) auto
  with 3 show ?case
    using embed_destroy_frees [of b e] by (auto simp: embed_has_timestamp_def elim!: does_weaken)
qed

end
