(* ===== verification/Enums.thy ===== *)
theory Enums
  imports Main
begin

text \<open>
  The enumerations of \<open>src/include/discord\<close> with the numbers the header gives them. A structure that
  is read from JSON stores the number the service sent, which may be any.
\<close>

datatype Discord_Channel_Type =
    CHANNEL_GUILD_TEXT | CHANNEL_DM | CHANNEL_GROUP_DM | CHANNEL_GUILD_VOICE | CHANNEL_GUILD_CATEGORY
    | CHANNEL_GUILD_NEWS | CHANNEL_GUILD_NEWS_THREAD | CHANNEL_GUILD_PUBLIC_THREAD
    | CHANNEL_GUILD_PRIVATE_THREAD | CHANNEL_GUILD_STAGE_VOICE | CHANNEL_GUILD_DIRECTORY
    | CHANNEL_GUILD_FORUM

fun channel_type_number :: "Discord_Channel_Type \<Rightarrow> int" where
  "channel_type_number CHANNEL_GUILD_TEXT = 0"
| "channel_type_number CHANNEL_DM = 1"
| "channel_type_number CHANNEL_GROUP_DM = 1"
| "channel_type_number CHANNEL_GUILD_VOICE = 2"
| "channel_type_number CHANNEL_GUILD_CATEGORY = 4"
| "channel_type_number CHANNEL_GUILD_NEWS = 5"
| "channel_type_number CHANNEL_GUILD_NEWS_THREAD = 10"
| "channel_type_number CHANNEL_GUILD_PUBLIC_THREAD = 11"
| "channel_type_number CHANNEL_GUILD_PRIVATE_THREAD = 12"
| "channel_type_number CHANNEL_GUILD_STAGE_VOICE = 13"
| "channel_type_number CHANNEL_GUILD_DIRECTORY = 14"
| "channel_type_number CHANNEL_GUILD_FORUM = 15"

datatype Discord_Application_Command_Type =
    COMMAND_CHAT_INPUT | COMMAND_USER | COMMAND_MESSAGE

fun command_type_number :: "Discord_Application_Command_Type \<Rightarrow> int" where
  "command_type_number COMMAND_CHAT_INPUT = 1"
| "command_type_number COMMAND_USER = 2"
| "command_type_number COMMAND_MESSAGE = 3"

datatype Discord_Component_Type =
    COMPONENT_ACTION_ROW | COMPONENT_BUTTON | COMPONENT_SELECT_MENU | COMPONENT_TEXT_INPUT

fun component_type_number :: "Discord_Component_Type \<Rightarrow> int" where
  "component_type_number COMPONENT_ACTION_ROW = 1"
| "component_type_number COMPONENT_BUTTON = 2"
| "component_type_number COMPONENT_SELECT_MENU = 3"
| "component_type_number COMPONENT_TEXT_INPUT = 4"

datatype Discord_Button_Style =
    BUTTON_PRIMARY | BUTTON_SECONDARY | BUTTON_SUCCESS | BUTTON_DANGER | BUTTON_LINK

fun button_style_number :: "Discord_Button_Style \<Rightarrow> int" where
  "button_style_number BUTTON_PRIMARY = 1"
| "button_style_number BUTTON_SECONDARY = 2"
| "button_style_number BUTTON_SUCCESS = 3"
| "button_style_number BUTTON_DANGER = 4"
| "button_style_number BUTTON_LINK = 5"

datatype Discord_Text_Input_Style =
    TEXT_INPUT_SHORT | TEXT_INPUT_PARAGRAPH

fun input_style_number :: "Discord_Text_Input_Style \<Rightarrow> int" where
  "input_style_number TEXT_INPUT_SHORT = 1"
| "input_style_number TEXT_INPUT_PARAGRAPH = 2"

datatype Discord_Interaction_Type =
    INTERACTION_PING | INTERACTION_APPLICATION_COMMAND | INTERACTION_MESSAGE_COMPONENT
    | INTERACTION_APPLICATION_COMMAND_AUTOCOMPLETE | INTERACTION_MODAL_SUBMIT

fun interaction_type_number :: "Discord_Interaction_Type \<Rightarrow> int" where
  "interaction_type_number INTERACTION_PING = 1"
| "interaction_type_number INTERACTION_APPLICATION_COMMAND = 2"
| "interaction_type_number INTERACTION_MESSAGE_COMPONENT = 3"
| "interaction_type_number INTERACTION_APPLICATION_COMMAND_AUTOCOMPLETE = 4"
| "interaction_type_number INTERACTION_MODAL_SUBMIT = 5"

datatype Value_Type =
    VALUE_STRING | VALUE_INTEGER | VALUE_DOUBLE

fun value_type_number :: "Value_Type \<Rightarrow> int" where
  "value_type_number VALUE_STRING = 0"
| "value_type_number VALUE_INTEGER = 1"
| "value_type_number VALUE_DOUBLE = 2"

datatype Discord_Message_Type =
    DEFAULT | RECIPIENT_ADD | RECIPIENT_REMOVE | CALL | CHANNEL_NAME_CHANGE | CHANNEL_ICON_CHANGE
    | CHANNEL_PINNED_MESSAGE | GUILD_MEMBER_JOIN | USER_PREMIUM_GUILD_SUBSCRIPTION
    | USER_PREMIUM_GUILD_SUBSCRIPTION_TIER_1 | USER_PREMIUM_GUILD_SUBSCRIPTION_TIER_2
    | USER_PREMIUM_GUILD_SUBSCRIPTION_TIER_3 | CHANNEL_FOLLOW_ADD | GUILD_DISCOVERY_DISQUALIFIED
    | GUILD_DISCOVERY_REQUALIFIED | GUILD_DISCOVERY_GRACE_PERIOD_INITIAL_WARNING
    | GUILD_DISCOVERY_GRACE_PERIOD_FINAL_WARNING | THREAD_CREATED | REPLY | CHAT_INPUT_COMMAND
    | THREAD_STARTER_MESSAGE | GUILD_INVITE_REMINDER | CONTEXT_MENU_COMMAND

fun message_type_number :: "Discord_Message_Type \<Rightarrow> int" where
  "message_type_number DEFAULT = 0"
| "message_type_number RECIPIENT_ADD = 1"
| "message_type_number RECIPIENT_REMOVE = 2"
| "message_type_number CALL = 3"
| "message_type_number CHANNEL_NAME_CHANGE = 4"
| "message_type_number CHANNEL_ICON_CHANGE = 5"
| "message_type_number CHANNEL_PINNED_MESSAGE = 6"
| "message_type_number GUILD_MEMBER_JOIN = 7"
| "message_type_number USER_PREMIUM_GUILD_SUBSCRIPTION = 8"
| "message_type_number USER_PREMIUM_GUILD_SUBSCRIPTION_TIER_1 = 9"
| "message_type_number USER_PREMIUM_GUILD_SUBSCRIPTION_TIER_2 = 10"
| "message_type_number USER_PREMIUM_GUILD_SUBSCRIPTION_TIER_3 = 11"
| "message_type_number CHANNEL_FOLLOW_ADD = 12"
| "message_type_number GUILD_DISCOVERY_DISQUALIFIED = 14"
| "message_type_number GUILD_DISCOVERY_REQUALIFIED = 15"
| "message_type_number GUILD_DISCOVERY_GRACE_PERIOD_INITIAL_WARNING = 16"
| "message_type_number GUILD_DISCOVERY_GRACE_PERIOD_FINAL_WARNING = 17"
| "message_type_number THREAD_CREATED = 18"
| "message_type_number REPLY = 19"
| "message_type_number CHAT_INPUT_COMMAND = 20"
| "message_type_number THREAD_STARTER_MESSAGE = 21"
| "message_type_number GUILD_INVITE_REMINDER = 22"
| "message_type_number CONTEXT_MENU_COMMAND = 23"

datatype Discord_Message_Activity_Type =
    MESSAGE_ACTIVITY_JOIN | MESSAGE_ACTIVITY_SPECTATE | MESSAGE_ACTIVITY_LISTEN
    | MESSAGE_ACTIVITY_JOIN_REQUEST

fun activity_type_number :: "Discord_Message_Activity_Type \<Rightarrow> int" where
  "activity_type_number MESSAGE_ACTIVITY_JOIN = 1"
| "activity_type_number MESSAGE_ACTIVITY_SPECTATE = 2"
| "activity_type_number MESSAGE_ACTIVITY_LISTEN = 3"
| "activity_type_number MESSAGE_ACTIVITY_JOIN_REQUEST = 5"

datatype Discord_Sticker_Format =
    STICKER_FORMAT_PNG | STICKER_FORMAT_APNG | STICKER_FORMAT_LOTTIE

fun sticker_format_number :: "Discord_Sticker_Format \<Rightarrow> int" where
  "sticker_format_number STICKER_FORMAT_PNG = 1"
| "sticker_format_number STICKER_FORMAT_APNG = 2"
| "sticker_format_number STICKER_FORMAT_LOTTIE = 3"

datatype Discord_Sticker_Type =
    STICKER_TYPE_STANDARD | STICKER_TYPE_GUILD

fun sticker_type_number :: "Discord_Sticker_Type \<Rightarrow> int" where
  "sticker_type_number STICKER_TYPE_STANDARD = 1"
| "sticker_type_number STICKER_TYPE_GUILD = 2"

section \<open>Which numbers tell the kinds apart\<close>

lemmas enum_numbers = command_type_number.simps component_type_number.simps button_style_number.simps
  input_style_number.simps interaction_type_number.simps value_type_number.simps message_type_number.simps
  activity_type_number.simps sticker_format_number.simps sticker_type_number.simps

lemma numbers_distinct:
  "inj component_type_number" "inj button_style_number" "inj input_style_number" "inj command_type_number"
  "inj interaction_type_number" "inj value_type_number" "inj activity_type_number" "inj sticker_format_number"
  "inj sticker_type_number"
  by (rule injI, case_tac x; case_tac y; simp)+

lemma message_numbers_distinct: "inj message_type_number"
  by (rule injI, case_tac x; case_tac y; simp)

text \<open>Of the channels, one with a single user and one with a group have the same number.\<close>

lemma channel_numbers:
  "channel_type_number x = channel_type_number y \<longleftrightarrow> x = y \<or> {x, y} = {CHANNEL_DM, CHANNEL_GROUP_DM}"
  by (cases x; cases y; simp add: doubleton_eq_iff)

end
