(* ===== verification/Stub_Structs.thy ===== *)
theory Stub_Structs
  imports Structs Enums
begin

text \<open>
  The structures that \<open>src/discord\<close> declares and does not implement: emojis, reactions, stickers, threads,
  permissions, activities, applications, roles and guilds. Their readers and copies return NULL, their
  destructors do nothing; an application is read as an empty structure. The readers of roles are
  declared only.
\<close>

section \<open>Structures\<close>

text \<open>A count is the length of the list it counts.\<close>

record discord_emoji =
  ej_id :: "string ptr"
  ej_name :: "string ptr"
  ej_roles :: "string ptr list ptr"
  ej_user :: "discord_user ptr"
  ej_require_colons :: bool
  ej_managed :: bool
  ej_animated :: bool
  ej_available :: bool

record discord_reaction =
  rx_count :: int
  rx_me :: bool
  rx_emoji :: "discord_emoji ptr"

record discord_message_sticker_item =
  sk_id :: "string ptr"
  sk_name :: "string ptr"
  sk_format_type :: Discord_Sticker_Format

record discord_sticker =
  st_id :: "string ptr"
  st_pack_id :: u64
  st_name :: "string ptr"
  st_description :: "string ptr"
  st_tags :: "string ptr"
  st_type :: Discord_Sticker_Type
  st_format_type :: Discord_Sticker_Format
  st_available :: bool
  st_guild_id :: "string ptr"
  st_user :: "discord_user ptr"
  st_sort_value :: int

record discord_thread_metadata =
  td_archived :: bool
  td_auto_archive_duration :: int
  td_archive_timestamp :: "string ptr"
  td_locked :: bool
  td_invitable :: bool
  td_create_timestamp :: "string ptr"

record discord_thread_member =
  tu_id :: u64
  tu_user_id :: u64
  tu_join_timestamp :: "string ptr"
  tu_flags :: int

record discord_overwrite =
  ow_id :: "string ptr"
  ow_type :: int
  ow_allow :: "string ptr"
  ow_deny :: "string ptr"

record discord_message_activity =
  ma_type :: Discord_Message_Activity_Type
  ma_party_id :: u64

record discord_team_member =
  tm_membership_state :: int
  tm_permissions :: "string ptr list ptr"
  tm_team_id :: u64
  tm_user :: "discord_user ptr"

record discord_team =
  te_icon :: "string ptr"
  te_id :: u64
  te_members :: "discord_team_member ptr list ptr"
  te_name :: "string ptr"
  te_owner_user_id :: u64

record discord_params =
  ip_scopes :: "string ptr list ptr"
  ip_permissions :: "string ptr"

record discord_application =
  ap_id :: u64
  ap_name :: "string ptr"
  ap_icon :: "string ptr"
  ap_description :: "string ptr"
  ap_rpc_origins :: "string ptr list ptr"
  ap_bot_public :: bool
  ap_bot_require_code_grant :: bool
  ap_terms_of_service_url :: "string ptr"
  ap_privacy_policy_url :: "string ptr"
  ap_owner :: "discord_user ptr"
  ap_verify_key :: "string ptr"
  ap_guild_id :: u64
  ap_primary_sku_id :: u64
  ap_slug :: "string ptr"
  ap_cover_image :: "string ptr"
  ap_flags :: int
  ap_tags :: "string ptr list ptr"
  ap_install_params :: "discord_params ptr"
  ap_custom_install_url :: "string ptr"

record discord_role_tags =
  rt_bot_id :: "string ptr"
  rt_integration_id :: "string ptr"
  rt_premium_subscriber :: bool

record discord_role =
  rl_id :: "string ptr"
  rl_name :: "string ptr"
  rl_color :: int
  rl_hoist :: bool
  rl_icon :: "string ptr"
  rl_unicode_emoji :: "string ptr"
  rl_position :: int
  rl_permissions :: "string ptr"
  rl_managed :: bool
  rl_mentionable :: bool
  rl_tags :: discord_role_tags
  rl_tags_count :: int

record discord_guild =
  gd_id :: u64
  gd_name :: "string ptr"
  gd_icon :: "string ptr"
  gd_icon_hash :: "string ptr"
  gd_splash :: "string ptr"
  gd_discovery_splash :: "string ptr"
  gd_owner :: bool
  gd_owner_id :: u64
  gd_permissions :: "string ptr"
  gd_region :: "string ptr"
  gd_afk_channel_id :: u64
  gd_afk_timeout :: int
  gd_widget_enabled :: bool
  gd_widget_channel_id :: u64
  gd_verification_level :: int
  gd_default_message_notifications :: int
  gd_explicit_content_filter :: int
  gd_roles :: "discord_role ptr list ptr"
  gd_emojis :: "discord_emoji ptr list ptr"
  gd_mfa_level :: int
  gd_application_id :: u64
  gd_system_channel_id :: u64
  gd_system_channel_flags :: int
  gd_rules_channel_id :: u64
  gd_max_presences :: int
  gd_max_members :: int
  gd_vanity_url_code :: "string ptr"
  gd_description :: "string ptr"
  gd_banner :: "string ptr"
  gd_premium_tier :: int
  gd_premium_subscription_count :: int
  gd_preferred_locale :: "string ptr"
  gd_public_updates_channel_id :: u64
  gd_max_video_channel_users :: int
  gd_approximate_member_count :: int
  gd_approximate_presence_count :: int
  gd_nsfw_level :: int
  gd_stickers :: "discord_sticker ptr list ptr"
  gd_premium_progress_bar_enabled :: bool

text \<open>What \<open>calloc\<close> returns for an application.\<close>

definition zero_application :: discord_application where
  "zero_application = \<lparr>ap_id = 0, ap_name = Nul, ap_icon = Nul, ap_description = Nul, ap_rpc_origins = Nul,
    ap_bot_public = False, ap_bot_require_code_grant = False, ap_terms_of_service_url = Nul,
    ap_privacy_policy_url = Nul, ap_owner = Nul, ap_verify_key = Nul, ap_guild_id = 0,
    ap_primary_sku_id = 0, ap_slug = Nul, ap_cover_image = Nul, ap_flags = 0, ap_tags = Nul,
    ap_install_params = Nul, ap_custom_install_url = Nul\<rparr>"

section \<open>Stubs\<close>

text \<open>No code of the program builds one of these structures but the empty application.\<close>

definition json_to_emoji :: "'j cjson \<Rightarrow> 'j option \<Rightarrow> (mem, discord_emoji ptr) state" where
  "json_to_emoji J data = State_Monad.return Nul"

definition copy_emoji :: "discord_emoji ptr \<Rightarrow> (mem, discord_emoji ptr) state" where
  "copy_emoji src = State_Monad.return Nul"

definition destroy_emoji :: "discord_emoji ptr \<Rightarrow> (mem, unit) state" where
  "destroy_emoji p = State_Monad.return ()"

definition json_to_reaction :: "'j cjson \<Rightarrow> 'j option \<Rightarrow> (mem, discord_reaction ptr) state" where
  "json_to_reaction J data = State_Monad.return Nul"

definition copy_reaction :: "discord_reaction ptr \<Rightarrow> (mem, discord_reaction ptr) state" where
  "copy_reaction src = State_Monad.return Nul"

definition destroy_reaction :: "discord_reaction ptr \<Rightarrow> (mem, unit) state" where
  "destroy_reaction p = State_Monad.return ()"

definition json_to_sticker :: "'j cjson \<Rightarrow> 'j option \<Rightarrow> (mem, discord_sticker ptr) state" where
  "json_to_sticker J data = State_Monad.return Nul"

definition copy_sticker :: "discord_sticker ptr \<Rightarrow> (mem, discord_sticker ptr) state" where
  "copy_sticker src = State_Monad.return Nul"

definition destroy_sticker :: "discord_sticker ptr \<Rightarrow> (mem, unit) state" where
  "destroy_sticker p = State_Monad.return ()"

definition json_to_sticker_item :: "'j cjson \<Rightarrow> 'j option \<Rightarrow> (mem, discord_message_sticker_item ptr) state" where
  "json_to_sticker_item J data = State_Monad.return Nul"

definition copy_sticker_item :: "discord_message_sticker_item ptr \<Rightarrow> (mem, discord_message_sticker_item ptr) state" where
  "copy_sticker_item src = State_Monad.return Nul"

definition destroy_sticker_item :: "discord_message_sticker_item ptr \<Rightarrow> (mem, unit) state" where
  "destroy_sticker_item p = State_Monad.return ()"

definition json_to_thread_metadata :: "'j cjson \<Rightarrow> 'j option \<Rightarrow> (mem, discord_thread_metadata ptr) state" where
  "json_to_thread_metadata J data = State_Monad.return Nul"

definition copy_thread_metadata :: "discord_thread_metadata ptr \<Rightarrow> (mem, discord_thread_metadata ptr) state" where
  "copy_thread_metadata src = State_Monad.return Nul"

definition destroy_thread_metadata :: "discord_thread_metadata ptr \<Rightarrow> (mem, unit) state" where
  "destroy_thread_metadata p = State_Monad.return ()"

definition json_to_thread_member :: "'j cjson \<Rightarrow> 'j option \<Rightarrow> (mem, discord_thread_member ptr) state" where
  "json_to_thread_member J data = State_Monad.return Nul"

definition copy_thread_member :: "discord_thread_member ptr \<Rightarrow> (mem, discord_thread_member ptr) state" where
  "copy_thread_member src = State_Monad.return Nul"

definition destroy_thread_member :: "discord_thread_member ptr \<Rightarrow> (mem, unit) state" where
  "destroy_thread_member p = State_Monad.return ()"

definition json_to_overwrite :: "'j cjson \<Rightarrow> 'j option \<Rightarrow> (mem, discord_overwrite ptr) state" where
  "json_to_overwrite J data = State_Monad.return Nul"

definition copy_overwrite :: "discord_overwrite ptr \<Rightarrow> (mem, discord_overwrite ptr) state" where
  "copy_overwrite src = State_Monad.return Nul"

definition destroy_overwrite :: "discord_overwrite ptr \<Rightarrow> (mem, unit) state" where
  "destroy_overwrite p = State_Monad.return ()"

definition json_to_message_activity :: "'j cjson \<Rightarrow> 'j option \<Rightarrow> (mem, discord_message_activity ptr) state" where
  "json_to_message_activity J data = State_Monad.return Nul"

definition copy_message_activity :: "discord_message_activity ptr \<Rightarrow> (mem, discord_message_activity ptr) state" where
  "copy_message_activity src = State_Monad.return Nul"

definition destroy_message_activity :: "discord_message_activity ptr \<Rightarrow> (mem, unit) state" where
  "destroy_message_activity p = State_Monad.return ()"

definition json_to_application :: "'j cjson \<Rightarrow> 'j option \<Rightarrow> (mem, discord_application ptr) state" where
  "json_to_application J data = do { b \<leftarrow> fresh_blk; State_Monad.return (Ptr b zero_application) }"

definition copy_application :: "discord_application ptr \<Rightarrow> (mem, discord_application ptr) state" where
  "copy_application src = State_Monad.return Nul"

definition destroy_application :: "discord_application ptr \<Rightarrow> (mem, unit) state" where
  "destroy_application p = free_ptr p"

text \<open>Guilds (\<open>guild.c\<close>) are not read at all.\<close>

definition json_to_guild :: "'j cjson \<Rightarrow> 'j option \<Rightarrow> (mem, discord_guild ptr) state" where
  "json_to_guild J data = State_Monad.return Nul"

definition copy_guild :: "discord_guild ptr \<Rightarrow> (mem, discord_guild ptr) state" where
  "copy_guild src = State_Monad.return Nul"

definition destroy_guild :: "discord_guild ptr \<Rightarrow> (mem, unit) state" where
  "destroy_guild p = State_Monad.return ()"

lemmas stub_defs = json_to_emoji_def copy_emoji_def destroy_emoji_def
  json_to_reaction_def copy_reaction_def destroy_reaction_def
  json_to_sticker_def copy_sticker_def destroy_sticker_def
  json_to_sticker_item_def copy_sticker_item_def destroy_sticker_item_def
  json_to_thread_metadata_def copy_thread_metadata_def destroy_thread_metadata_def
  json_to_thread_member_def copy_thread_member_def destroy_thread_member_def
  json_to_overwrite_def copy_overwrite_def destroy_overwrite_def
  json_to_message_activity_def copy_message_activity_def destroy_message_activity_def
  json_to_application_def copy_application_def destroy_application_def
  json_to_guild_def copy_guild_def destroy_guild_def

text \<open>Arrays of stub structures hold NULL pointers only.\<close>

definition nul_array :: "'a ptr list ptr \<Rightarrow> bool" where
  "nul_array p = (case p of Nul \<Rightarrow> True | Ptr _ xs \<Rightarrow> xs \<noteq> [] \<and> (\<forall>x \<in> set xs. x = Nul))"

lemma does_copy_nul_array:
  assumes "nul_array p" and "\<And>x. f x = State_Monad.return Nul"
    and "\<And>q. nul_array q \<Longrightarrow> P q (blk_of q) []"
  shows "does (copy_array f p) P"
proof (cases p)
  case Nul
  with assms(3) [of Nul] show ?thesis by (auto simp: copy_array_def nul_array_def intro!: does_intros)
next
  case (Ptr b xs)
  have t: "does (State_Monad.traverse_list f xs) (\<lambda>ys bs fs. mset bs = mset (concat (map (\<lambda>_. []) ys)) \<and>
      fs = [] \<and> list_all2 (\<lambda>_ y. y = Nul) xs ys)"
    by (rule does_traverse) (simp add: assms(2) does_return)
  have "P (Ptr a ys) [a] []" if "list_all2 (\<lambda>_ y. y = Nul) xs ys" for a ys
  proof -
    have "nul_array (Ptr a ys)"
      using that assms(1) by (auto simp: nul_array_def Ptr list_all2_conv_all_nth in_set_conv_nth)
    from assms(3) [OF this] show ?thesis by simp
  qed
  with t assms(1) show ?thesis
    by (auto simp: copy_array_def Ptr nul_array_def intro!: does_intros elim!: does_weaken)
qed

lemma does_destroy_nul_array:
  assumes "\<And>x. f x = State_Monad.return ()" and "P () [] (blk_of p)"
  shows "does (destroy_array f p) P"
proof (cases p)
  case Nul
  with assms(2) show ?thesis by (auto simp: destroy_array_def intro!: does_intros)
next
  case (Ptr b xs)
  have t: "does (each f xs) (\<lambda>_ bs fs. bs = [] \<and> mset fs = mset (concat (map (\<lambda>_. []) xs)))"
    by (rule does_each) (simp add: assms(1) does_return)
  with assms(2) show ?thesis
    by (auto simp: destroy_array_def Ptr intro!: does_intros elim!: does_weaken)
qed

lemma does_json_nul_array:
  fixes func :: "'j option \<Rightarrow> (mem, 'a ptr) state"
  assumes "\<And>d. func d = State_Monad.return Nul" and "\<And>q. nul_array q \<Longrightarrow> P q (blk_of q) []"
  shows "does (get_array_from_json J data name func) P"
proof (rule does_get_array [where B = "\<lambda>_. []" and Q = "\<lambda>y. y = Nul"])
  fix q :: "'a ptr list ptr" and bs
  assume bs: "mset bs = mset (arr_blocks (\<lambda>_. []) q)"
    and n: "(q = Nul) = (json_items J (get_object_item J data name) = [])"
    and xs: "case q of Nul \<Rightarrow> True | Ptr _ xs \<Rightarrow>
      length xs = length (json_items J (get_object_item J data name)) \<and> list_all (\<lambda>y. y = Nul) xs"
  have "bs = blk_of q" using bs by (cases q) (auto simp: arr_blocks_def)
  moreover have "nul_array q" using n xs by (cases q) (auto simp: nul_array_def list_all_iff)
  ultimately show "P q bs []" using assms(2) by simp
qed (simp add: assms(1) does_return)

end
