(* ===== verification/Structs2.thy ===== *)
theory Structs2
  imports Stub_Structs
begin

text \<open>
  The nested structures of \<open>src/discord\<close>: members (\<open>user.c\<close>), message components
  (\<open>component.c\<close>) and channels (\<open>channel.c\<close>), with the lemmas on what their copies and destructors do to memory.
\<close>

section \<open>Members (\<open>user.c\<close>)\<close>

text \<open>The user of a member is not owned by its copy: it is the pointer that is passed in.\<close>

record discord_member =
  mb_user :: "discord_user ptr"
  mb_nick :: "string ptr"
  mb_avatar :: "string ptr"
  mb_roles :: "u64 list ptr"
  mb_joined_at :: "string ptr"
  mb_premium_since :: "string ptr"
  mb_deaf :: bool
  mb_mute :: bool
  mb_pending :: bool
  mb_permissions :: "string ptr"
  mb_communication_disabled_until :: "string ptr"

definition json_to_member :: "'j cjson \<Rightarrow> 'j option \<Rightarrow> discord_user ptr \<Rightarrow> (mem, discord_member ptr) state" where
  "json_to_member J data user = do {
     b \<leftarrow> fresh_blk;
     u \<leftarrow> (if user \<noteq> Nul then State_Monad.return user else read_item J data ''user'' (json_to_user J));
     nick \<leftarrow> get_string_from_json J data ''nick'';
     avatar \<leftarrow> get_string_from_json J data ''avatar'';
     roles \<leftarrow> get_ids_from_json J data ''roles'';
     joined_at \<leftarrow> get_string_from_json J data ''joined_at'';
     premium_since \<leftarrow> get_string_from_json J data ''premium_since'';
     permissions \<leftarrow> get_string_from_json J data ''permissions'';
     disabled_until \<leftarrow> get_string_from_json J data ''communication_disabled_until'';
     State_Monad.return (Ptr b
       \<lparr>mb_user = u, mb_nick = nick, mb_avatar = avatar, mb_roles = roles, mb_joined_at = joined_at,
        mb_premium_since = premium_since, mb_deaf = get_bool_from_json J data ''deaf'' False,
        mb_mute = get_bool_from_json J data ''mute'' False,
        mb_pending = get_bool_from_json J data ''pending'' False, mb_permissions = permissions,
        mb_communication_disabled_until = disabled_until\<rparr>) }"

definition copy_member :: "discord_member ptr \<Rightarrow> discord_user ptr \<Rightarrow> (mem, discord_member ptr) state" where
  "copy_member src user =
     (case src of Nul \<Rightarrow> State_Monad.return Nul
      | Ptr _ m \<Rightarrow> do {
          b \<leftarrow> fresh_blk;
          nick \<leftarrow> copy_str 50 (mb_nick m);
          avatar \<leftarrow> copy_str 100 (mb_avatar m);
          roles \<leftarrow> copy_ids (mb_roles m);
          joined_at \<leftarrow> copy_str 50 (mb_joined_at m);
          premium_since \<leftarrow> copy_str 50 (mb_premium_since m);
          permissions \<leftarrow> copy_str 50 (mb_permissions m);
          disabled_until \<leftarrow> copy_str 50 (mb_communication_disabled_until m);
          State_Monad.return (Ptr b (m\<lparr>mb_user := user, mb_nick := nick, mb_avatar := avatar,
            mb_roles := roles, mb_joined_at := joined_at, mb_premium_since := premium_since,
            mb_permissions := permissions, mb_communication_disabled_until := disabled_until\<rparr>)) })"

definition destroy_member :: "discord_member ptr \<Rightarrow> (mem, unit) state" where
  "destroy_member p =
     (case p of Nul \<Rightarrow> fault
      | Ptr b m \<Rightarrow> do {
          _ \<leftarrow> free_ptr (mb_nick m);
          _ \<leftarrow> free_ptr (mb_avatar m);
          _ \<leftarrow> free_ptr (mb_joined_at m);
          _ \<leftarrow> free_ptr (mb_premium_since m);
          _ \<leftarrow> free_ptr (mb_permissions m);
          _ \<leftarrow> free_ptr (mb_communication_disabled_until m);
          _ \<leftarrow> free_ptr (mb_roles m);
          _ \<leftarrow> when_ptr destroy_user (mb_user m);
          free_blk b })"

definition member_own_blocks :: "discord_member ptr \<Rightarrow> nat list" where
  "member_own_blocks p =
     (case p of Nul \<Rightarrow> []
      | Ptr b m \<Rightarrow> b # blk_of (mb_nick m) @ blk_of (mb_avatar m) @ blk_of (mb_roles m) @
          blk_of (mb_joined_at m) @ blk_of (mb_premium_since m) @ blk_of (mb_permissions m) @
          blk_of (mb_communication_disabled_until m))"

definition member_user :: "discord_member ptr \<Rightarrow> discord_user ptr" where
  "member_user p = (case p of Nul \<Rightarrow> Nul | Ptr _ m \<Rightarrow> mb_user m)"

definition member_blocks :: "discord_member ptr \<Rightarrow> nat list" where
  "member_blocks p = member_own_blocks p @ user_blocks (member_user p)"

definition member_ok :: "discord_member ptr \<Rightarrow> bool" where
  "member_ok p = (case p of Nul \<Rightarrow> True | Ptr _ m \<Rightarrow> ids_ok (mb_roles m))"

lemma does_copy_member:
  assumes "member_ok p"
    and "\<And>q bs. mset bs = mset (member_own_blocks q) \<Longrightarrow> member_ok q \<Longrightarrow> (q = Nul \<longleftrightarrow> p = Nul) \<Longrightarrow>
      (q \<noteq> Nul \<longrightarrow> member_user q = user) \<Longrightarrow> P q bs []"
  shows "does (copy_member p user) P"
proof (cases p)
  case Nul
  with assms(2) [of "[]" Nul] show ?thesis
    by (auto simp: copy_member_def member_own_blocks_def member_ok_def intro!: does_intros)
next
  case (Ptr b m)
  have ids: "ids_ok (mb_roles m)" using assms(1) by (simp add: member_ok_def Ptr)
  have "does (copy_member p user) (\<lambda>q bs fs. mset bs = mset (member_own_blocks q) \<and> member_ok q \<and>
      q \<noteq> Nul \<and> member_user q = user \<and> fs = [])"
    unfolding Ptr copy_member_def ptr.case
    by (rule does_intros ids)+ (simp add: member_own_blocks_def member_ok_def member_user_def)
  then show ?thesis by (rule does_weaken) (use assms(2) Ptr in auto)
qed

lemma does_destroy_member:
  assumes "p \<noteq> Nul" and "\<And>fs. mset fs = mset (member_blocks p) \<Longrightarrow> P () [] fs"
  shows "does (destroy_member p) P"
proof -
  obtain b m where p: "p = Ptr b m" using assms(1) by (cases p) auto
  have "does (destroy_member p) (\<lambda>_ bs fs. bs = [] \<and> mset fs = mset (member_blocks p))"
    unfolding p destroy_member_def ptr.case
    by (rule does_intros user.destroy_rule TrueI)+
      (simp add: member_blocks_def member_own_blocks_def member_user_def)
  then show ?thesis by (rule does_weaken) (use assms(2) in auto)
qed

section \<open>Components (\<open>component.c\<close>)\<close>

record discord_select_option =
  so_label :: "string ptr"
  so_value :: "string ptr"
  so_description :: "string ptr"
  so_emoji :: "discord_emoji ptr"
  so_default :: bool

record discord_button =
  bt_style :: int
  bt_label :: "string ptr"
  bt_emoji :: "discord_emoji ptr"
  bt_custom_id :: "string ptr"
  bt_url :: "string ptr"
  bt_disabled :: bool

record discord_select_menu =
  sm_custom_id :: "string ptr"
  sm_options :: "discord_select_option ptr list ptr"
  sm_placeholder :: "string ptr"
  sm_min_values :: int
  sm_max_values :: int
  sm_disabled :: bool

record discord_text_input =
  ti_custom_id :: "string ptr"
  ti_style :: int
  ti_label :: "string ptr"
  ti_min_length :: int
  ti_max_length :: int
  ti_required :: bool
  ti_value :: "string ptr"
  ti_placeholder :: "string ptr"

text \<open>The type and the union of a component are one datatype; an unknown type keeps its number.\<close>

datatype discord_component =
    Action_Row "discord_component ptr list ptr ptr"
  | Button "discord_button ptr"
  | Select_Menu "discord_select_menu ptr"
  | Text_Input "discord_text_input ptr"
  | Other_Component int

definition json_to_select_option :: "'j cjson \<Rightarrow> 'j option \<Rightarrow> (mem, discord_select_option ptr) state" where
  "json_to_select_option J data = do {
     b \<leftarrow> fresh_blk;
     label \<leftarrow> get_string_from_json J data ''label'';
     v \<leftarrow> get_string_from_json J data ''value'';
     description \<leftarrow> get_string_from_json J data ''description'';
     emoji \<leftarrow> read_item J data ''emoji'' (json_to_emoji J);
     State_Monad.return (Ptr b
       \<lparr>so_label = label, so_value = v, so_description = description, so_emoji = emoji,
        so_default = get_bool_from_json J data ''default'' False\<rparr>) }"

definition copy_select_option :: "discord_select_option ptr \<Rightarrow> (mem, discord_select_option ptr) state" where
  "copy_select_option src =
     (case src of Nul \<Rightarrow> State_Monad.return Nul
      | Ptr _ x \<Rightarrow> do {
          b \<leftarrow> fresh_blk;
          label \<leftarrow> copy_str 101 (so_label x);
          v \<leftarrow> copy_str 101 (so_value x);
          description \<leftarrow> copy_str 101 (so_description x);
          emoji \<leftarrow> copy_emoji (so_emoji x);
          State_Monad.return (Ptr b
            \<lparr>so_label = label, so_value = v, so_description = description, so_emoji = emoji,
             so_default = so_default x\<rparr>) })"

definition destroy_select_option :: "discord_select_option ptr \<Rightarrow> (mem, unit) state" where
  "destroy_select_option p =
     (case p of Nul \<Rightarrow> fault
      | Ptr b x \<Rightarrow> do {
          _ \<leftarrow> free_ptr (so_label x);
          _ \<leftarrow> free_ptr (so_value x);
          _ \<leftarrow> free_ptr (so_description x);
          _ \<leftarrow> when_ptr destroy_emoji (so_emoji x);
          free_blk b })"

fun json_to_component :: "'j cjson \<Rightarrow> nat \<Rightarrow> 'j option \<Rightarrow> (mem, discord_component ptr) state" where
  "json_to_component J 0 data = State_Monad.return Nul"
| "json_to_component J (Suc k) data = do {
     b \<leftarrow> fresh_blk;
     let type1 = get_int_from_json J data ''type'' 0;
     c \<leftarrow>
       (if type1 = 1 then do {
          r \<leftarrow> fresh_blk;
          components \<leftarrow> get_array_from_json J data ''components'' (json_to_component J k);
          State_Monad.return (Action_Row (Ptr r components)) }
        else if type1 = 2 then do {
          r \<leftarrow> fresh_blk;
          label \<leftarrow> get_string_from_json J data ''label'';
          emoji \<leftarrow> read_item J data ''emoji'' (json_to_emoji J);
          custom_id \<leftarrow> get_string_from_json J data ''custom_id'';
          url \<leftarrow> get_string_from_json J data ''url'';
          State_Monad.return (Button (Ptr r
            \<lparr>bt_style = get_int_from_json J data ''style'' 1, bt_label = label, bt_emoji = emoji,
             bt_custom_id = custom_id, bt_url = url,
             bt_disabled = get_bool_from_json J data ''disabled'' False\<rparr>)) }
        else if type1 = 3 then do {
          r \<leftarrow> fresh_blk;
          custom_id \<leftarrow> get_string_from_json J data ''custom_id'';
          options1 \<leftarrow> get_array_from_json J data ''options'' (json_to_select_option J);
          placeholder \<leftarrow> get_string_from_json J data ''placeholder'';
          State_Monad.return (Select_Menu (Ptr r
            \<lparr>sm_custom_id = custom_id, sm_options = options1, sm_placeholder = placeholder,
             sm_min_values = get_int_from_json J data ''min_values'' 1,
             sm_max_values = get_int_from_json J data ''max_values'' 1,
             sm_disabled = get_bool_from_json J data ''disabled'' False\<rparr>)) }
        else if type1 = 4 then do {
          r \<leftarrow> fresh_blk;
          custom_id \<leftarrow> get_string_from_json J data ''custom_id'';
          label \<leftarrow> get_string_from_json J data ''label'';
          v \<leftarrow> get_string_from_json J data ''value'';
          placeholder \<leftarrow> get_string_from_json J data ''placeholder'';
          State_Monad.return (Text_Input (Ptr r
            \<lparr>ti_custom_id = custom_id, ti_style = get_int_from_json J data ''style'' 1, ti_label = label,
             ti_min_length = get_int_from_json J data ''min_length'' 0,
             ti_max_length = get_int_from_json J data ''max_length'' 1,
             ti_required = get_bool_from_json J data ''required'' False, ti_value = v,
             ti_placeholder = placeholder\<rparr>)) }
        else State_Monad.return (Other_Component type1));
     State_Monad.return (Ptr b c) }"

lemma traverse_list_cong [fundef_cong]:
  "xs = ys \<Longrightarrow> (\<And>x. x \<in> set ys \<Longrightarrow> f x = g x) \<Longrightarrow>
   State_Monad.traverse_list f xs = State_Monad.traverse_list g ys"
  by (induction xs arbitrary: ys) auto

lemma copy_array_cong [fundef_cong]:
  "p = q \<Longrightarrow> (\<And>b xs x. q = Ptr b xs \<Longrightarrow> x \<in> set xs \<Longrightarrow> f x = g x) \<Longrightarrow> copy_array f p = copy_array g q"
  by (auto simp: copy_array_def split: ptr.split cong: traverse_list_cong)

text \<open>The array of an action row: after \<open>calloc\<close> the pointer is NULL unless the count is positive.\<close>

definition copy_new_array :: "('a ptr \<Rightarrow> (mem, 'a ptr) state) \<Rightarrow> 'a ptr list ptr \<Rightarrow> (mem, 'a ptr list ptr) state" where
  "copy_new_array f p =
     (case p of Nul \<Rightarrow> State_Monad.return Nul
      | Ptr _ xs \<Rightarrow> if xs = [] then State_Monad.return Nul else copy_array f p)"

lemma copy_new_array_cong [fundef_cong]:
  "p = q \<Longrightarrow> (\<And>b xs x. q = Ptr b xs \<Longrightarrow> x \<in> set xs \<Longrightarrow> f x = g x) \<Longrightarrow>
   copy_new_array f p = copy_new_array g q"
  by (auto simp: copy_new_array_def split: ptr.split intro!: copy_array_cong)

lemma each_cong: "xs = ys \<Longrightarrow> (\<And>x. x \<in> set ys \<Longrightarrow> f x = g x) \<Longrightarrow> each f xs = each g ys"
  by (induction xs arbitrary: ys) auto

lemma destroy_array_cong [fundef_cong]:
  "p = q \<Longrightarrow> (\<And>b xs x. q = Ptr b xs \<Longrightarrow> x \<in> set xs \<Longrightarrow> f x = g x) \<Longrightarrow> destroy_array f p = destroy_array g q"
  by (auto simp: destroy_array_def split: ptr.split cong: each_cong)

lemma arr_blocks_cong [fundef_cong]:
  "p = q \<Longrightarrow> (\<And>b xs x. q = Ptr b xs \<Longrightarrow> x \<in> set xs \<Longrightarrow> f x = g x) \<Longrightarrow> arr_blocks f p = arr_blocks g q"
  by (auto simp: arr_blocks_def split: ptr.split cong: map_cong)

lemma component_smaller: "x \<in> set xs \<Longrightarrow> size_ptr size x < size_list (size_ptr size) xs"
  by (induction xs) auto

function (sequential) copy_component :: "discord_component ptr \<Rightarrow> (mem, discord_component ptr) state" where
  "copy_component Nul = State_Monad.return Nul"
| "copy_component (Ptr _ (Action_Row (Ptr _ components))) = do {
     b \<leftarrow> fresh_blk;
     r \<leftarrow> fresh_blk;
     cs \<leftarrow> copy_new_array copy_component components;
     State_Monad.return (Ptr b (Action_Row (Ptr r cs))) }"
| "copy_component (Ptr _ (Button (Ptr _ x))) = do {
     b \<leftarrow> fresh_blk;
     r \<leftarrow> fresh_blk;
     label \<leftarrow> copy_str 101 (bt_label x);
     emoji \<leftarrow> copy_emoji (bt_emoji x);
     custom_id \<leftarrow> copy_str 101 (bt_custom_id x);
     url \<leftarrow> copy_str 2050 (bt_url x);
     State_Monad.return (Ptr b (Button (Ptr r
       \<lparr>bt_style = bt_style x, bt_label = label, bt_emoji = emoji, bt_custom_id = custom_id,
        bt_url = url, bt_disabled = bt_disabled x\<rparr>))) }"
| "copy_component (Ptr _ (Select_Menu (Ptr _ x))) = do {
     b \<leftarrow> fresh_blk;
     r \<leftarrow> fresh_blk;
     custom_id \<leftarrow> copy_str 101 (sm_custom_id x);
     options1 \<leftarrow> copy_array copy_select_option (sm_options x);
     placeholder \<leftarrow> copy_str 151 (sm_placeholder x);
     State_Monad.return (Ptr b (Select_Menu (Ptr r
       (x\<lparr>sm_custom_id := custom_id, sm_options := options1, sm_placeholder := placeholder\<rparr>)))) }"
| "copy_component (Ptr _ (Text_Input (Ptr _ x))) = do {
     b \<leftarrow> fresh_blk;
     r \<leftarrow> fresh_blk;
     custom_id \<leftarrow> copy_str 101 (ti_custom_id x);
     label \<leftarrow> copy_str 50 (ti_label x);
     v \<leftarrow> copy_str 4001 (ti_value x);
     placeholder \<leftarrow> copy_str 101 (ti_placeholder x);
     State_Monad.return (Ptr b (Text_Input (Ptr r
       (x\<lparr>ti_custom_id := custom_id, ti_label := label, ti_value := v, ti_placeholder := placeholder\<rparr>)))) }"
| "copy_component (Ptr _ (Other_Component t)) = do {
     b \<leftarrow> fresh_blk; State_Monad.return (Ptr b (Other_Component t)) }"
| "copy_component (Ptr _ _) = do { _ \<leftarrow> fault; State_Monad.return Nul }"
  by pat_completeness auto
termination by (relation "measure (size_ptr size)") (auto dest: component_smaller)


text \<open>No case frees the structure the union points to.\<close>

function (sequential) destroy_component :: "discord_component ptr \<Rightarrow> (mem, unit) state" where
  "destroy_component (Ptr b (Action_Row (Ptr _ components))) = do {
     _ \<leftarrow> destroy_array destroy_component components;
     free_blk b }"
| "destroy_component (Ptr b (Button (Ptr _ x))) = do {
     _ \<leftarrow> free_ptr (bt_label x);
     _ \<leftarrow> when_ptr destroy_emoji (bt_emoji x);
     _ \<leftarrow> free_ptr (bt_custom_id x);
     _ \<leftarrow> free_ptr (bt_url x);
     free_blk b }"
| "destroy_component (Ptr b (Select_Menu (Ptr _ x))) = do {
     _ \<leftarrow> free_ptr (sm_custom_id x);
     _ \<leftarrow> destroy_array destroy_select_option (sm_options x);
     _ \<leftarrow> free_ptr (sm_placeholder x);
     free_blk b }"
| "destroy_component (Ptr b (Text_Input (Ptr _ x))) = do {
     _ \<leftarrow> free_ptr (ti_custom_id x);
     _ \<leftarrow> free_ptr (ti_label x);
     _ \<leftarrow> free_ptr (ti_value x);
     _ \<leftarrow> free_ptr (ti_placeholder x);
     free_blk b }"
| "destroy_component (Ptr b (Other_Component _)) = free_blk b"
| "destroy_component _ = fault"
  by pat_completeness auto
termination by (relation "measure (size_ptr size)") (auto dest: component_smaller)

definition option_blocks :: "discord_select_option ptr \<Rightarrow> nat list" where
  "option_blocks p =
     (case p of Nul \<Rightarrow> []
      | Ptr b x \<Rightarrow> b # blk_of (so_label x) @ blk_of (so_value x) @ blk_of (so_description x) @ blk_of (so_emoji x))"

definition option_ok :: "discord_select_option ptr \<Rightarrow> bool" where
  "option_ok p = (case p of Nul \<Rightarrow> True | Ptr _ x \<Rightarrow> so_emoji x = Nul)"

definition option_content :: "discord_select_option ptr \<Rightarrow> discord_select_option option" where
  "option_content p =
     (case p of Nul \<Rightarrow> None
      | Ptr _ x \<Rightarrow> Some (x\<lparr>so_label := erase (so_label x), so_value := erase (so_value x),
          so_description := erase (so_description x)\<rparr>))"

definition option_small :: "discord_select_option ptr \<Rightarrow> bool" where
  "option_small p =
     (case p of Nul \<Rightarrow> True
      | Ptr _ x \<Rightarrow> fits 101 (so_label x) \<and> fits 101 (so_value x) \<and> fits 101 (so_description x))"

interpretation select_option: owned_struct option_ok option_blocks option_content option_small
    copy_select_option destroy_select_option
proof (unfold_locales, goal_cases)
  case 1
  then show ?case by (simp add: option_blocks_def)
next
  case (2 p)
  show ?case
  proof (cases p)
    case Nul
    then show ?thesis
      by (auto simp: copy_select_option_def option_blocks_def option_ok_def intro!: does_intros)
  next
    case (Ptr b x)
    with 2 have "so_emoji x = Nul" by (simp add: option_ok_def)
    then show ?thesis
      unfolding Ptr copy_select_option_def ptr.case copy_emoji_def
      by - ((rule does_intros)+, simp add: option_blocks_def option_content_def option_small_def option_ok_def)
  qed
next
  case (3 p)
  then obtain b x where p: "p = Ptr b x" by (cases p) auto
  with 3 have e: "so_emoji x = Nul" by (simp add: option_ok_def)
  show ?case
    unfolding p destroy_select_option_def ptr.case e when_ptr_def
    by (rule does_intros)+ (simp add: option_blocks_def e)
qed

text \<open>The blocks of a component, and among them those of the structures its unions point to.\<close>

function component_blocks :: "discord_component ptr \<Rightarrow> nat list" where
  "component_blocks Nul = []"
| "component_blocks (Ptr b c) = b #
     (case c of
        Action_Row Nul \<Rightarrow> []
      | Action_Row (Ptr r components) \<Rightarrow> r # arr_blocks component_blocks components
      | Button Nul \<Rightarrow> []
      | Button (Ptr r x) \<Rightarrow> r # blk_of (bt_label x) @ blk_of (bt_emoji x) @ blk_of (bt_custom_id x) @ blk_of (bt_url x)
      | Select_Menu Nul \<Rightarrow> []
      | Select_Menu (Ptr r x) \<Rightarrow> r # blk_of (sm_custom_id x) @ arr_blocks option_blocks (sm_options x) @
          blk_of (sm_placeholder x)
      | Text_Input Nul \<Rightarrow> []
      | Text_Input (Ptr r x) \<Rightarrow> r # blk_of (ti_custom_id x) @ blk_of (ti_label x) @ blk_of (ti_value x) @
          blk_of (ti_placeholder x)
      | Other_Component _ \<Rightarrow> [])"
  by pat_completeness auto
termination by (relation "measure (size_ptr size)") (auto dest: component_smaller)

function component_inner :: "discord_component ptr \<Rightarrow> nat list" where
  "component_inner Nul = []"
| "component_inner (Ptr b c) =
     (case c of
        Action_Row Nul \<Rightarrow> []
      | Action_Row (Ptr r components) \<Rightarrow>
          r # (case components of Nul \<Rightarrow> [] | Ptr _ xs \<Rightarrow> concat (map component_inner xs))
      | Button p \<Rightarrow> blk_of p
      | Select_Menu p \<Rightarrow> blk_of p
      | Text_Input p \<Rightarrow> blk_of p
      | Other_Component _ \<Rightarrow> [])"
  by pat_completeness auto
termination by (relation "measure (size_ptr size)") (auto dest: component_smaller)

lemma arr_ok_mono [mono]: "(\<And>x. A x \<longrightarrow> B x) \<Longrightarrow> arr_ok A p \<longrightarrow> arr_ok B p"
  by (auto simp: arr_ok_def split: ptr.split)

text \<open>The components that are fully built: no NULL where the destructor looks.\<close>

inductive component_ok :: "discord_component ptr \<Rightarrow> bool" where
  row: "arr_ok component_ok components \<Longrightarrow> component_ok (Ptr b (Action_Row (Ptr r components)))"
| button: "bt_emoji x = Nul \<Longrightarrow> component_ok (Ptr b (Button (Ptr r x)))"
| menu: "arr_ok option_ok (sm_options x) \<Longrightarrow> component_ok (Ptr b (Select_Menu (Ptr r x)))"
| input: "component_ok (Ptr b (Text_Input (Ptr r x)))"
| other: "component_ok (Ptr b (Other_Component t))"

inductive_cases component_okE: "component_ok p"


lemma does_each_leak:
  assumes "\<And>x. x \<in> set xs \<Longrightarrow> does (f x) (\<lambda>_ bs fs. bs = [] \<and> mset fs + mset (I x) = mset (B x))"
  shows "does (each f xs) (\<lambda>_ bs fs. bs = [] \<and>
    mset fs + mset (concat (map I xs)) = mset (concat (map B xs)))"
  using assms
proof (induction xs)
  case Nil
  show ?case by (auto intro!: does_intros)
next
  case (Cons x xs)
  have "does (f x) (\<lambda>_ bs fs. bs = [] \<and> mset fs + mset (I x) = mset (B x))" using Cons.prems by simp
  moreover have "does (each f xs) (\<lambda>_ bs fs. bs = [] \<and>
      mset fs + mset (concat (map I xs)) = mset (concat (map B xs)))"
    using Cons by simp
  moreover have "mset fs + mset fs' + (mset (I x) + mset (concat (map I xs))) =
      mset (B x) + mset (concat (map B xs))"
    if "mset fs + mset (I x) = mset (B x)" "mset fs' + mset (concat (map I xs)) = mset (concat (map B xs))"
    for fs fs'
    using that by (metis (no_types, lifting) union_assoc union_commute)
  ultimately show ?case
    by (auto intro!: does_bind elim!: does_weaken)
qed

text \<open>Destroying a component frees every block of it except those of the inner structures.\<close>

lemma component_destroy_does:
  "component_ok p \<Longrightarrow> does (destroy_component p)
     (\<lambda>_ bs fs. bs = [] \<and> mset fs + mset (component_inner p) = mset (component_blocks p))"
proof (induction rule: component_ok.induct)
  case (row components b r)
  show ?case
  proof (cases components)
    case Nul
    then show ?thesis
      by (auto simp: destroy_array_def arr_blocks_def intro!: does_intros)
  next
    case (Ptr a xs)
    have "does (each destroy_component xs) (\<lambda>_ bs fs. bs = [] \<and>
        mset fs + mset (concat (map component_inner xs)) = mset (concat (map component_blocks xs)))"
      by (rule does_each_leak) (use row.IH in \<open>auto simp: Ptr arr_ok_def\<close>)
    then show ?thesis
      by (auto simp: Ptr destroy_array_def arr_blocks_def intro!: does_intros elim!: does_weaken)
  qed
next
  case (button x b r)
  then show ?case by (auto simp: when_ptr_def intro!: does_intros)
next
  case (menu x b r)
  show ?case
    unfolding destroy_component.simps
    by (rule does_intros select_option.destroy_array_rule menu)+ simp
next
  case (input b r x)
  show ?case
    unfolding destroy_component.simps by (rule does_intros)+ simp
next
  case (other b t)
  show ?case by (auto intro!: does_intros)
qed

lemma component_ok_not_Nul: "component_ok p \<Longrightarrow> p \<noteq> Nul"
  by (auto elim: component_ok.cases)

text \<open>A copy of a component is fully built and consists of new blocks.\<close>

lemma component_copy_does:
  "component_ok p \<Longrightarrow> does (copy_component p)
     (\<lambda>q bs fs. mset bs = mset (component_blocks q) \<and> fs = [] \<and> component_ok q)"
proof (induction rule: component_ok.induct)
  case (row components b r)
  show ?case
  proof (cases components)
    case Nul
    have "component_ok (Ptr c (Action_Row (Ptr d Nul)))" for c d
      by (rule component_ok.row) (simp add: arr_ok_def)
    with Nul show ?thesis
      by (auto simp: copy_new_array_def arr_blocks_def intro!: does_intros)
  next
    case (Ptr a xs)
    have xs: "xs \<noteq> []" using row by (auto simp: Ptr arr_ok_def)
    have t: "does (State_Monad.traverse_list copy_component xs) (\<lambda>ys bs fs.
        mset bs = mset (concat (map component_blocks ys)) \<and> fs = [] \<and> list_all2 (\<lambda>_. component_ok) xs ys)"
      by (rule does_traverse) (use row.IH in \<open>auto simp: Ptr arr_ok_def\<close>)
    have "component_ok (Ptr c (Action_Row (Ptr d (Ptr e ys))))"
      if "list_all2 (\<lambda>_. component_ok) xs ys" for c d e ys
    proof (rule component_ok.row)
      have "length ys = length xs" using that by (simp add: list_all2_lengthD)
      with xs have "ys \<noteq> []" by auto
      moreover have "\<forall>y \<in> set ys. component_ok y"
        using that by (auto simp: list_all2_conv_all_nth in_set_conv_nth)
      ultimately show "arr_ok component_ok (Ptr e ys)"
        using component_ok_not_Nul by (auto simp: arr_ok_def)
    qed
    with t xs show ?thesis
      by (auto simp: Ptr copy_new_array_def copy_array_def arr_blocks_def intro!: does_intros elim!: does_weaken)
  qed
next
  case (button x b r)
  show ?case
    unfolding copy_component.simps copy_emoji_def
    by (rule does_intros)+ (simp add: component_ok.button button)
next
  case (menu x b r)
  show ?case
    unfolding copy_component.simps
    by (rule does_intros select_option.copy_array_rule menu)+ (simp add: component_ok.menu)
next
  case (input b r x)
  show ?case
    unfolding copy_component.simps by (rule does_intros)+ (simp add: component_ok.input)
next
  case (other b t)
  show ?case by (auto intro!: does_intros component_ok.other)
qed


section \<open>Channels (\<open>channel.c\<close>)\<close>

record discord_channel =
  ch_id :: u64
  ch_type :: int
  ch_guild_id :: u64
  ch_position :: int
  ch_permission_overwrites :: "discord_overwrite ptr list ptr"
  ch_name :: "string ptr"
  ch_topic :: "string ptr"
  ch_nsfw :: bool
  ch_last_message_id :: u64
  ch_bitrate :: int
  ch_user_limit :: int
  ch_rate_limit_per_user :: int
  ch_recipients :: "discord_user ptr list ptr"
  ch_icon :: "string ptr"
  ch_owner_id :: u64
  ch_application_id :: u64
  ch_parent_id :: u64
  ch_last_pin_timestamp :: "string ptr"
  ch_rtc_region :: "string ptr"
  ch_video_quality_mode :: int
  ch_message_count :: int
  ch_member_count :: int
  ch_thread_metadata :: "discord_thread_metadata ptr"
  ch_member :: "discord_thread_member ptr"
  ch_default_auto_archive_duration :: int
  ch_permissions :: "string ptr"
  ch_flags :: int

definition json_to_channel :: "'j cjson \<Rightarrow> 'j option \<Rightarrow> (mem, discord_channel ptr) state" where
  "json_to_channel J data = do {
     b \<leftarrow> fresh_blk;
     overwrites \<leftarrow> get_array_from_json J data ''permission_overwrites'' (json_to_overwrite J);
     name \<leftarrow> get_string_from_json J data ''name'';
     topic \<leftarrow> get_string_from_json J data ''topic'';
     recipients \<leftarrow> get_array_from_json J data ''recipients'' (json_to_user J);
     icon \<leftarrow> get_string_from_json J data ''icon'';
     last_pin \<leftarrow> get_string_from_json J data ''last_pin_timestamp'';
     rtc_region \<leftarrow> get_string_from_json J data ''rtc_region'';
     metadata \<leftarrow> read_item J data ''thread_metadata'' (json_to_thread_metadata J);
     mem1 \<leftarrow> read_item J data ''member'' (json_to_thread_member J);
     permissions \<leftarrow> get_string_from_json J data ''permissions'';
     State_Monad.return (Ptr b
       \<lparr>ch_id = get_long_from_string_json J data ''id'' 0,
        ch_type = get_int_from_json J data ''type'' 0,
        ch_guild_id = get_long_from_string_json J data ''guild_id'' 0,
        ch_position = get_int_from_json J data ''position'' (- 1),
        ch_permission_overwrites = overwrites, ch_name = name, ch_topic = topic,
        ch_nsfw = get_bool_from_json J data ''nsfw'' False,
        ch_last_message_id = get_long_from_string_json J data ''last_message_id'' 0,
        ch_bitrate = get_int_from_json J data ''bitrate'' 0,
        ch_user_limit = get_int_from_json J data ''user_limit'' 0,
        ch_rate_limit_per_user = get_int_from_json J data ''rate_limit_per_user'' 0,
        ch_recipients = recipients, ch_icon = icon,
        ch_owner_id = get_long_from_string_json J data ''owner_id'' 0,
        ch_application_id = get_long_from_string_json J data ''application_id'' 0,
        ch_parent_id = get_long_from_string_json J data ''parent_id'' 0,
        ch_last_pin_timestamp = last_pin, ch_rtc_region = rtc_region,
        ch_video_quality_mode = get_int_from_json J data ''video_quality_mode'' 1,
        ch_message_count = get_int_from_json J data ''message_count'' 0,
        ch_member_count = get_int_from_json J data ''member_count'' 0,
        ch_thread_metadata = metadata, ch_member = mem1,
        ch_default_auto_archive_duration = get_int_from_json J data ''default_auto_archive_duration'' 0,
        ch_permissions = permissions, ch_flags = get_int_from_json J data ''flags'' 0\<rparr>) }"

text \<open>A copied icon is stored in \<open>topic\<close>; the \<open>icon\<close> pointer stays the one \<open>memcpy\<close> copied.\<close>

definition copy_channel :: "discord_channel ptr \<Rightarrow> (mem, discord_channel ptr) state" where
  "copy_channel src =
     (case src of Nul \<Rightarrow> State_Monad.return Nul
      | Ptr _ ch \<Rightarrow> do {
          b \<leftarrow> fresh_blk;
          overwrites \<leftarrow> copy_array copy_overwrite (ch_permission_overwrites ch);
          name \<leftarrow> copy_str 101 (ch_name ch);
          topic \<leftarrow> copy_str 1025 (ch_topic ch);
          recipients \<leftarrow> copy_array copy_user (ch_recipients ch);
          topic' \<leftarrow> (if ch_icon ch \<noteq> Nul then copy_str 1025 (ch_icon ch) else State_Monad.return topic);
          last_pin \<leftarrow> copy_str 100 (ch_last_pin_timestamp ch);
          rtc_region \<leftarrow> copy_str 100 (ch_rtc_region ch);
          metadata \<leftarrow> copy_thread_metadata (ch_thread_metadata ch);
          mem1 \<leftarrow> copy_thread_member (ch_member ch);
          permissions \<leftarrow> copy_str 100 (ch_permissions ch);
          State_Monad.return (Ptr b (ch\<lparr>ch_permission_overwrites := overwrites, ch_name := name,
            ch_topic := topic', ch_recipients := recipients, ch_last_pin_timestamp := last_pin,
            ch_rtc_region := rtc_region, ch_thread_metadata := metadata, ch_member := mem1,
            ch_permissions := permissions\<rparr>)) })"

definition destroy_channel :: "discord_channel ptr \<Rightarrow> (mem, unit) state" where
  "destroy_channel p =
     (case p of Nul \<Rightarrow> fault
      | Ptr b ch \<Rightarrow> do {
          _ \<leftarrow> free_ptr (ch_name ch);
          _ \<leftarrow> free_ptr (ch_topic ch);
          _ \<leftarrow> free_ptr (ch_icon ch);
          _ \<leftarrow> free_ptr (ch_last_pin_timestamp ch);
          _ \<leftarrow> free_ptr (ch_rtc_region ch);
          _ \<leftarrow> free_ptr (ch_permissions ch);
          _ \<leftarrow> destroy_array destroy_overwrite (ch_permission_overwrites ch);
          _ \<leftarrow> destroy_array destroy_user (ch_recipients ch);
          _ \<leftarrow> free_ptr (ch_thread_metadata ch);
          _ \<leftarrow> free_ptr (ch_member ch);
          free_blk b })"

record discord_channel_mention =
  cm_id :: u64
  cm_guild_id :: u64
  cm_type :: int
  cm_name :: "string ptr"

definition json_to_channel_mention :: "'j cjson \<Rightarrow> 'j option \<Rightarrow> (mem, discord_channel_mention ptr) state" where
  "json_to_channel_mention J data = do {
     b \<leftarrow> fresh_blk;
     name \<leftarrow> get_string_from_json J data ''name'';
     State_Monad.return (Ptr b
       \<lparr>cm_id = get_long_from_string_json J data ''id'' 0,
        cm_guild_id = get_long_from_string_json J data ''guild_id'' 0,
        cm_type = get_int_from_json J data ''type'' 0, cm_name = name\<rparr>) }"

definition destroy_channel_mention :: "discord_channel_mention ptr \<Rightarrow> (mem, unit) state" where
  "destroy_channel_mention p =
     (case p of Nul \<Rightarrow> fault
      | Ptr b x \<Rightarrow> do { _ \<leftarrow> free_ptr (cm_name x); free_blk b })"

definition channel_blocks :: "discord_channel ptr \<Rightarrow> nat list" where
  "channel_blocks p =
     (case p of Nul \<Rightarrow> []
      | Ptr b ch \<Rightarrow> b # blk_of (ch_permission_overwrites ch) @ blk_of (ch_name ch) @ blk_of (ch_topic ch) @
          arr_blocks user_blocks (ch_recipients ch) @ blk_of (ch_icon ch) @
          blk_of (ch_last_pin_timestamp ch) @ blk_of (ch_rtc_region ch) @ blk_of (ch_permissions ch))"

definition channel_ok :: "discord_channel ptr \<Rightarrow> bool" where
  "channel_ok p =
     (case p of Nul \<Rightarrow> True
      | Ptr _ ch \<Rightarrow> nul_array (ch_permission_overwrites ch) \<and> arr_ok (\<lambda>_. True) (ch_recipients ch) \<and>
          ch_thread_metadata ch = Nul \<and> ch_member ch = Nul)"

definition channel_icon :: "discord_channel ptr \<Rightarrow> string ptr" where
  "channel_icon p = (case p of Nul \<Rightarrow> Nul | Ptr _ ch \<Rightarrow> ch_icon ch)"

definition channel_topic :: "discord_channel ptr \<Rightarrow> string ptr" where
  "channel_topic p = (case p of Nul \<Rightarrow> Nul | Ptr _ ch \<Rightarrow> ch_topic ch)"

definition channel_content where
  "channel_content p =
     (case p of Nul \<Rightarrow> None
      | Ptr _ ch \<Rightarrow> Some (ch_id ch, ch_type ch, ch_guild_id ch, ch_position ch, erase (ch_name ch),
          erase (ch_topic ch), ch_nsfw ch, ch_last_message_id ch, ch_bitrate ch, ch_user_limit ch,
          ch_rate_limit_per_user ch, arr_content user_content (ch_recipients ch), ch_owner_id ch,
          ch_application_id ch, ch_parent_id ch, erase (ch_last_pin_timestamp ch),
          erase (ch_rtc_region ch), ch_video_quality_mode ch, ch_message_count ch, ch_member_count ch,
          ch_default_auto_archive_duration ch, erase (ch_permissions ch), ch_flags ch))"

definition channel_small :: "discord_channel ptr \<Rightarrow> bool" where
  "channel_small p =
     (case p of Nul \<Rightarrow> True
      | Ptr _ ch \<Rightarrow> fits 101 (ch_name ch) \<and> fits 1025 (ch_topic ch) \<and> arr_all user_small (ch_recipients ch) \<and>
          fits 100 (ch_last_pin_timestamp ch) \<and> fits 100 (ch_rtc_region ch) \<and> fits 100 (ch_permissions ch))"

lemma channel_destroy_does:
  assumes "channel_ok p" and "p \<noteq> Nul"
  shows "does (destroy_channel p) (\<lambda>_ bs fs. bs = [] \<and> mset fs = mset (channel_blocks p))"
proof -
  obtain b ch where p: "p = Ptr b ch" using assms(2) by (cases p) auto
  from assms(1) have ok: "nul_array (ch_permission_overwrites ch)" "arr_ok (\<lambda>_. True) (ch_recipients ch)"
      "ch_thread_metadata ch = Nul" "ch_member ch = Nul"
    by (simp_all add: channel_ok_def p)
  have no: "destroy_overwrite x = State_Monad.return ()" for x by (simp add: destroy_overwrite_def)
  show ?thesis
    unfolding p destroy_channel_def ptr.case ok(3,4)
    by (rule does_intros does_destroy_nul_array no user.destroy_array_rule ok(2))+
      (simp add: channel_blocks_def)
qed

lemma channel_copy_plain:
  assumes "channel_ok p" and "channel_icon p = Nul"
  shows "does (copy_channel p) (\<lambda>q bs fs. mset bs = mset (channel_blocks q) \<and> fs = [] \<and>
     (channel_ok q \<and> channel_icon q = Nul) \<and> (q = Nul \<longleftrightarrow> p = Nul) \<and>
     (channel_small p \<longrightarrow> channel_content q = channel_content p))"
proof (cases p)
  case Nul
  then show ?thesis
    by (auto simp: copy_channel_def channel_blocks_def channel_ok_def channel_icon_def intro!: does_intros)
next
  case (Ptr b ch)
  from assms have ok: "nul_array (ch_permission_overwrites ch)" "arr_ok (\<lambda>_. True) (ch_recipients ch)"
      "ch_icon ch = Nul"
    by (simp_all add: channel_ok_def channel_icon_def Ptr)
  have no: "copy_overwrite x = State_Monad.return Nul" for x by (simp add: copy_overwrite_def)
  show ?thesis
    unfolding Ptr copy_channel_def ptr.case copy_thread_metadata_def copy_thread_member_def ok(3)
      not_True_eq_False simp_thms if_False
    by (rule does_intros does_copy_nul_array no user.copy_array_rule ok(1,2))+
      (simp add: channel_blocks_def channel_content_def channel_small_def channel_ok_def
        channel_icon_def ok(3))
qed

interpretation channel: owned_struct "\<lambda>p. channel_ok p \<and> channel_icon p = Nul" channel_blocks
    channel_content channel_small copy_channel destroy_channel
proof (unfold_locales, goal_cases)
  case 1
  then show ?case by (simp add: channel_blocks_def)
next
  case (2 p)
  then show ?case using channel_copy_plain [of p] by simp
next
  case (3 p)
  then show ?case using channel_destroy_does by blast
qed

text \<open>With an icon the copy shares the icon's block, and its topic holds the icon.\<close>

lemma channel_copy_icon:
  assumes "channel_ok p" and "channel_icon p = Ptr i s"
  shows "does (copy_channel p) (\<lambda>q bs fs. fs = [] \<and> channel_ok q \<and> q \<noteq> Nul \<and>
     mset (channel_blocks q) \<subseteq># add_mset i (mset bs) \<and> channel_icon q = Ptr i s \<and>
     erase (channel_topic q) = Ptr 0 (strndup s 1025))"
proof -
  obtain b ch where p: "p = Ptr b ch" using assms(2) by (cases p) (auto simp: channel_icon_def)
  from assms have ok: "nul_array (ch_permission_overwrites ch)" "arr_ok (\<lambda>_. True) (ch_recipients ch)"
      "ch_icon ch = Ptr i s"
    by (simp_all add: channel_ok_def channel_icon_def p)
  have no: "copy_overwrite x = State_Monad.return Nul" for x by (simp add: copy_overwrite_def)
  have icon: "does (copy_str 1025 (Ptr i s)) P" if "\<And>a. P (Ptr a (strndup s 1025)) [a] []" for P
    unfolding copy_str_def ptr.case by (rule does_intros)+ (simp add: that)
  have sel: "(if Ptr i s \<noteq> Nul then copy_str 1025 (Ptr i s) else State_Monad.return topic) =
      copy_str 1025 (Ptr i s)" for topic by simp
  show ?thesis
    unfolding p copy_channel_def ptr.case copy_thread_metadata_def copy_thread_member_def ok(3) sel
    by (rule does_bind icon does_return does_fresh does_copy_nul_array no user.copy_array_rule ok(1,2)
        does_copy_str)+
      (simp add: channel_blocks_def channel_ok_def channel_icon_def channel_topic_def ok(3) erase_def)
qed


section \<open>What the readers build\<close>

lemma select_option_json_does:
  "json_laws J \<Longrightarrow>
   does (json_to_select_option J data) (\<lambda>q bs fs. mset bs = mset (option_blocks q) \<and> fs = [] \<and>
     option_ok q \<and> q \<noteq> Nul)"
proof -
  assume laws: "json_laws J"
  have e: "read_item J data ''emoji'' (json_to_emoji J) = State_Monad.return Nul"
    by (simp add: read_item_def json_to_emoji_def split: option.split)
  show ?thesis
    unfolding json_to_select_option_def e
    by (rule does_intros laws)+ (simp add: option_blocks_def option_ok_def)
qed

lemma does_read_array:
  assumes "\<And>j. j \<in> set (json_items J (get_object_item J data name)) \<Longrightarrow>
      does (func (Some j)) (\<lambda>y bs fs. mset bs = mset (B y) \<and> fs = [] \<and> W y \<and> y \<noteq> Nul)"
    and "\<And>q bs. mset bs = mset (arr_blocks B q) \<Longrightarrow> arr_ok W q \<Longrightarrow> P q bs []"
  shows "does (get_array_from_json J data name func) P"
proof (rule does_get_array [where B = B and Q = "\<lambda>y. W y \<and> y \<noteq> Nul"])
  fix q :: "'b ptr list ptr" and bs
  assume bs: "mset bs = mset (arr_blocks B q)"
    and n: "(q = Nul) = (json_items J (get_object_item J data name) = [])"
    and xs: "case q of Nul \<Rightarrow> True | Ptr _ xs \<Rightarrow>
      length xs = length (json_items J (get_object_item J data name)) \<and> list_all (\<lambda>y. W y \<and> y \<noteq> Nul) xs"
  have "arr_ok W q" using n xs by (cases q) (auto simp: arr_ok_def list_all_iff)
  with bs show "P q bs []" by (rule assms(2))
qed (rule assms(1))

lemma component_json_does:
  "json_laws J \<Longrightarrow> json_depth J k j \<Longrightarrow>
   does (json_to_component J k (Some j)) (\<lambda>q bs fs. mset bs = mset (component_blocks q) \<and> fs = [] \<and>
     component_ok q \<and> q \<noteq> Nul)"
proof (induction k arbitrary: j)
  case (Suc k)
  have e: "read_item J d ''emoji'' (json_to_emoji J) = State_Monad.return Nul" for d
    by (simp add: read_item_def json_to_emoji_def split: option.split)
  have comps: "does (get_array_from_json J (Some j) ''components'' (json_to_component J k)) P"
    if "\<And>q bs. mset bs = mset (arr_blocks component_blocks q) \<Longrightarrow> arr_ok component_ok q \<Longrightarrow> P q bs []" for P
  proof (rule does_read_array [where B = component_blocks and W = component_ok])
    show "P q bs []" if "mset bs = mset (arr_blocks component_blocks q)" "arr_ok component_ok q" for q bs
      using that \<open>\<And>q bs. mset bs = mset (arr_blocks component_blocks q) \<Longrightarrow> arr_ok component_ok q \<Longrightarrow> P q bs []\<close>
      by blast
  next
    fix x assume "x \<in> set (json_items J (get_object_item J (Some j) ''components''))"
    then have "json_depth J k x" using json_depth_items Suc.prems by metis
    then show "does (json_to_component J k (Some x)) (\<lambda>y bs fs. mset bs = mset (component_blocks y) \<and>
        fs = [] \<and> component_ok y \<and> y \<noteq> Nul)"
      by (rule Suc.IH [OF Suc.prems(1)])
  qed
  have opts: "does (get_array_from_json J (Some j) ''options'' (json_to_select_option J)) P"
    if "\<And>q bs. mset bs = mset (arr_blocks option_blocks q) \<Longrightarrow> arr_ok option_ok q \<Longrightarrow> P q bs []" for P
    by (rule does_read_array [where B = option_blocks and W = option_ok])
      (use select_option_json_does Suc.prems(1) that in auto)
  let ?t = "get_int_from_json J (Some j) ''type'' 0"
  consider "?t = 1" | "?t = 2" | "?t = 3" | "?t = 4" | "?t \<notin> {1, 2, 3, 4}" by auto
  then show ?case
  proof cases
    case 1
    show ?thesis unfolding json_to_component.simps Let_def 1 e
      by (simp only: refl if_True, (rule does_intros comps Suc.prems(1))+) (simp add: component_ok.row)
  next
    case 2
    show ?thesis unfolding json_to_component.simps Let_def 2 e
      by (simp, (rule does_intros comps Suc.prems(1))+) (simp add: component_ok.button)
  next
    case 3
    show ?thesis unfolding json_to_component.simps Let_def 3 e
      by (simp, (rule does_intros opts Suc.prems(1))+) (simp add: component_ok.menu)
  next
    case 4
    show ?thesis unfolding json_to_component.simps Let_def 4 e
      by (simp, (rule does_intros Suc.prems(1))+) (simp add: component_ok.input)
  next
    case 5
    then show ?thesis unfolding json_to_component.simps Let_def
      by (simp, intro does_intros) (simp add: component_ok.other)
  qed
qed simp

end
