(* ===== verification/Messages.thy ===== *)
theory Messages
  imports Structs2
begin

text \<open>
  Messages (\<open>message.c\<close>) and interactions (\<open>interaction.c\<close>), which contain each other. The
  members of the two structures that do not lead from one to the other are flat records; the
  mutual datatypes add the pointers that do. Readers take the nesting depth as fuel, copies and
  destructors recurse over the structure. Where the program stores a structure of one type and
  uses it at another (mentioned channels, selected values, integer options), the model follows the
  memory layout of 64-bit C and marks the memory bad when the access leaves the structure or
  follows a pointer that is not one.
\<close>

section \<open>The options and data of an interaction\<close>

text \<open>The union of values; \<open>V_Zero\<close> are the zero bytes \<open>calloc\<close> left.\<close>

datatype option_value = V_Zero | V_String "string ptr" | V_Int int | V_Double rat

record data_option_fields =
  do_name :: "string ptr"
  do_type :: int
  do_value_type :: int
  do_value :: option_value
  do_focused :: bool

datatype discord_data_option = Data_Option data_option_fields "discord_data_option ptr list ptr"

fun json_to_data_option :: "'j cjson \<Rightarrow> nat \<Rightarrow> 'j option \<Rightarrow> (mem, discord_data_option ptr) state" where
  "json_to_data_option J 0 data = State_Monad.return Nul"
| "json_to_data_option J (Suc k) data = do {
     b \<leftarrow> fresh_blk;
     name \<leftarrow> get_string_from_json J data ''name'';
     let type1 = get_int_from_json J data ''type'' 0;
     v \<leftarrow> (if type1 = 3 then do {
             s \<leftarrow> get_string_from_json J data ''value''; State_Monad.return (V_String s) }
           else State_Monad.return
             (if type1 = 4 then V_Int (get_int_from_json J data ''value'' 0)
              else if type1 = 10 then V_Double (get_double_from_string_json J data ''value'' 0)
              else V_Zero));
     options1 \<leftarrow> get_array_from_json J data ''options'' (json_to_data_option J k);
     State_Monad.return (Ptr b (Data_Option
       \<lparr>do_name = name, do_type = type1, do_value_type = 0, do_value = v,
        do_focused = get_bool_from_json J data ''focused'' False\<rparr> options1)) }"

text \<open>
  \<open>value_type\<close> is never set, so it is 0, \<open>VALUE_STRING\<close>, and any non-zero value is copied as
  a string: a non-zero number is used as a pointer.
\<close>

definition copy_option_value :: "int \<Rightarrow> option_value \<Rightarrow> (mem, option_value) state" where
  "copy_option_value value_type v =
     (if value_type \<noteq> 0 then State_Monad.return v
      else case v of
             V_Zero \<Rightarrow> State_Monad.return V_Zero
           | V_String p \<Rightarrow> do { q \<leftarrow> copy_str 120 p; State_Monad.return (V_String q) }
           | V_Int i \<Rightarrow> if i = 0 then State_Monad.return v else do { _ \<leftarrow> fault; State_Monad.return v }
           | V_Double d \<Rightarrow> if d = 0 then State_Monad.return v else do { _ \<leftarrow> fault; State_Monad.return v })"

function (sequential) copy_data_option :: "discord_data_option ptr \<Rightarrow> (mem, discord_data_option ptr) state" where
  "copy_data_option Nul = State_Monad.return Nul"
| "copy_data_option (Ptr _ (Data_Option x options1)) = do {
     b \<leftarrow> fresh_blk;
     name \<leftarrow> copy_str 50 (do_name x);
     v \<leftarrow> copy_option_value (do_value_type x) (do_value x);
     os \<leftarrow> copy_array copy_data_option options1;
     State_Monad.return (Ptr b (Data_Option (x\<lparr>do_name := name, do_value := v\<rparr>) os)) }"
  by pat_completeness auto
termination by (relation "measure (size_ptr size)") (auto dest: component_smaller)

text \<open>Only the value of a string option is freed; \<open>free(o->options)\<close> frees the array or nothing.\<close>

function (sequential) destroy_data_option :: "discord_data_option ptr \<Rightarrow> (mem, unit) state" where
  "destroy_data_option Nul = fault"
| "destroy_data_option (Ptr b (Data_Option x options1)) = do {
     _ \<leftarrow> free_ptr (do_name x);
     _ \<leftarrow> (if do_type x = 3
           then (case do_value x of V_String p \<Rightarrow> free_ptr p | _ \<Rightarrow> State_Monad.return ())
           else State_Monad.return ());
     _ \<leftarrow> destroy_array destroy_data_option options1;
     free_blk b }"
  by pat_completeness auto
termination by (relation "measure (size_ptr size)") (auto dest: component_smaller)

text \<open>
  The values of a select menu are read as \<open>struct discord_select_option\<close> and copied and destroyed
  as \<open>struct discord_interaction_data_option\<close>. Both are 40 bytes: \<open>label\<close> is \<open>name\<close>, \<open>value\<close>
  is \<open>type\<close> and \<open>value_type\<close>, \<open>description\<close> is the value, \<open>emoji\<close> is \<open>options\<close> and
  \<open>_default\<close> is \<open>options_count\<close>.
\<close>

definition copy_select_value :: "discord_select_option ptr \<Rightarrow> (mem, discord_select_option ptr) state" where
  "copy_select_value src =
     (case src of Nul \<Rightarrow> State_Monad.return Nul
      | Ptr _ x \<Rightarrow>
          if so_value x \<noteq> Nul \<or> so_default x then do { _ \<leftarrow> fault; State_Monad.return Nul }
          else do {
            b \<leftarrow> fresh_blk;
            label \<leftarrow> copy_str 50 (so_label x);
            description \<leftarrow> copy_str 120 (so_description x);
            State_Monad.return (Ptr b (x\<lparr>so_label := label, so_description := description\<rparr>)) })"

definition destroy_select_value :: "discord_select_option ptr \<Rightarrow> (mem, unit) state" where
  "destroy_select_value p =
     (case p of Nul \<Rightarrow> fault
      | Ptr b x \<Rightarrow>
          if so_value x \<noteq> Nul \<or> so_default x then fault
          else do {
            _ \<leftarrow> free_ptr (so_label x);
            _ \<leftarrow> free_ptr (so_emoji x);
            free_blk b })"

record discord_interaction_data =
  id_id :: u64
  id_name :: "string ptr"
  id_type :: int
  id_options :: "discord_data_option ptr list ptr"
  id_guild_id :: u64
  id_target_id :: u64
  id_custom_id :: "string ptr"
  id_values :: "discord_select_option ptr list ptr"
  id_components :: "discord_component ptr list ptr"

definition json_to_interaction_data ::
  "'j cjson \<Rightarrow> nat \<Rightarrow> 'j option \<Rightarrow> (mem, discord_interaction_data ptr) state" where
  "json_to_interaction_data J k data = do {
     b \<leftarrow> fresh_blk;
     name \<leftarrow> get_string_from_json J data ''name'';
     options1 \<leftarrow> get_array_from_json J data ''options'' (json_to_data_option J k);
     custom_id \<leftarrow> get_string_from_json J data ''custom_id'';
     values1 \<leftarrow> get_array_from_json J data ''values'' (json_to_select_option J);
     components \<leftarrow> get_array_from_json J data ''components'' (json_to_component J k);
     State_Monad.return (Ptr b
       \<lparr>id_id = get_long_from_string_json J data ''id'' 0, id_name = name,
        id_type = get_int_from_json J data ''type'' 1, id_options = options1,
        id_guild_id = get_long_from_string_json J data ''guild_id'' 0,
        id_target_id = get_long_from_string_json J data ''target_id'' 0, id_custom_id = custom_id,
        id_values = values1, id_components = components\<rparr>) }"

definition copy_interaction_data :: "discord_interaction_data ptr \<Rightarrow> (mem, discord_interaction_data ptr) state" where
  "copy_interaction_data src =
     (case src of Nul \<Rightarrow> State_Monad.return Nul
      | Ptr _ d \<Rightarrow> do {
          b \<leftarrow> fresh_blk;
          name \<leftarrow> copy_str 100 (id_name d);
          options1 \<leftarrow> copy_array copy_data_option (id_options d);
          custom_id \<leftarrow> copy_str 50 (id_custom_id d);
          values1 \<leftarrow> copy_array copy_select_value (id_values d);
          components \<leftarrow> copy_array copy_component (id_components d);
          State_Monad.return (Ptr b (d\<lparr>id_name := name, id_options := options1, id_custom_id := custom_id,
            id_values := values1, id_components := components\<rparr>)) })"

definition destroy_interaction_data :: "discord_interaction_data ptr \<Rightarrow> (mem, unit) state" where
  "destroy_interaction_data p =
     (case p of Nul \<Rightarrow> fault
      | Ptr b d \<Rightarrow> do {
          _ \<leftarrow> free_ptr (id_name d);
          _ \<leftarrow> destroy_array destroy_data_option (id_options d);
          _ \<leftarrow> free_ptr (id_custom_id d);
          _ \<leftarrow> destroy_array destroy_select_value (id_values d);
          _ \<leftarrow> destroy_array destroy_component (id_components d);
          free_blk b })"

section \<open>Messages and interactions\<close>

record discord_message_reference =
  mr_message_id :: u64
  mr_channel_id :: u64
  mr_guild_id :: u64
  mr_fail_if_not_exists :: bool

definition json_to_message_reference :: "'j cjson \<Rightarrow> 'j option \<Rightarrow> (mem, discord_message_reference ptr) state" where
  "json_to_message_reference J data = do {
     b \<leftarrow> fresh_blk;
     State_Monad.return (Ptr b
       \<lparr>mr_message_id = get_long_from_string_json J data ''message_id'' 0,
        mr_channel_id = get_long_from_string_json J data ''channel_id'' 0,
        mr_guild_id = get_long_from_string_json J data ''guild_id'' 0,
        mr_fail_if_not_exists = False\<rparr>) }"

definition copy_message_reference :: "discord_message_reference ptr \<Rightarrow> (mem, discord_message_reference ptr) state" where
  "copy_message_reference src =
     (case src of Nul \<Rightarrow> State_Monad.return Nul
      | Ptr _ x \<Rightarrow> do { b \<leftarrow> fresh_blk; State_Monad.return (Ptr b x) })"

definition destroy_message_reference :: "discord_message_reference ptr \<Rightarrow> (mem, unit) state" where
  "destroy_message_reference p = free_ptr p"

record message_fields =
  ms_id :: u64
  ms_channel_id :: u64
  ms_guild_id :: u64
  ms_user :: "discord_user ptr"
  ms_member :: "discord_member ptr"
  ms_content :: "string ptr"
  ms_timestamp :: "string ptr"
  ms_edited_timestamp :: "string ptr"
  ms_tts :: bool
  ms_mention_everyone :: bool
  ms_mentions :: "discord_member ptr list ptr"
  ms_mention_roles :: "u64 list ptr"
  ms_mention_channels :: "discord_channel_mention ptr list ptr"
  ms_attachments :: "discord_attachment ptr list ptr"
  ms_embeds :: "discord_embed ptr list ptr"
  ms_reactions :: "discord_reaction ptr list ptr"
  ms_nonce :: "string ptr"
  ms_pinned :: bool
  ms_webhook_id :: u64
  ms_type :: int
  ms_activity :: "discord_message_activity ptr"
  ms_application :: "discord_application ptr"
  ms_application_id :: u64
  ms_message_reference :: "discord_message_reference ptr"
  ms_flags :: int
  ms_thread :: "discord_channel ptr"
  ms_components :: "discord_component ptr list ptr"
  ms_sticker_items :: "discord_message_sticker_item ptr list ptr"
  ms_stickers :: "discord_sticker ptr list ptr"

record interaction_fields =
  in_id :: u64
  in_application_id :: u64
  in_type :: int
  in_data :: "discord_interaction_data ptr"
  in_guild_id :: u64
  in_channel_id :: u64
  in_member :: "discord_member ptr"
  in_user :: "discord_user ptr"
  in_token :: "string ptr"
  in_version :: int
  in_app_permissions :: "string ptr"
  in_locale :: "string ptr"
  in_guild_locale :: "string ptr"

text \<open>A message with its \<open>referenced_message\<close> and \<open>interaction\<close>, an interaction with its \<open>message\<close>.\<close>

datatype discord_message = Message message_fields "discord_message ptr" "discord_interaction ptr"
  and discord_interaction = Interaction interaction_fields "discord_message ptr"

text \<open>An empty content is freed again and becomes NULL.\<close>

definition json_message_content :: "'j cjson \<Rightarrow> 'j option \<Rightarrow> (mem, string ptr) state" where
  "json_message_content J data = do {
     content \<leftarrow> get_string_from_json J data ''content'';
     (case content of
        Ptr b [] \<Rightarrow> do { _ \<leftarrow> free_blk b; State_Monad.return Nul }
      | _ \<Rightarrow> State_Monad.return content) }"

text \<open>
  The reader of a message, over the readers it calls for a referenced message, an interaction and a
  component. It reads neither \<open>edited_timestamp\<close> nor \<open>embeds\<close> nor \<open>thread\<close>.
\<close>

definition read_message where
  "read_message J rd_message rd_interaction rd_component data = do {
     b \<leftarrow> fresh_blk;
     let webhook_id = get_long_from_string_json J data ''webhook_id'' 0;
     user \<leftarrow> (if webhook_id = 0 then read_item J data ''author'' (json_to_user J)
              else State_Monad.return Nul);
     mem1 \<leftarrow> (if webhook_id = 0 then read_item J data ''member'' (\<lambda>d. json_to_member J d user)
              else State_Monad.return Nul);
     content \<leftarrow> json_message_content J data;
     timestamp \<leftarrow> get_string_from_json J data ''timestamp'';
     mentions \<leftarrow> get_array_from_json J data ''mentions'' (\<lambda>d. json_to_member J d Nul);
     mention_roles \<leftarrow> get_ids_from_json J data ''mention_roles'';
     mention_channels \<leftarrow> get_array_from_json J data ''mention_channels'' (json_to_channel_mention J);
     attachments \<leftarrow> get_array_from_json J data ''attachments'' (json_to_attachment J);
     reactions \<leftarrow> get_array_from_json J data ''reactions'' (json_to_reaction J);
     nonce \<leftarrow> get_string_from_json J data ''nonce'';
     activity \<leftarrow> read_item J data ''activity'' (json_to_message_activity J);
     application \<leftarrow> read_item J data ''application'' (json_to_application J);
     reference \<leftarrow> read_item J data ''message_reference'' (json_to_message_reference J);
     referenced \<leftarrow> (if is_null J (get_object_item J data ''referenced_message'') then State_Monad.return Nul
                    else read_item J data ''referenced_message'' rd_message);
     interaction1 \<leftarrow> read_item J data ''interaction'' rd_interaction;
     components \<leftarrow> get_array_from_json J data ''components'' rd_component;
     sticker_items \<leftarrow> get_array_from_json J data ''sticker_items'' (json_to_sticker_item J);
     stickers \<leftarrow> get_array_from_json J data ''stickers'' (json_to_sticker J);
     State_Monad.return (Ptr b (Message
       \<lparr>ms_id = get_long_from_string_json J data ''id'' 0,
        ms_channel_id = get_long_from_string_json J data ''channel_id'' 0,
        ms_guild_id = get_long_from_string_json J data ''guild_id'' 0,
        ms_user = user, ms_member = mem1, ms_content = content, ms_timestamp = timestamp,
        ms_edited_timestamp = Nul, ms_tts = get_bool_from_json J data ''tts'' False,
        ms_mention_everyone = get_bool_from_json J data ''mention_everyone'' False,
        ms_mentions = mentions, ms_mention_roles = mention_roles,
        ms_mention_channels = mention_channels, ms_attachments = attachments, ms_embeds = Nul,
        ms_reactions = reactions, ms_nonce = nonce,
        ms_pinned = get_bool_from_json J data ''pinned'' False, ms_webhook_id = webhook_id,
        ms_type = get_int_from_json J data ''type'' 0, ms_activity = activity,
        ms_application = application,
        ms_application_id = get_long_from_string_json J data ''application_id'' 0,
        ms_message_reference = reference, ms_flags = get_int_from_json J data ''flags'' 0,
        ms_thread = Nul, ms_components = components, ms_sticker_items = sticker_items,
        ms_stickers = stickers\<rparr> referenced interaction1)) }"

definition read_interaction where
  "read_interaction J rd_data rd_message data = do {
     b \<leftarrow> fresh_blk;
     idata \<leftarrow> read_item J data ''data'' rd_data;
     user \<leftarrow> read_item J data ''user'' (json_to_user J);
     mem1 \<leftarrow> read_item J data ''member'' (\<lambda>d. json_to_member J d user);
     token \<leftarrow> get_string_from_json J data ''token'';
     message \<leftarrow> read_item J data ''message'' rd_message;
     app_permissions \<leftarrow> get_string_from_json J data ''app_permissions'';
     locale1 \<leftarrow> get_string_from_json J data ''locale'';
     guild_locale \<leftarrow> get_string_from_json J data ''guild_locale'';
     State_Monad.return (Ptr b (Interaction
       \<lparr>in_id = get_long_from_string_json J data ''id'' 0,
        in_application_id = get_long_from_string_json J data ''application_id'' 0,
        in_type = get_int_from_json J data ''type'' 1, in_data = idata,
        in_guild_id = get_long_from_string_json J data ''guild_id'' 0,
        in_channel_id = get_long_from_string_json J data ''channel_id'' 0,
        in_member = mem1, in_user = user, in_token = token,
        in_version = get_int_from_json J data ''version'' 0, in_app_permissions = app_permissions,
        in_locale = locale1, in_guild_locale = guild_locale\<rparr> message)) }"

fun json_to_message :: "'j cjson \<Rightarrow> nat \<Rightarrow> 'j option \<Rightarrow> (mem, discord_message ptr) state"
  and json_to_interaction :: "'j cjson \<Rightarrow> nat \<Rightarrow> 'j option \<Rightarrow> (mem, discord_interaction ptr) state" where
  "json_to_message J 0 data = State_Monad.return Nul"
| "json_to_message J (Suc k) data =
     read_message J (json_to_message J k) (json_to_interaction J k) (json_to_component J k) data"
| "json_to_interaction J 0 data = State_Monad.return Nul"
| "json_to_interaction J (Suc k) data =
     read_interaction J (json_to_interaction_data J k) (json_to_message J k) data"

text \<open>A mentioned channel is smaller than the \<open>struct discord_channel\<close> it is copied as.\<close>

definition copy_mention_as_channel :: "discord_channel_mention ptr \<Rightarrow> (mem, discord_channel_mention ptr) state" where
  "copy_mention_as_channel src =
     (case src of Nul \<Rightarrow> State_Monad.return Nul
      | Ptr _ _ \<Rightarrow> do { _ \<leftarrow> fault; State_Monad.return src })"

definition destroy_mention_as_channel :: "discord_channel_mention ptr \<Rightarrow> (mem, unit) state" where
  "destroy_mention_as_channel p = fault"

text \<open>The copies, over the copies of what the structure leads to.\<close>

definition copy_message_body where
  "copy_message_body x cp_referenced cp_interaction = do {
     b \<leftarrow> fresh_blk;
     user \<leftarrow> copy_user (ms_user x);
     mem1 \<leftarrow> copy_member (ms_member x) user;
     content \<leftarrow> copy_str 4096 (ms_content x);
     timestamp \<leftarrow> copy_str 50 (ms_timestamp x);
     edited \<leftarrow> copy_str 50 (ms_edited_timestamp x);
     mentions \<leftarrow> copy_array (\<lambda>m. copy_member m Nul) (ms_mentions x);
     mention_roles \<leftarrow> copy_ids (ms_mention_roles x);
     mention_channels \<leftarrow> copy_array copy_mention_as_channel (ms_mention_channels x);
     attachments \<leftarrow> copy_array copy_attachment (ms_attachments x);
     embeds \<leftarrow> copy_array copy_embed (ms_embeds x);
     reactions \<leftarrow> copy_array copy_reaction (ms_reactions x);
     nonce \<leftarrow> copy_str 200 (ms_nonce x);
     activity \<leftarrow> copy_message_activity (ms_activity x);
     application \<leftarrow> copy_application (ms_application x);
     reference \<leftarrow> copy_message_reference (ms_message_reference x);
     referenced \<leftarrow> cp_referenced;
     interaction1 \<leftarrow> cp_interaction;
     thread1 \<leftarrow> copy_channel (ms_thread x);
     components \<leftarrow> copy_array copy_component (ms_components x);
     sticker_items \<leftarrow> copy_array copy_sticker_item (ms_sticker_items x);
     stickers \<leftarrow> copy_array copy_sticker (ms_stickers x);
     State_Monad.return (Ptr b (Message
       (x\<lparr>ms_user := user, ms_member := mem1, ms_content := content, ms_timestamp := timestamp,
          ms_edited_timestamp := edited, ms_mentions := mentions, ms_mention_roles := mention_roles,
          ms_mention_channels := mention_channels, ms_attachments := attachments,
          ms_embeds := embeds, ms_reactions := reactions, ms_nonce := nonce, ms_activity := activity,
          ms_application := application, ms_message_reference := reference, ms_thread := thread1,
          ms_components := components, ms_sticker_items := sticker_items, ms_stickers := stickers\<rparr>)
       referenced interaction1)) }"

definition copy_interaction_body where
  "copy_interaction_body x cp_message = do {
     b \<leftarrow> fresh_blk;
     idata \<leftarrow> copy_interaction_data (in_data x);
     user \<leftarrow> copy_user (in_user x);
     mem1 \<leftarrow> copy_member (in_member x) user;
     token \<leftarrow> copy_str 100 (in_token x);
     message \<leftarrow> cp_message;
     app_permissions \<leftarrow> copy_str 50 (in_app_permissions x);
     locale1 \<leftarrow> copy_str 10 (in_locale x);
     guild_locale \<leftarrow> copy_str 10 (in_guild_locale x);
     State_Monad.return (Ptr b (Interaction
       (x\<lparr>in_data := idata, in_user := user, in_member := mem1, in_token := token,
          in_app_permissions := app_permissions, in_locale := locale1, in_guild_locale := guild_locale\<rparr>)
       message)) }"

function (sequential) copy_message :: "discord_message ptr \<Rightarrow> (mem, discord_message ptr) state"
  and copy_interaction :: "discord_interaction ptr \<Rightarrow> (mem, discord_interaction ptr) state" where
  "copy_message Nul = State_Monad.return Nul"
| "copy_message (Ptr _ (Message x r i)) = copy_message_body x (copy_message r) (copy_interaction i)"
| "copy_interaction Nul = State_Monad.return Nul"
| "copy_interaction (Ptr _ (Interaction x m)) = copy_interaction_body x (copy_message m)"
  by pat_completeness auto
termination
  by (relation "measure (\<lambda>s. case s of Inl p \<Rightarrow> size_ptr size p | Inr p \<Rightarrow> size_ptr size p)") auto

text \<open>The referenced message is not destroyed.\<close>

definition destroy_message_body where
  "destroy_message_body b x ds_interaction = do {
     _ \<leftarrow> (if ms_member x \<noteq> Nul then destroy_member (ms_member x)
           else when_ptr destroy_user (ms_user x));
     _ \<leftarrow> free_ptr (ms_content x);
     _ \<leftarrow> free_ptr (ms_timestamp x);
     _ \<leftarrow> free_ptr (ms_edited_timestamp x);
     _ \<leftarrow> destroy_array destroy_member (ms_mentions x);
     _ \<leftarrow> free_ptr (ms_mention_roles x);
     _ \<leftarrow> destroy_array destroy_mention_as_channel (ms_mention_channels x);
     _ \<leftarrow> destroy_array destroy_attachment (ms_attachments x);
     _ \<leftarrow> destroy_array destroy_embed (ms_embeds x);
     _ \<leftarrow> destroy_array destroy_reaction (ms_reactions x);
     _ \<leftarrow> free_ptr (ms_nonce x);
     _ \<leftarrow> when_ptr destroy_message_activity (ms_activity x);
     _ \<leftarrow> when_ptr destroy_application (ms_application x);
     _ \<leftarrow> when_ptr destroy_message_reference (ms_message_reference x);
     _ \<leftarrow> ds_interaction;
     _ \<leftarrow> when_ptr destroy_channel (ms_thread x);
     _ \<leftarrow> destroy_array destroy_component (ms_components x);
     _ \<leftarrow> destroy_array destroy_sticker_item (ms_sticker_items x);
     _ \<leftarrow> destroy_array destroy_sticker (ms_stickers x);
     free_blk b }"

definition destroy_interaction_body where
  "destroy_interaction_body b x ds_message = do {
     _ \<leftarrow> when_ptr destroy_interaction_data (in_data x);
     _ \<leftarrow> (if in_member x \<noteq> Nul then destroy_member (in_member x)
           else when_ptr destroy_user (in_user x));
     _ \<leftarrow> free_ptr (in_token x);
     _ \<leftarrow> ds_message;
     _ \<leftarrow> free_ptr (in_app_permissions x);
     _ \<leftarrow> free_ptr (in_locale x);
     _ \<leftarrow> free_ptr (in_guild_locale x);
     free_blk b }"

text \<open>Inside \<open>if (p)\<close>, as every call of the two functions but the first is.\<close>

function (sequential) destroy_message_opt :: "discord_message ptr \<Rightarrow> (mem, unit) state"
  and destroy_interaction_opt :: "discord_interaction ptr \<Rightarrow> (mem, unit) state" where
  "destroy_message_opt Nul = State_Monad.return ()"
| "destroy_message_opt (Ptr b (Message x r i)) = destroy_message_body b x (destroy_interaction_opt i)"
| "destroy_interaction_opt Nul = State_Monad.return ()"
| "destroy_interaction_opt (Ptr b (Interaction x m)) = destroy_interaction_body b x (destroy_message_opt m)"
  by pat_completeness auto
termination
  by (relation "measure (\<lambda>s. case s of Inl p \<Rightarrow> size_ptr size p | Inr p \<Rightarrow> size_ptr size p)") auto

definition destroy_message :: "discord_message ptr \<Rightarrow> (mem, unit) state" where
  "destroy_message p = (if p = Nul then fault else destroy_message_opt p)"

definition destroy_interaction :: "discord_interaction ptr \<Rightarrow> (mem, unit) state" where
  "destroy_interaction p = (if p = Nul then fault else destroy_interaction_opt p)"

section \<open>What messages and interactions own\<close>

function data_option_blocks :: "discord_data_option ptr \<Rightarrow> nat list" where
  "data_option_blocks Nul = []"
| "data_option_blocks (Ptr b (Data_Option x options1)) = b # blk_of (do_name x) @
     (case do_value x of V_String p \<Rightarrow> blk_of p | _ \<Rightarrow> []) @ arr_blocks data_option_blocks options1"
  by pat_completeness auto
termination by (relation "measure (size_ptr size)") (auto dest: component_smaller)

inductive data_option_ok :: "discord_data_option ptr \<Rightarrow> bool" where
  "(\<forall>p. do_value x = V_String p \<longrightarrow> do_type x = 3) \<Longrightarrow> arr_ok data_option_ok options1 \<Longrightarrow>
   data_option_ok (Ptr b (Data_Option x options1))"

definition select_value_ok :: "discord_select_option ptr \<Rightarrow> bool" where
  "select_value_ok p =
     (case p of Nul \<Rightarrow> True | Ptr _ x \<Rightarrow> so_value x = Nul \<and> \<not> so_default x \<and> so_emoji x = Nul)"

definition arr_inner :: "('a ptr \<Rightarrow> nat list) \<Rightarrow> 'a ptr list ptr \<Rightarrow> nat list" where
  "arr_inner I p = (case p of Nul \<Rightarrow> [] | Ptr _ xs \<Rightarrow> concat (map I xs))"

definition select_value_leak :: "discord_select_option ptr \<Rightarrow> nat list" where
  "select_value_leak p = (case p of Nul \<Rightarrow> [] | Ptr _ x \<Rightarrow> blk_of (so_description x))"

definition data_blocks :: "discord_interaction_data ptr \<Rightarrow> nat list" where
  "data_blocks p =
     (case p of Nul \<Rightarrow> []
      | Ptr b d \<Rightarrow> b # blk_of (id_name d) @ arr_blocks data_option_blocks (id_options d) @
          blk_of (id_custom_id d) @ arr_blocks option_blocks (id_values d) @
          arr_blocks component_blocks (id_components d))"

definition data_leaks :: "discord_interaction_data ptr \<Rightarrow> nat list" where
  "data_leaks p =
     (case p of Nul \<Rightarrow> []
      | Ptr _ d \<Rightarrow> arr_inner select_value_leak (id_values d) @ arr_inner component_inner (id_components d))"

definition data_ok :: "discord_interaction_data ptr \<Rightarrow> bool" where
  "data_ok p =
     (case p of Nul \<Rightarrow> True
      | Ptr _ d \<Rightarrow> arr_ok data_option_ok (id_options d) \<and> arr_ok select_value_ok (id_values d) \<and>
          arr_ok component_ok (id_components d))"

text \<open>The blocks of the flat part of a message; a user that has a member is counted with it.\<close>

definition author_blocks :: "discord_user ptr \<Rightarrow> discord_member ptr \<Rightarrow> nat list" where
  "author_blocks u mb = (if mb \<noteq> Nul then member_blocks mb else user_blocks u)"

definition message_own_blocks :: "message_fields \<Rightarrow> nat list" where
  "message_own_blocks x =
     author_blocks (ms_user x) (ms_member x) @ blk_of (ms_content x) @ blk_of (ms_timestamp x) @
     blk_of (ms_edited_timestamp x) @ arr_blocks member_blocks (ms_mentions x) @
     blk_of (ms_mention_roles x) @ arr_blocks attachment_blocks (ms_attachments x) @
     arr_blocks embed_blocks (ms_embeds x) @ blk_of (ms_reactions x) @ blk_of (ms_nonce x) @
     blk_of (ms_application x) @ blk_of (ms_message_reference x) @ channel_blocks (ms_thread x) @
     arr_blocks component_blocks (ms_components x) @ blk_of (ms_sticker_items x) @ blk_of (ms_stickers x)"

definition interaction_own_blocks :: "interaction_fields \<Rightarrow> nat list" where
  "interaction_own_blocks x =
     data_blocks (in_data x) @ author_blocks (in_user x) (in_member x) @ blk_of (in_token x) @
     blk_of (in_app_permissions x) @ blk_of (in_locale x) @ blk_of (in_guild_locale x)"

function (sequential) message_blocks :: "discord_message ptr \<Rightarrow> nat list"
  and interaction_blocks :: "discord_interaction ptr \<Rightarrow> nat list" where
  "message_blocks Nul = []"
| "message_blocks (Ptr b (Message x r i)) =
     b # message_own_blocks x @ message_blocks r @ interaction_blocks i"
| "interaction_blocks Nul = []"
| "interaction_blocks (Ptr b (Interaction x m)) = b # interaction_own_blocks x @ message_blocks m"
  by pat_completeness auto
termination
  by (relation "measure (\<lambda>s. case s of Inl p \<Rightarrow> size_ptr size p | Inr p \<Rightarrow> size_ptr size p)") auto

text \<open>What destroying leaves allocated: inner structures of components and referenced messages.\<close>

function (sequential) message_leaks :: "discord_message ptr \<Rightarrow> nat list"
  and interaction_leaks :: "discord_interaction ptr \<Rightarrow> nat list" where
  "message_leaks Nul = []"
| "message_leaks (Ptr b (Message x r i)) =
     arr_inner component_inner (ms_components x) @ message_blocks r @ interaction_leaks i"
| "interaction_leaks Nul = []"
| "interaction_leaks (Ptr b (Interaction x m)) = data_leaks (in_data x) @ message_leaks m"
  by pat_completeness auto
termination
  by (relation "measure (\<lambda>s. case s of Inl p \<Rightarrow> size_ptr size p | Inr p \<Rightarrow> size_ptr size p)") auto

definition message_fields_ok :: "message_fields \<Rightarrow> bool" where
  "message_fields_ok x \<longleftrightarrow>
     member_ok (ms_member x) \<and> arr_ok member_ok (ms_mentions x) \<and> ids_ok (ms_mention_roles x) \<and>
     ms_mention_channels x = Nul \<and> arr_ok (\<lambda>_. True) (ms_attachments x) \<and>
     arr_ok (\<lambda>e. embed_fields_ok e \<and> \<not> embed_has_timestamp e) (ms_embeds x) \<and>
     nul_array (ms_reactions x) \<and> ms_activity x = Nul \<and>
     channel_ok (ms_thread x) \<and> channel_icon (ms_thread x) = Nul \<and>
     arr_ok component_ok (ms_components x) \<and> nul_array (ms_sticker_items x) \<and> nul_array (ms_stickers x)"

function (sequential) message_ok :: "discord_message ptr \<Rightarrow> bool"
  and interaction_ok :: "discord_interaction ptr \<Rightarrow> bool" where
  "message_ok Nul \<longleftrightarrow> True"
| "message_ok (Ptr b (Message x r i)) \<longleftrightarrow> message_fields_ok x \<and> message_ok r \<and> interaction_ok i"
| "interaction_ok Nul \<longleftrightarrow> True"
| "interaction_ok (Ptr b (Interaction x m)) \<longleftrightarrow>
     data_ok (in_data x) \<and> member_ok (in_member x) \<and> message_ok m"
  by pat_completeness auto
termination
  by (relation "measure (\<lambda>s. case s of Inl p \<Rightarrow> size_ptr size p | Inr p \<Rightarrow> size_ptr size p)") auto

section \<open>What destroying frees\<close>

lemma data_option_destroy_does:
  "data_option_ok p \<Longrightarrow>
   does (destroy_data_option p) (\<lambda>_ bs fs. bs = [] \<and> mset fs = mset (data_option_blocks p))"
proof (induction rule: data_option_ok.induct)
  case (1 x options1 b)
  let ?v = "case do_value x of V_String p \<Rightarrow> blk_of p | _ \<Rightarrow> []"
  have v: "does (if do_type x = 3 then (case do_value x of V_String p \<Rightarrow> free_ptr p | _ \<Rightarrow> State_Monad.return ())
      else State_Monad.return ()) P" if "P () [] ?v" for P
    using that 1 by (cases "do_value x") (auto intro!: does_intros)
  have os: "does (destroy_array destroy_data_option options1)
      (\<lambda>_ bs fs. bs = [] \<and> mset fs = mset (arr_blocks data_option_blocks options1))"
  proof (cases options1)
    case Nul
    then show ?thesis by (auto simp: destroy_array_def arr_blocks_def intro!: does_intros)
  next
    case (Ptr a xs)
    have "does (each destroy_data_option xs) (\<lambda>_ bs fs. bs = [] \<and> mset fs = mset (concat (map data_option_blocks xs)))"
      by (rule does_each) (use 1 in \<open>auto simp: Ptr arr_ok_def\<close>)
    then show ?thesis
      by (auto simp: Ptr destroy_array_def arr_blocks_def intro!: does_intros elim!: does_weaken)
  qed
  have os': "does (destroy_array destroy_data_option options1) P"
    if "\<And>fs. mset fs = mset (arr_blocks data_option_blocks options1) \<Longrightarrow> P () [] fs" for P
    using os by (rule does_weaken) (use that in auto)
  show ?case
    unfolding destroy_data_option.simps by (rule does_intros v os')+ simp
qed

text \<open>Arrays whose elements are destroyed with something left over.\<close>

lemma does_destroy_array_leak:
  assumes "arr_ok W p"
    and "\<And>x. W x \<Longrightarrow> x \<noteq> Nul \<Longrightarrow> does (f x) (\<lambda>_ bs fs. bs = [] \<and> mset fs + mset (I x) = mset (B x))"
    and "\<And>fs. mset fs + mset (arr_inner I p) = mset (arr_blocks B p) \<Longrightarrow> P () [] fs"
  shows "does (destroy_array f p) P"
proof (cases p)
  case Nul
  with assms(3) [of "[]"] show ?thesis
    by (auto simp: destroy_array_def arr_inner_def arr_blocks_def intro!: does_intros)
next
  case (Ptr b xs)
  have "does (each f xs) (\<lambda>_ bs fs. bs = [] \<and> mset fs + mset (concat (map I xs)) = mset (concat (map B xs)))"
    by (rule does_each_leak, rule assms(2)) (use assms(1) in \<open>auto simp: Ptr arr_ok_def\<close>)
  then show ?thesis
    using assms(3) by (auto simp: destroy_array_def Ptr arr_inner_def arr_blocks_def
        intro!: does_intros elim!: does_weaken)
qed

lemma arr_inner_Nil [simp]: "arr_inner (\<lambda>_. []) p = []"
  by (simp add: arr_inner_def split: ptr.split)

lemma does_destroy_array_exact:
  assumes "arr_ok W p"
    and "\<And>x. W x \<Longrightarrow> x \<noteq> Nul \<Longrightarrow> does (f x) (\<lambda>_ bs fs. bs = [] \<and> mset fs = mset (B x))"
    and "\<And>fs. mset fs = mset (arr_blocks B p) \<Longrightarrow> P () [] fs"
  shows "does (destroy_array f p) P"
  by (rule does_destroy_array_leak [where W = W and I = "\<lambda>_. []" and B = B]) (use assms in auto)

lemma select_value_destroy_does:
  "select_value_ok p \<Longrightarrow> p \<noteq> Nul \<Longrightarrow>
   does (destroy_select_value p) (\<lambda>_ bs fs. bs = [] \<and>
     mset fs + mset (select_value_leak p) = mset (option_blocks p))"
  by (cases p) (auto simp: select_value_ok_def destroy_select_value_def select_value_leak_def
      option_blocks_def intro!: does_intros)

lemma component_arr_destroy:
  assumes "arr_ok component_ok p"
    and "\<And>fs. mset fs + mset (arr_inner component_inner p) = mset (arr_blocks component_blocks p) \<Longrightarrow> P () [] fs"
  shows "does (destroy_array destroy_component p) P"
  by (rule does_destroy_array_leak [where W = component_ok])
    (use assms component_destroy_does in auto)

lemma data_destroy_does:
  assumes "data_ok p"
    and "\<And>fs. mset fs + mset (data_leaks p) = mset (data_blocks p) \<Longrightarrow> P () [] fs"
  shows "does (when_ptr destroy_interaction_data p) P"
proof (rule does_when_ptr)
  show "P () [] []" if "p = Nul"
    using assms(2) [of "[]"] that by (simp add: data_leaks_def data_blocks_def)
next
  assume "p \<noteq> Nul"
  then obtain b d where p: "p = Ptr b d" by (cases p) auto
  from assms(1) have ok: "arr_ok data_option_ok (id_options d)" "arr_ok select_value_ok (id_values d)"
      "arr_ok component_ok (id_components d)"
    by (simp_all add: data_ok_def p)
  have o: "does (destroy_array destroy_data_option (id_options d)) Q"
    if "\<And>fs. mset fs = mset (arr_blocks data_option_blocks (id_options d)) \<Longrightarrow> Q () [] fs" for Q
    by (rule does_destroy_array_exact [OF ok(1) data_option_destroy_does]) (use that in auto)
  have v: "does (destroy_array destroy_select_value (id_values d)) Q"
    if "\<And>fs. mset fs + mset (arr_inner select_value_leak (id_values d)) =
        mset (arr_blocks option_blocks (id_values d)) \<Longrightarrow> Q () [] fs" for Q
    by (rule does_destroy_array_leak [OF ok(2) select_value_destroy_does]) (use that in auto)
  have "does (destroy_interaction_data p) (\<lambda>_ bs fs. bs = [] \<and> mset fs + mset (data_leaks p) = mset (data_blocks p))"
    unfolding p destroy_interaction_data_def ptr.case
    by (rule does_intros o v component_arr_destroy [OF ok(3)])+
      (simp add: data_leaks_def data_blocks_def, metis (no_types, lifting) union_assoc union_commute)
  then show "does (destroy_interaction_data p) P" by (rule does_weaken) (use assms(2) in auto)
qed

end
