(* ===== verification/Message_Memory.thy ===== *)
theory Message_Memory
  imports Messages
begin

text \<open>
  What destroying a message or an interaction frees, what reading one from JSON allocates, and the
  properties of the structures that follow: a message that was read and is destroyed frees nothing
  twice, and leaves allocated exactly the inner structures of its components and the referenced
  messages.
\<close>

section \<open>Destroying\<close>

lemma does_destroy_author:
  assumes "\<And>fs. mset fs = mset (author_blocks u mb) \<Longrightarrow> P () [] fs"
  shows "does (if mb \<noteq> Nul then destroy_member mb else when_ptr destroy_user u) P"
proof (cases "mb = Nul")
  case True
  then show ?thesis
    using assms by (auto simp: author_blocks_def intro!: user.destroy_rule)
next
  case False
  then show ?thesis
    using assms by (auto simp: author_blocks_def intro!: does_destroy_member)
qed

lemma when_nothing: "destroy_array f Nul = State_Monad.return ()" "when_ptr g Nul = State_Monad.return ()"
  by (simp_all add: destroy_array_def when_ptr_def)

lemma message_body_destroy:
  assumes ok: "message_fields_ok x"
    and i: "does ds (\<lambda>_ bs fs. bs = [] \<and> mset fs + mset L = mset B)"
  shows "does (destroy_message_body b x ds) (\<lambda>_ bs fs. bs = [] \<and>
    mset fs + mset (arr_inner component_inner (ms_components x) @ L) =
      mset (b # message_own_blocks x @ B))"
proof -
  from ok have ok1: "arr_ok member_ok (ms_mentions x)" "ms_mention_channels x = Nul"
      "arr_ok (\<lambda>_. True) (ms_attachments x)"
      "arr_ok (\<lambda>e. embed_fields_ok e \<and> \<not> embed_has_timestamp e) (ms_embeds x)"
      "ms_activity x = Nul" "channel_ok (ms_thread x) \<and> channel_icon (ms_thread x) = Nul"
      "arr_ok component_ok (ms_components x)"
    by (simp_all add: message_fields_ok_def)
  have mentions: "does (destroy_array destroy_member (ms_mentions x)) P"
    if "\<And>fs. mset fs = mset (arr_blocks member_blocks (ms_mentions x)) \<Longrightarrow> P () [] fs" for P
    by (rule does_destroy_array_exact [OF ok1(1)], rule does_destroy_member) (use that in auto)
  have refs: "does (when_ptr destroy_message_reference (ms_message_reference x)) P"
    if "P () [] (blk_of (ms_message_reference x))" for P
    using that by (cases "ms_message_reference x")
      (auto simp: when_ptr_def destroy_message_reference_def intro!: does_intros)
  have app: "does (when_ptr destroy_application (ms_application x)) P"
    if "P () [] (blk_of (ms_application x))" for P
    using that by (cases "ms_application x")
      (auto simp: when_ptr_def destroy_application_def intro!: does_intros)
  have ds: "does ds P" if "\<And>u fs. mset B = mset fs + mset L \<Longrightarrow> P u [] fs" for P
    using i by (rule does_weaken) (use that in auto)
  have comps: "does (destroy_array destroy_component (ms_components x)) P"
    if "\<And>fs. mset (arr_blocks component_blocks (ms_components x)) =
      mset fs + mset (arr_inner component_inner (ms_components x)) \<Longrightarrow> P () [] fs" for P
    by (rule component_arr_destroy [OF ok1(7)]) (use that in auto)
  have stubs: "\<And>y. destroy_reaction y = State_Monad.return ()"
      "\<And>y. destroy_sticker_item y = State_Monad.return ()" "\<And>y. destroy_sticker y = State_Monad.return ()"
    by (simp_all add: stub_defs)
  show ?thesis
    unfolding destroy_message_body_def ok1(2,5) when_nothing
    by (rule does_destroy_author does_bind does_return does_free does_free_ptr mentions refs app ds
        attachment.destroy_array_rule [OF ok1(3)] embed.destroy_array_rule [OF ok1(4)]
        channel.destroy_rule [OF ok1(6)] comps
        does_destroy_nul_array stubs)+
      (simp add: message_own_blocks_def ac_simps)
qed

lemma interaction_body_destroy:
  assumes ok: "data_ok (in_data x)"
    and m: "does ds (\<lambda>_ bs fs. bs = [] \<and> mset fs + mset L = mset B)"
  shows "does (destroy_interaction_body b x ds) (\<lambda>_ bs fs. bs = [] \<and>
    mset fs + mset (data_leaks (in_data x) @ L) = mset (b # interaction_own_blocks x @ B))"
proof -
  have ds: "does ds P" if "\<And>u fs. mset B = mset fs + mset L \<Longrightarrow> P u [] fs" for P
    using m by (rule does_weaken) (use that in auto)
  have idata: "does (when_ptr destroy_interaction_data (in_data x)) P"
    if "\<And>fs. mset (data_blocks (in_data x)) = mset fs + mset (data_leaks (in_data x)) \<Longrightarrow> P () [] fs" for P
    by (rule data_destroy_does [OF ok]) (use that in auto)
  show ?thesis
    unfolding destroy_interaction_body_def
    by (rule does_destroy_author does_bind does_free does_free_ptr ds idata)+
      (simp add: interaction_own_blocks_def ac_simps)
qed

lemma message_destroy_does:
  "message_ok p \<Longrightarrow> does (destroy_message_opt p)
     (\<lambda>_ bs fs. bs = [] \<and> mset fs + mset (message_leaks p) = mset (message_blocks p))"
  "interaction_ok q \<Longrightarrow> does (destroy_interaction_opt q)
     (\<lambda>_ bs fs. bs = [] \<and> mset fs + mset (interaction_leaks q) = mset (interaction_blocks q))"
proof (induction p and q rule: destroy_message_opt_destroy_interaction_opt.induct)
  case (2 b x r i)
  then have "does (destroy_interaction_opt i)
     (\<lambda>_ bs fs. bs = [] \<and> mset fs + mset (interaction_leaks i) = mset (interaction_blocks i))"
    and "message_fields_ok x" by simp_all
  from message_body_destroy [OF this(2,1), of b] show ?case
    by (auto elim!: does_weaken)
next
  case (4 b x m)
  then have "does (destroy_message_opt m)
     (\<lambda>_ bs fs. bs = [] \<and> mset fs + mset (message_leaks m) = mset (message_blocks m))"
    and "data_ok (in_data x)" by simp_all
  from interaction_body_destroy [OF this(2,1), of b] show ?case by simp
qed (auto intro!: does_intros)

section \<open>Reading\<close>

text \<open>
  The documents whose reading is defined: IDs are strings, and no message has mentioned channels and
  no interaction selected values, which the program reads as structures of one type and uses as
  another.
\<close>

definition ids_json_ok :: "'j cjson \<Rightarrow> 'j option \<Rightarrow> string \<Rightarrow> bool" where
  "ids_json_ok J data name \<longleftrightarrow>
     list_all (\<lambda>x. valuestring J x \<noteq> None) (json_items J (get_object_item J data name))"

fun message_json_ok :: "'j cjson \<Rightarrow> nat \<Rightarrow> 'j option \<Rightarrow> bool"
  and interaction_json_ok :: "'j cjson \<Rightarrow> nat \<Rightarrow> 'j option \<Rightarrow> bool" where
  "message_json_ok J 0 data \<longleftrightarrow> True"
| "message_json_ok J (Suc k) data \<longleftrightarrow>
     json_items J (get_object_item J data ''mention_channels'') = [] \<and>
     ids_json_ok J data ''mention_roles'' \<and> ids_json_ok J (get_object_item J data ''member'') ''roles'' \<and>
     list_all (\<lambda>x. ids_json_ok J (Some x) ''roles'') (json_items J (get_object_item J data ''mentions'')) \<and>
     message_json_ok J k (get_object_item J data ''referenced_message'') \<and>
     interaction_json_ok J k (get_object_item J data ''interaction'')"
| "interaction_json_ok J 0 data \<longleftrightarrow> True"
| "interaction_json_ok J (Suc k) data \<longleftrightarrow>
     json_items J (get_object_item J (get_object_item J data ''data'') ''values'') = [] \<and>
     ids_json_ok J (get_object_item J data ''member'') ''roles'' \<and>
     message_json_ok J k (get_object_item J data ''message'')"

lemma does_get_ids:
  assumes "ids_json_ok J data name" and "\<And>q. ids_ok q \<Longrightarrow> P q (blk_of q) []"
  shows "does (get_ids_from_json J data name) P"
proof (cases "json_items J (get_object_item J data name) = []")
  case True
  with assms(2) [of Nul] show ?thesis
    by (auto simp: get_ids_from_json_def ids_ok_def intro!: does_intros)
next
  case False
  let ?items = "json_items J (get_object_item J data name)"
  have t: "does (State_Monad.traverse_list (id_of_item J) ?items)
      (\<lambda>ys bs fs. mset bs = mset (concat (map (\<lambda>_. []) ys)) \<and> fs = [] \<and> list_all2 (\<lambda>_ _. True) ?items ys)"
    by (rule does_traverse)
      (use assms(1) in \<open>auto simp: ids_json_ok_def list_all_iff id_of_item_def intro!: does_intros\<close>)
  have "P (Ptr a ys) [a] []" if "list_all2 (\<lambda>_ _. True) ?items ys" for a ys
  proof -
    have "ids_ok (Ptr a ys)" using that False by (auto simp: ids_ok_def)
    from assms(2) [OF this] show ?thesis by simp
  qed
  with t False show ?thesis
    by (auto simp: get_ids_from_json_def intro!: does_intros elim!: does_weaken)
qed

text \<open>An item that is read when it is there; \<open>W\<close> holds of what the reader returns and of NULL.\<close>

lemma does_read_item:
  assumes "\<And>f. get_object_item J data name = Some f \<Longrightarrow> does (rd (Some f)) P"
    and "P Nul [] []"
  shows "does (read_item J data name rd) P"
  using assms by (cases "get_object_item J data name") (auto simp: read_item_def intro!: does_intros)

lemma does_read_user:
  assumes "json_laws J" and "\<And>q bs. mset bs = mset (user_blocks q) \<Longrightarrow> P q bs []"
  shows "does (read_item J data name (json_to_user J)) P"
proof (rule does_read_item)
  show "P Nul [] []" using assms(2) [of "[]" Nul] by (simp add: user_blocks_def)
  show "does (json_to_user J (Some f)) P" for f
    using user_json_does [OF assms(1)] by (rule does_weaken) (use assms(2) in auto)
qed

lemma does_json_member:
  assumes laws: "json_laws J" and ids: "ids_json_ok J data ''roles''"
    and P: "\<And>q bs. q \<noteq> Nul \<Longrightarrow> member_ok q \<Longrightarrow>
      mset (member_blocks q) = mset bs + mset (user_blocks user) \<Longrightarrow> P q bs []"
  shows "does (json_to_member J data user) P"
proof -
  have u: "does (if user \<noteq> Nul then State_Monad.return user else read_item J data ''user'' (json_to_user J)) R"
    if "\<And>q bs. mset (user_blocks q) = mset bs + mset (user_blocks user) \<Longrightarrow> R q bs []" for R
  proof (cases "user = Nul")
    case True
    have "does (read_item J data ''user'' (json_to_user J)) R"
      by (rule does_read_user [OF laws]) (use that True in \<open>simp add: user_blocks_def\<close>)
    then show ?thesis using True by simp
  qed (simp add: that does_return)
  have "does (json_to_member J data user) (\<lambda>q bs fs. q \<noteq> Nul \<and> member_ok q \<and>
      mset (member_blocks q) = mset bs + mset (user_blocks user) \<and> fs = [])"
    unfolding json_to_member_def
    by (rule does_bind does_fresh does_return u does_get_string laws does_get_ids [OF ids])+
      (simp add: member_ok_def member_blocks_def member_own_blocks_def member_user_def ac_simps)
  then show ?thesis by (rule does_weaken) (use P in auto)
qed

lemma does_read_author:
  assumes laws: "json_laws J"
    and P: "\<And>q bs. mset (user_blocks q) = mset bs \<Longrightarrow> P q bs []"
  shows "does (if c then read_item J data ''author'' (json_to_user J) else State_Monad.return Nul) P"
proof (cases c)
  case True
  have "does (read_item J data ''author'' (json_to_user J)) P"
    by (rule does_read_user [OF laws]) (use P in auto)
  with True show ?thesis by simp
next
  case False
  with P [of Nul "[]"] show ?thesis by (auto simp: user_blocks_def intro!: does_intros)
qed

lemma does_read_member:
  assumes laws: "json_laws J" and ids: "ids_json_ok J (get_object_item J data ''member'') ''roles''"
    and P: "\<And>q bs. member_ok q \<Longrightarrow> mset (author_blocks u q) = mset bs + mset (user_blocks u) \<Longrightarrow> P q bs []"
  shows "does (read_item J data ''member'' (\<lambda>d. json_to_member J d u)) P"
proof (rule does_read_item)
  show "does (json_to_member J (Some f) u) P" if "get_object_item J data ''member'' = Some f" for f
    by (rule does_json_member [OF laws]) (use P ids that in \<open>auto simp: author_blocks_def\<close>)
  show "P Nul [] []" using P [of Nul "[]"] by (simp add: author_blocks_def member_ok_def)
qed

lemma does_if_read_member:
  assumes laws: "json_laws J" and ids: "ids_json_ok J (get_object_item J data ''member'') ''roles''"
    and P: "\<And>q bs. member_ok q \<Longrightarrow> mset (author_blocks u q) = mset bs + mset (user_blocks u) \<Longrightarrow> P q bs []"
  shows "does (if c then read_item J data ''member'' (\<lambda>d. json_to_member J d u) else State_Monad.return Nul) P"
proof (cases c)
  case True
  have "does (read_item J data ''member'' (\<lambda>d. json_to_member J d u)) P"
    by (rule does_read_member [OF laws ids]) (use P in auto)
  with True show ?thesis by simp
next
  case False
  with P [of Nul "[]"] show ?thesis by (auto simp: author_blocks_def member_ok_def intro!: does_intros)
qed

lemma data_option_json_does:
  "json_laws J \<Longrightarrow> json_depth J k j \<Longrightarrow>
   does (json_to_data_option J k (Some j)) (\<lambda>q bs fs. mset bs = mset (data_option_blocks q) \<and> fs = [] \<and>
     data_option_ok q \<and> q \<noteq> Nul)"
proof (induction k arbitrary: j)
  case (Suc k)
  let ?t = "get_int_from_json J (Some j) ''type'' 0"
  have opts: "does (get_array_from_json J (Some j) ''options'' (json_to_data_option J k)) P"
    if "\<And>q bs. mset (arr_blocks data_option_blocks q) = mset bs \<Longrightarrow> arr_ok data_option_ok q \<Longrightarrow> P q bs []" for P
  proof (rule does_read_array [where B = data_option_blocks and W = data_option_ok])
    fix x assume "x \<in> set (json_items J (get_object_item J (Some j) ''options''))"
    then have "json_depth J k x" using json_depth_items Suc.prems by metis
    then show "does (json_to_data_option J k (Some x)) (\<lambda>y bs fs. mset bs = mset (data_option_blocks y) \<and>
        fs = [] \<and> data_option_ok y \<and> y \<noteq> Nul)"
      by (rule Suc.IH [OF Suc.prems(1)])
  next
    fix q :: "discord_data_option ptr list ptr" and bs
    assume "mset bs = mset (arr_blocks data_option_blocks q)" "arr_ok data_option_ok q"
    then show "P q bs []" by (intro that) simp_all
  qed
  have str: "does (get_string_from_json J (Some j) ''value'') P" if "\<And>q. P q (blk_of q) []" for P
    by (rule does_get_string [OF Suc.prems(1)]) (rule that)
  show ?case
  proof (cases "?t = 3")
    case True
    show ?thesis unfolding json_to_data_option.simps Let_def True
      by (simp only: refl if_True, (rule does_bind does_fresh does_return does_get_string [OF Suc.prems(1)] opts)+)
        (simp add: data_option_ok.intros)
  next
    case False
    show ?thesis unfolding json_to_data_option.simps Let_def
      by (simp only: False if_False, (rule does_bind does_fresh does_return does_get_string [OF Suc.prems(1)] opts)+)
        (auto intro!: data_option_ok.intros)
  qed
qed simp

lemma does_read_attachments:
  assumes "json_laws J"
    and "\<And>q bs. mset (arr_blocks attachment_blocks q) = mset bs \<Longrightarrow> arr_ok (\<lambda>_. True) q \<Longrightarrow> P q bs []"
  shows "does (get_array_from_json J data ''attachments'' (json_to_attachment J)) P"
  by (rule does_read_array [where B = attachment_blocks and W = "\<lambda>_. True"])
    (use attachment_json_does [OF assms(1)] assms(2) in auto)

lemma does_read_components:
  assumes "json_laws J" and "json_depth J (Suc k) j"
    and "\<And>q bs. mset (arr_blocks component_blocks q) = mset bs \<Longrightarrow> arr_ok component_ok q \<Longrightarrow> P q bs []"
  shows "does (get_array_from_json J (Some j) ''components'' (json_to_component J k)) P"
proof (rule does_read_array [where B = component_blocks and W = component_ok])
  fix x assume "x \<in> set (json_items J (get_object_item J (Some j) ''components''))"
  then have "json_depth J k x" using json_depth_items assms(1,2) by metis
  then show "does (json_to_component J k (Some x)) (\<lambda>y bs fs. mset bs = mset (component_blocks y) \<and>
      fs = [] \<and> component_ok y \<and> y \<noteq> Nul)"
    by (rule component_json_does [OF assms(1)])
qed (use assms(3) in auto)

lemma does_read_options:
  assumes "json_laws J" and "json_depth J (Suc k) j"
    and "\<And>q bs. mset (arr_blocks data_option_blocks q) = mset bs \<Longrightarrow> arr_ok data_option_ok q \<Longrightarrow> P q bs []"
  shows "does (get_array_from_json J (Some j) ''options'' (json_to_data_option J k)) P"
proof (rule does_read_array [where B = data_option_blocks and W = data_option_ok])
  fix x assume "x \<in> set (json_items J (get_object_item J (Some j) ''options''))"
  then have "json_depth J k x" using json_depth_items assms(1,2) by metis
  then show "does (json_to_data_option J k (Some x)) (\<lambda>y bs fs. mset bs = mset (data_option_blocks y) \<and>
      fs = [] \<and> data_option_ok y \<and> y \<noteq> Nul)"
    by (rule data_option_json_does [OF assms(1)])
qed (use assms(3) in auto)

lemma get_array_empty:
  "json_items J (get_object_item J data name) = [] \<Longrightarrow>
   get_array_from_json J data name f = State_Monad.return Nul"
  by (simp add: get_array_from_json_def)

lemma does_read_data:
  assumes laws: "json_laws J" and depth: "json_depth J (Suc k) j"
    and no_values: "json_items J (get_object_item J (get_object_item J (Some j) ''data'') ''values'') = []"
    and P: "\<And>q bs. mset (data_blocks q) = mset bs \<Longrightarrow> data_ok q \<Longrightarrow> P q bs []"
  shows "does (read_item J (Some j) ''data'' (json_to_interaction_data J k)) P"
proof (rule does_read_item)
  show "P Nul [] []" using P [of Nul "[]"] by (simp add: data_blocks_def data_ok_def)
next
  fix f assume f: "get_object_item J (Some j) ''data'' = Some f"
  have depth': "json_depth J (Suc k) f" by (rule json_depth_Suc [OF json_depth_item [OF laws depth f]])
  have novals: "get_array_from_json J (Some f) ''values'' g = State_Monad.return Nul"
    for g :: "'a option \<Rightarrow> (mem, discord_select_option ptr) state"
    by (rule get_array_empty) (use no_values f in simp)
  have "does (json_to_interaction_data J k (Some f)) (\<lambda>q bs fs. mset (data_blocks q) = mset bs \<and> data_ok q \<and> fs = [])"
    unfolding json_to_interaction_data_def novals
    by (rule does_bind does_fresh does_return does_get_string [OF laws] does_read_options [OF laws depth']
        does_read_components [OF laws depth'])+
      (simp add: data_blocks_def data_ok_def arr_blocks_def arr_ok_def ac_simps)
  then show "does (json_to_interaction_data J k (Some f)) P"
    by (rule does_weaken) (use P in auto)
qed

lemma does_message_content:
  assumes "json_laws J" and "\<And>q bs fs. mset bs = mset (blk_of q) + mset fs \<Longrightarrow> P q bs fs"
  shows "does (json_message_content J data) P"
  unfolding json_message_content_def
proof (rule does_bind, rule does_get_string [OF assms(1)])
  fix q :: "string ptr"
  show "does (case q of Ptr b [] \<Rightarrow> do { _ \<leftarrow> free_blk b; State_Monad.return Nul }
      | _ \<Rightarrow> State_Monad.return q) (\<lambda>z bs' fs'. P z (blk_of q @ bs') ([] @ fs'))"
    using assms(2) by (cases q) (auto split: list.splits intro!: does_intros)
qed

lemma does_read_reference:
  assumes "\<And>q. P q (blk_of q) []"
  shows "does (read_item J data ''message_reference'' (json_to_message_reference J)) P"
proof (rule does_read_item)
  show "P Nul [] []" using assms [of Nul] by simp
  have "P (Ptr b x) [b] []" for b x using assms [of "Ptr b x"] by simp
  then show "does (json_to_message_reference J (Some f)) P" for f
    unfolding json_to_message_reference_def by (intro does_intros) simp
qed

lemma does_read_application:
  assumes "\<And>q. P q (blk_of q) []"
  shows "does (read_item J data ''application'' (json_to_application J)) P"
proof (rule does_read_item)
  show "P Nul [] []" using assms [of Nul] by simp
  have "P (Ptr b x) [b] []" for b x using assms [of "Ptr b x"] by simp
  then show "does (json_to_application J (Some f)) P" for f
    unfolding json_to_application_def by (intro does_intros) simp
qed

lemma read_activity: "read_item J data name (json_to_message_activity J) = State_Monad.return Nul"
  by (simp add: read_item_def json_to_message_activity_def split: option.split)

text \<open>What is read for a nested message or interaction.\<close>

definition reads :: "('a ptr \<Rightarrow> nat list) \<Rightarrow> ('a ptr \<Rightarrow> bool) \<Rightarrow> (mem, 'a ptr) state \<Rightarrow> bool" where
  "reads B W c \<longleftrightarrow> does c (\<lambda>q bs fs. mset bs = mset (B q) + mset fs \<and> W q)"

lemma does_reads:
  assumes "reads B W c" and "\<And>q bs fs. mset bs = mset (B q) + mset fs \<Longrightarrow> W q \<Longrightarrow> P q bs fs"
  shows "does c P"
  using assms(1) unfolding reads_def by (rule does_weaken) (use assms(2) in blast)

lemma message_body_reads:
  assumes laws: "json_laws J" and depth: "json_depth J (Suc k) j"
    and ids: "ids_json_ok J (Some j) ''mention_roles''"
      "ids_json_ok J (get_object_item J (Some j) ''member'') ''roles''"
      "list_all (\<lambda>x. ids_json_ok J (Some x) ''roles'') (json_items J (get_object_item J (Some j) ''mentions''))"
    and channels: "json_items J (get_object_item J (Some j) ''mention_channels'') = []"
    and r: "reads message_blocks message_ok (if is_null J (get_object_item J (Some j) ''referenced_message'')
        then State_Monad.return Nul else read_item J (Some j) ''referenced_message'' rd_message)"
    and i: "reads interaction_blocks interaction_ok (read_item J (Some j) ''interaction'' rd_interaction)"
  shows "reads message_blocks (\<lambda>p. message_ok p \<and> p \<noteq> Nul)
    (read_message J rd_message rd_interaction (json_to_component J k) (Some j))"
proof -
  have mentions: "does (get_array_from_json J (Some j) ''mentions'' (\<lambda>d. json_to_member J d Nul)) P"
    if "\<And>q bs. mset (arr_blocks member_blocks q) = mset bs \<Longrightarrow> arr_ok member_ok q \<Longrightarrow> P q bs []" for P
  proof (rule does_read_array [where B = member_blocks and W = member_ok])
    fix x assume "x \<in> set (json_items J (get_object_item J (Some j) ''mentions''))"
    then have "ids_json_ok J (Some x) ''roles''" using ids(3) by (simp add: list_all_iff)
    then show "does (json_to_member J (Some x) Nul) (\<lambda>y bs fs. mset bs = mset (member_blocks y) \<and> fs = [] \<and>
        member_ok y \<and> y \<noteq> Nul)"
      by (rule does_json_member [OF laws]) (simp add: user_blocks_def)
  qed (use that in auto)
  have stubs: "json_to_reaction J d = State_Monad.return Nul" "json_to_sticker_item J d = State_Monad.return Nul"
      "json_to_sticker J d = State_Monad.return Nul" for d
    by (simp_all add: stub_defs)
  show ?thesis
    unfolding reads_def read_message_def Let_def read_activity get_array_empty [OF channels]
    by (rule does_bind does_fresh does_return does_read_author [OF laws] does_if_read_member [OF laws ids(2)]
        does_message_content [OF laws] does_get_string [OF laws] mentions does_get_ids [OF ids(1)]
        does_read_attachments [OF laws] does_json_nul_array stubs does_read_application does_read_reference
        does_reads [OF r] does_reads [OF i] does_read_components [OF laws depth])+
      (simp add: message_own_blocks_def message_fields_ok_def arr_blocks_def arr_ok_def ac_simps
        embed_blocks_def channel_blocks_def channel_ok_def channel_icon_def)
qed

lemma interaction_body_reads:
  assumes laws: "json_laws J" and depth: "json_depth J (Suc k) j"
    and ids: "ids_json_ok J (get_object_item J (Some j) ''member'') ''roles''"
    and no_values: "json_items J (get_object_item J (get_object_item J (Some j) ''data'') ''values'') = []"
    and m: "reads message_blocks message_ok (read_item J (Some j) ''message'' rd_message)"
  shows "reads interaction_blocks (\<lambda>p. interaction_ok p \<and> p \<noteq> Nul)
    (read_interaction J (json_to_interaction_data J k) rd_message (Some j))"
proof -
  have u: "does (read_item J (Some j) ''user'' (json_to_user J)) P"
    if "\<And>q bs. mset (user_blocks q) = mset bs \<Longrightarrow> P q bs []" for P
    by (rule does_read_user [OF laws]) (use that in auto)
  show ?thesis
    unfolding reads_def read_interaction_def
    by (rule does_bind does_fresh does_return u does_read_member [OF laws ids] does_get_string [OF laws]
        does_reads [OF m] does_read_data [OF laws depth no_values])+
      (simp add: interaction_own_blocks_def ac_simps)
qed

lemma reads_Nul: "B Nul = [] \<Longrightarrow> W Nul \<Longrightarrow> reads B W (State_Monad.return Nul)"
  by (simp add: reads_def does_return)

lemma reads_item:
  assumes "\<And>f. get_object_item J data name = Some f \<Longrightarrow> reads B (\<lambda>p. W p \<and> p \<noteq> Nul) (rd (Some f))"
    and "B Nul = []" "W Nul"
  shows "reads B W (read_item J data name rd)"
  using assms unfolding reads_def
  by (cases "get_object_item J data name")
    (auto simp: read_item_def intro!: does_return elim: does_weaken)

lemma message_reads:
  assumes "json_laws J"
  shows "(json_depth J k j \<longrightarrow> message_json_ok J k (Some j) \<longrightarrow>
      reads message_blocks (\<lambda>p. message_ok p \<and> p \<noteq> Nul) (json_to_message J k (Some j))) \<and>
    (json_depth J k j \<longrightarrow> interaction_json_ok J k (Some j) \<longrightarrow>
      reads interaction_blocks (\<lambda>p. interaction_ok p \<and> p \<noteq> Nul) (json_to_interaction J k (Some j)))"
proof (induction k arbitrary: j)
  case (Suc k)
  note item_depth = json_depth_item [OF assms]
  have msg: "reads message_blocks message_ok (read_item J (Some j) name (json_to_message J k))"
    if "json_depth J (Suc k) j" "message_json_ok J k (get_object_item J (Some j) name)" for name
    by (rule reads_item) (use Suc item_depth [OF that(1)] that(2) in auto)
  have int: "reads interaction_blocks interaction_ok (read_item J (Some j) name (json_to_interaction J k))"
    if "json_depth J (Suc k) j" "interaction_json_ok J k (get_object_item J (Some j) name)" for name
    by (rule reads_item) (use Suc item_depth [OF that(1)] that(2) in auto)
  have nul: "reads message_blocks message_ok (State_Monad.return Nul)" by (simp add: reads_Nul)
  show ?case
    by (intro conjI impI; simp only: json_to_message.simps json_to_interaction.simps
        message_json_ok.simps interaction_json_ok.simps)
      (use message_body_reads [OF assms] interaction_body_reads [OF assms] msg int nul in \<open>simp_all split: if_split\<close>)
qed simp

section \<open>Copying\<close>

text \<open>
  The options that can be copied: the kind of value is never set, so a number is copied as if it
  were a pointer, which is harmless only for 0.
\<close>

inductive data_option_copyable :: "discord_data_option ptr \<Rightarrow> bool" where
  "do_value_type x = 0 \<Longrightarrow> do_value x \<in> {V_Zero, V_Int 0, V_Double 0} \<or> do_type x = 3 \<and> (\<exists>s. do_value x = V_String s) \<Longrightarrow>
   arr_ok data_option_copyable options1 \<Longrightarrow>
   data_option_copyable (Ptr b (Data_Option x options1))"

definition data_copyable :: "discord_interaction_data ptr \<Rightarrow> bool" where
  "data_copyable p =
     (case p of Nul \<Rightarrow> True
      | Ptr _ d \<Rightarrow> arr_ok data_option_copyable (id_options d) \<and> arr_ok select_value_ok (id_values d) \<and>
          arr_ok component_ok (id_components d))"

function (sequential) message_copyable :: "discord_message ptr \<Rightarrow> bool"
  and interaction_copyable :: "discord_interaction ptr \<Rightarrow> bool" where
  "message_copyable Nul \<longleftrightarrow> True"
| "message_copyable (Ptr b (Message x r i)) \<longleftrightarrow>
     message_fields_ok x \<and> message_copyable r \<and> interaction_copyable i"
| "interaction_copyable Nul \<longleftrightarrow> True"
| "interaction_copyable (Ptr b (Interaction x m)) \<longleftrightarrow>
     data_copyable (in_data x) \<and> member_ok (in_member x) \<and> message_copyable m"
  by pat_completeness auto
termination
  by (relation "measure (\<lambda>s. case s of Inl p \<Rightarrow> size_ptr size p | Inr p \<Rightarrow> size_ptr size p)") auto

definition message_summary where
  "message_summary p =
     (case p of Nul \<Rightarrow> None
      | Ptr _ (Message x _ _) \<Rightarrow>
          Some (ms_id x, ms_channel_id x, ms_guild_id x, ms_webhook_id x, ms_type x, ms_flags x, ms_tts x,
            ms_pinned x, erase (ms_content x), erase (ms_timestamp x), erase (ms_mention_roles x),
            user_content (ms_user x), arr_content attachment_content (ms_attachments x),
            arr_content embed_content (ms_embeds x)))"

definition message_small :: "discord_message ptr \<Rightarrow> bool" where
  "message_small p =
     (case p of Nul \<Rightarrow> True
      | Ptr _ (Message x _ _) \<Rightarrow> fits 4096 (ms_content x) \<and> fits 50 (ms_timestamp x) \<and>
          user_small (ms_user x) \<and> arr_all attachment_small (ms_attachments x) \<and>
          arr_all embed_small (ms_embeds x))"

lemma does_copy_elements:
  assumes ok: "arr_ok W p"
    and f: "\<And>x. W x \<Longrightarrow> x \<noteq> Nul \<Longrightarrow> does (f x) (\<lambda>y bs fs. mset bs = mset (B y) \<and> fs = [] \<and> (V y \<and> y \<noteq> Nul))"
    and P: "\<And>q bs. mset (arr_blocks B q) = mset bs \<Longrightarrow> arr_ok V q \<Longrightarrow> P q bs []"
  shows "does (copy_array f p) P"
proof (cases p)
  case Nul
  with P [of Nul "[]"] show ?thesis
    by (auto simp: copy_array_def arr_blocks_def arr_ok_def intro!: does_intros)
next
  case (Ptr b xs)
  have xs: "xs \<noteq> []" "\<And>x. x \<in> set xs \<Longrightarrow> x \<noteq> Nul \<and> W x" using ok by (auto simp: Ptr arr_ok_def)
  have t: "does (State_Monad.traverse_list f xs) (\<lambda>ys bs fs. mset bs = mset (concat (map B ys)) \<and> fs = [] \<and>
      list_all2 (\<lambda>_ y. V y \<and> y \<noteq> Nul) xs ys)"
    by (rule does_traverse) (use f xs(2) in auto)
  have "P (Ptr a ys) (a # bs) []"
    if "mset bs = mset (concat (map B ys))" "list_all2 (\<lambda>_ y. V y \<and> y \<noteq> Nul) xs ys" for a ys bs
  proof (rule P)
    have "length ys = length xs" using that(2) by (simp add: list_all2_lengthD)
    then show "arr_ok V (Ptr a ys)"
      using xs(1) that(2) by (auto simp: arr_ok_def list_all2_conv_all_nth in_set_conv_nth)
  qed (use that(1) in \<open>simp add: arr_blocks_def\<close>)
  with t xs(1) show ?thesis
    by (auto simp: copy_array_def Ptr intro!: does_intros elim!: does_weaken)
qed

lemma data_option_copy_does:
  "data_option_copyable p \<Longrightarrow>
   does (copy_data_option p) (\<lambda>q bs fs. mset bs = mset (data_option_blocks q) \<and> fs = [] \<and>
     (data_option_ok q \<and> q \<noteq> Nul))"
proof (induction rule: data_option_copyable.induct)
  case (1 x options1 b)
  have v: "does (copy_option_value (do_value_type x) (do_value x)) P"
    if "\<And>v bs. mset (case v of V_String p \<Rightarrow> blk_of p | _ \<Rightarrow> []) = mset bs \<Longrightarrow>
      (\<forall>p. v = V_String p \<longrightarrow> do_type x = 3) \<Longrightarrow> P v bs []" for P
    using 1(2)
  proof
    assume "do_value x \<in> {V_Zero, V_Int 0, V_Double 0}"
    then show ?thesis using that [of "do_value x" "[]"] 1(1)
      by (auto simp: copy_option_value_def intro!: does_intros)
  next
    assume s: "do_type x = 3 \<and> (\<exists>s. do_value x = V_String s)"
    then obtain s where s': "do_value x = V_String s" by blast
    have "P (V_String q) (blk_of q) []" for q using that [of "V_String q" "blk_of q"] s by simp
    from this [of Nul] this have "P (V_String q) (blk_of q) []" "P (V_String Nul) [] []" for q by simp_all
    then show ?thesis using 1(1) s' by (auto simp: copy_option_value_def intro!: does_intros)
  qed
  have os: "does (copy_array copy_data_option options1) P"
    if "\<And>q bs. mset (arr_blocks data_option_blocks q) = mset bs \<Longrightarrow> arr_ok data_option_ok q \<Longrightarrow> P q bs []" for P
    by (rule does_copy_elements [OF 1(3)]) (use that in auto)
  show ?case
    unfolding copy_data_option.simps
    by (rule does_bind does_fresh does_return does_copy_str v os)+ (simp add: data_option_ok.intros)
qed

lemma select_value_copy_does:
  assumes "select_value_ok p" "p \<noteq> Nul"
  shows "does (copy_select_value p) (\<lambda>q bs fs. mset bs = mset (option_blocks q) \<and> fs = [] \<and>
     (select_value_ok q \<and> q \<noteq> Nul))"
proof -
  obtain b x where p: "p = Ptr b x" using assms(2) by (cases p) auto
  from assms(1) have ok: "so_value x = Nul" "\<not> so_default x" "so_emoji x = Nul"
    by (simp_all add: select_value_ok_def p)
  show ?thesis
    unfolding p copy_select_value_def ptr.case
    by (simp only: ok simp_thms if_False, (rule does_intros)+)
      (simp add: option_blocks_def select_value_ok_def ok)
qed

lemma component_copy_does':
  "component_ok p \<Longrightarrow> does (copy_component p)
     (\<lambda>q bs fs. mset bs = mset (component_blocks q) \<and> fs = [] \<and> (component_ok q \<and> q \<noteq> Nul))"
  using component_copy_does by (rule does_weaken) (auto dest: component_ok_not_Nul)

lemma data_copy_does:
  assumes "data_copyable p"
    and P: "\<And>q bs. mset (data_blocks q) = mset bs \<Longrightarrow> data_ok q \<Longrightarrow> P q bs []"
  shows "does (copy_interaction_data p) P"
proof (cases p)
  case Nul
  with P [of Nul "[]"] show ?thesis
    by (auto simp: copy_interaction_data_def data_blocks_def data_ok_def intro!: does_intros)
next
  case (Ptr b d)
  from assms(1) have ok: "arr_ok data_option_copyable (id_options d)" "arr_ok select_value_ok (id_values d)"
      "arr_ok component_ok (id_components d)" by (simp_all add: data_copyable_def Ptr)
  have o: "does (copy_array copy_data_option (id_options d)) Q"
    if "\<And>q bs. mset (arr_blocks data_option_blocks q) = mset bs \<Longrightarrow> arr_ok data_option_ok q \<Longrightarrow> Q q bs []" for Q
    by (rule does_copy_elements [OF ok(1) data_option_copy_does]) (use that in auto)
  have v: "does (copy_array copy_select_value (id_values d)) Q"
    if "\<And>q bs. mset (arr_blocks option_blocks q) = mset bs \<Longrightarrow> arr_ok select_value_ok q \<Longrightarrow> Q q bs []" for Q
    by (rule does_copy_elements [OF ok(2) select_value_copy_does]) (use that in auto)
  have c: "does (copy_array copy_component (id_components d)) Q"
    if "\<And>q bs. mset (arr_blocks component_blocks q) = mset bs \<Longrightarrow> arr_ok component_ok q \<Longrightarrow> Q q bs []" for Q
    by (rule does_copy_elements [OF ok(3) component_copy_does']) (use that in auto)
  have "does (copy_interaction_data p) (\<lambda>q bs fs. mset (data_blocks q) = mset bs \<and> data_ok q \<and> fs = [])"
    unfolding Ptr copy_interaction_data_def ptr.case
    by (rule does_bind does_fresh does_return does_copy_str o v c)+
      (simp add: data_blocks_def data_ok_def ac_simps)
  then show ?thesis by (rule does_weaken) (use P in auto)
qed

lemma does_copy_user:
  assumes "\<And>q bs. mset (user_blocks q) = mset bs \<Longrightarrow> (user_small p \<longrightarrow> user_content q = user_content p) \<Longrightarrow> P q bs []"
  shows "does (copy_user p) P"
  by (rule user.copy_rule) (use assms in auto)

lemma does_copy_author:
  assumes "member_ok mb"
    and "\<And>q bs. member_ok q \<Longrightarrow> mset (author_blocks u q) = mset bs + mset (user_blocks u) \<Longrightarrow> P q bs []"
  shows "does (copy_member mb u) P"
  by (rule does_copy_member [OF assms(1)])
    (use assms(2) in \<open>auto simp: author_blocks_def member_blocks_def member_own_blocks_def\<close>)

lemma does_copy_mention:
  "member_ok p \<Longrightarrow> p \<noteq> Nul \<Longrightarrow> does (copy_member p Nul)
     (\<lambda>q bs fs. mset bs = mset (member_blocks q) \<and> fs = [] \<and> (member_ok q \<and> q \<noteq> Nul))"
  by (rule does_copy_member) (auto simp: member_blocks_def user_blocks_def)

lemma message_body_copy:
  assumes ok: "message_fields_ok x"
    and r: "does cr (\<lambda>q bs fs. mset (message_blocks q) = mset bs \<and> message_ok q \<and> fs = [])"
    and i: "does ci (\<lambda>q bs fs. mset (interaction_blocks q) = mset bs \<and> interaction_ok q \<and> fs = [])"
  shows "does (copy_message_body x cr ci) (\<lambda>q bs fs. mset (message_blocks q) = mset bs \<and>
    message_ok q \<and> q \<noteq> Nul \<and> fs = [] \<and>
    (message_small (Ptr b (Message x r0 i0)) \<longrightarrow> message_summary q = message_summary (Ptr b (Message x r0 i0))))"
proof -
  from ok have ok1: "member_ok (ms_member x)" "arr_ok member_ok (ms_mentions x)" "ids_ok (ms_mention_roles x)"
      "ms_mention_channels x = Nul" "arr_ok (\<lambda>_. True) (ms_attachments x)"
      "arr_ok (\<lambda>e. embed_fields_ok e \<and> \<not> embed_has_timestamp e) (ms_embeds x)"
      "nul_array (ms_reactions x)" "channel_ok (ms_thread x) \<and> channel_icon (ms_thread x) = Nul"
      "arr_ok component_ok (ms_components x)" "nul_array (ms_sticker_items x)" "nul_array (ms_stickers x)"
    by (simp_all add: message_fields_ok_def)
  have mentions: "does (copy_array (\<lambda>m. copy_member m Nul) (ms_mentions x)) P"
    if "\<And>q bs. mset (arr_blocks member_blocks q) = mset bs \<Longrightarrow> arr_ok member_ok q \<Longrightarrow> P q bs []" for P
    by (rule does_copy_elements [OF ok1(2) does_copy_mention]) (use that in auto)
  have comps: "does (copy_array copy_component (ms_components x)) P"
    if "\<And>q bs. mset (arr_blocks component_blocks q) = mset bs \<Longrightarrow> arr_ok component_ok q \<Longrightarrow> P q bs []" for P
    by (rule does_copy_elements [OF ok1(9) component_copy_does']) (use that in auto)
  have ref: "does (copy_message_reference p) P" if "\<And>q. P q (blk_of q) []" for p P
    using that [of Nul] that [of "Ptr _ _"]
    by (cases p) (auto simp: copy_message_reference_def intro!: does_intros)
  have nested: "does cr P" if "\<And>q bs. mset (message_blocks q) = mset bs \<Longrightarrow> message_ok q \<Longrightarrow> P q bs []" for P
    using r by (rule does_weaken) (use that in auto)
  have nested': "does ci P"
    if "\<And>q bs. mset (interaction_blocks q) = mset bs \<Longrightarrow> interaction_ok q \<Longrightarrow> P q bs []" for P
    using i by (rule does_weaken) (use that in auto)
  have stubs: "\<And>y. copy_reaction y = State_Monad.return Nul"
      "\<And>y. copy_sticker_item y = State_Monad.return Nul" "\<And>y. copy_sticker y = State_Monad.return Nul"
    by (simp_all add: stub_defs)
  have none: "copy_array copy_mention_as_channel Nul = State_Monad.return Nul" by (simp add: copy_array_def)
  show ?thesis
    unfolding copy_message_body_def ok1(4) none copy_message_activity_def copy_application_def
    by (rule does_bind does_fresh does_return does_copy_user does_copy_author [OF ok1(1)] does_copy_str
        mentions does_copy_ids [OF ok1(3)] attachment.copy_array_rule [OF ok1(5)]
        embed.copy_array_rule [OF ok1(6)] ref nested nested' channel.copy_rule [OF ok1(8)] comps
        does_copy_nul_array [OF ok1(7)] does_copy_nul_array [OF ok1(10)] does_copy_nul_array [OF ok1(11)]
        stubs)+
      (simp add: message_own_blocks_def message_fields_ok_def arr_blocks_def arr_ok_def ac_simps
        message_summary_def message_small_def)
qed

lemma interaction_body_copy:
  assumes ok: "data_copyable (in_data x)" "member_ok (in_member x)"
    and m: "does cm (\<lambda>q bs fs. mset (message_blocks q) = mset bs \<and> message_ok q \<and> fs = [])"
  shows "does (copy_interaction_body x cm) (\<lambda>q bs fs. mset (interaction_blocks q) = mset bs \<and>
    interaction_ok q \<and> fs = [])"
proof -
  have nested: "does cm P" if "\<And>q bs. mset (message_blocks q) = mset bs \<Longrightarrow> message_ok q \<Longrightarrow> P q bs []" for P
    using m by (rule does_weaken) (use that in auto)
  show ?thesis
    unfolding copy_interaction_body_def
    by (rule does_bind does_fresh does_return data_copy_does [OF ok(1)] does_copy_user
        does_copy_author [OF ok(2)] does_copy_str nested)+
      (simp add: interaction_own_blocks_def ac_simps)
qed

lemma message_copy_does:
  "message_copyable p \<Longrightarrow> does (copy_message p) (\<lambda>q bs fs. mset (message_blocks q) = mset bs \<and>
     message_ok q \<and> (q = Nul \<longleftrightarrow> p = Nul) \<and> fs = [] \<and>
     (message_small p \<longrightarrow> message_summary q = message_summary p))"
  "interaction_copyable i \<Longrightarrow> does (copy_interaction i) (\<lambda>q bs fs. mset (interaction_blocks q) = mset bs \<and>
     interaction_ok q \<and> fs = [])"
proof (induction p and i rule: copy_message_copy_interaction.induct)
  case (2 b x r i)
  then have "does (copy_message r) (\<lambda>q bs fs. mset (message_blocks q) = mset bs \<and> message_ok q \<and> fs = [])"
    by (auto elim!: does_weaken)
  moreover from 2 have "does (copy_interaction i) (\<lambda>q bs fs. mset (interaction_blocks q) = mset bs \<and>
      interaction_ok q \<and> fs = [])" and "message_fields_ok x" by simp_all
  ultimately show ?case
    using message_body_copy [of x "copy_message r" "copy_interaction i" b r i] by (auto elim!: does_weaken)
next
  case (4 b x m)
  then have "does (copy_message m) (\<lambda>q bs fs. mset (message_blocks q) = mset bs \<and> message_ok q \<and> fs = [])"
    by (auto elim!: does_weaken)
  with 4 show ?case by (simp add: interaction_body_copy)
qed (auto intro!: does_intros)

end
