(* ===== verification/Ownership.thy ===== *)
theory Ownership
  imports Message_Memory
begin

text \<open>
  The properties of the structures of \<open>src/discord\<close>: who owns which memory after reading from
  JSON, copying and destroying, and what the contents are. Runs start from an arbitrary memory.
\<close>

definition empty_mem :: mem where
  "empty_mem = \<lparr>next_blk = 0, freed = [], bad = False\<rparr>"

lemma memory_run:
  assumes "does c P" and "run_state c m = (y, m1)"
  obtains bs fs where "m1 = m\<lparr>next_blk := next_blk m + length bs, freed := freed m @ fs\<rparr>"
    "mset bs = mset [next_blk m ..< next_blk m1]" "P y bs fs"
  using assms(1)
proof (rule doesE [of _ _ m])
  fix y' bs fs
  assume "run_state c m = (y', m\<lparr>next_blk := next_blk m + length bs, freed := freed m @ fs\<rparr>)"
    "mset bs = mset [next_blk m ..< next_blk m + length bs]" "P y' bs fs"
  with assms(2) show thesis by (intro that) auto
qed

section \<open>Messages\<close>

text \<open>C13. Reading a message and destroying it frees no block twice and touches no other memory:
  every block that was allocated is freed exactly once, except those of the inner structures of its
  components and of the message it refers to, which are never freed.\<close>

theorem message_read_destroy:
  assumes "json_laws J" and "json_depth J k j" and "message_json_ok J k (Some j)"
    and "run_state (json_to_message J k (Some j)) m = (p, m1)"
    and "run_state (destroy_message p) m1 = (u, m2)"
  shows "message_ok p \<and> bad m2 = bad m \<and> (\<exists>fs. freed m2 = freed m @ fs \<and>
    mset fs + mset (message_leaks p) = mset [next_blk m ..< next_blk m2])"
proof -
  have "does (json_to_message J k (Some j)) (\<lambda>q bs fs. mset bs = mset (message_blocks q) + mset fs \<and>
      message_ok q \<and> q \<noteq> Nul)"
    using message_reads [OF assms(1)] assms(2,3) unfolding reads_def by blast
  from this assms(4) obtain bs1 fs1 where r:
    "m1 = m\<lparr>next_blk := next_blk m + length bs1, freed := freed m @ fs1\<rparr>"
    "mset bs1 = mset [next_blk m ..< next_blk m1]"
    "mset bs1 = mset (message_blocks p) + mset fs1" "message_ok p" "p \<noteq> Nul"
    by (rule memory_run) auto
  have "does (destroy_message p) (\<lambda>_ bs fs. bs = [] \<and> mset fs + mset (message_leaks p) = mset (message_blocks p))"
    using message_destroy_does(1) [OF r(4)] r(5) by (simp add: destroy_message_def)
  from this assms(5) obtain fs2 where d:
    "m2 = m1\<lparr>freed := freed m1 @ fs2\<rparr>" "mset fs2 + mset (message_leaks p) = mset (message_blocks p)"
    by (rule memory_run) auto
  have "freed m2 = freed m @ fs1 @ fs2" "next_blk m2 = next_blk m1" "bad m2 = bad m"
    using r(1) d(1) by simp_all
  with r(2-4) d(2) show ?thesis by (intro conjI exI [of _ "fs1 @ fs2"]) (simp_all add: ac_simps)
qed

definition sample_message :: jval where
  "sample_message = JObj [(''id'', JStr ''7''), (''content'', JStr ''''),
     (''author'', JObj [(''username'', JStr ''bob'')]),
     (''components'', JArr [JObj [(''type'', JNum 2), (''label'', JStr ''ok'')]]),
     (''referenced_message'', JObj [(''id'', JStr ''6''), (''content'', JStr ''hi'')])]"

definition sample_read :: "discord_message ptr \<times> mem" where
  "sample_read = run_state (json_to_message small_json 4 (Some sample_message)) empty_mem"

theorem message_read_destroy_witness:
  "message_leaks (fst sample_read) \<noteq> [] \<and>
   (case run_state (destroy_message (fst sample_read)) (snd sample_read) of
      (u, m2) \<Rightarrow> \<not> bad m2 \<and>
        mset (freed m2) + mset (message_leaks (fst sample_read)) = mset [0 ..< next_blk m2])"
proof -
  have j: "json_depth small_json 4 sample_message" "message_json_ok small_json 4 (Some sample_message)"
    by (simp_all add: numeral_eq_Suc sample_message_def ids_json_ok_def)
  have l: "message_leaks (fst sample_read) \<noteq> []"
    by (simp add: sample_read_def numeral_eq_Suc read_message_def sample_message_def fresh_blk_def
      free_blk_def read_item_def Let_def json_to_user_def json_message_content_def get_array_from_json_def
      get_ids_from_json_def stub_defs empty_mem_def)
  obtain u m2 where d: "run_state (destroy_message (fst sample_read)) (snd sample_read) = (u, m2)" by (rule prod.exhaust)
  have r: "run_state (json_to_message small_json 4 (Some sample_message)) empty_mem = (fst sample_read, snd sample_read)"
    by (simp add: sample_read_def)
  from message_read_destroy [OF small_json_laws j r d] l d show ?thesis by (auto simp: empty_mem_def)
qed


definition sample_fields :: message_fields where
  "sample_fields = \<lparr>ms_id = 7, ms_channel_id = 8, ms_guild_id = 0, ms_user = Nul, ms_member = Nul,
     ms_content = Ptr 1 ''hi'', ms_timestamp = Nul, ms_edited_timestamp = Nul, ms_tts = False,
     ms_mention_everyone = False, ms_mentions = Nul, ms_mention_roles = Ptr 2 [9],
     ms_mention_channels = Nul, ms_attachments = Nul, ms_embeds = Nul, ms_reactions = Nul,
     ms_nonce = Nul, ms_pinned = False, ms_webhook_id = 0, ms_type = 0, ms_activity = Nul,
     ms_application = Nul, ms_application_id = 0, ms_message_reference = Nul, ms_flags = 0,
     ms_thread = Nul, ms_components = Nul, ms_sticker_items = Nul, ms_stickers = Nul\<rparr>"


section \<open>Embeds\<close>

text \<open>C12. Copying an embed that has no timestamp keeps every string that is within its limit and every
  field, nested structures included, in new memory only; destroying the copy frees exactly the
  memory that copying took, each block once.\<close>

theorem embed_copy_then_destroy:
  assumes "embed_fields_ok p" and "\<not> embed_has_timestamp p" and "p \<noteq> Nul"
    and "run_state (copy_embed p) m = (q, m1)" and "run_state (destroy_embed q) m1 = (u, m2)"
  shows "(embed_small p \<longrightarrow> embed_content q = embed_content p) \<and> bad m2 = bad m \<and>
    (\<exists>fs. freed m2 = freed m @ fs \<and> mset fs = mset [next_blk m ..< next_blk m1])"
proof -
  have "embed_small p \<longrightarrow> embed_content q = embed_content p"
    using memory_run [OF embed_copy_does [OF assms(1)] assms(4)] by blast
  with embed.copy_destroy [of p m q m1 u m2] assms show ?thesis by auto
qed

definition plain_embed :: "string ptr \<Rightarrow> string ptr \<Rightarrow> discord_embed" where
  "plain_embed title timestamp =
     \<lparr>eb_title = title, eb_type = Nul, eb_description = Nul, eb_url = Nul, eb_timestamp = timestamp,
      eb_color = 0, eb_footer = Ptr 3 \<lparr>ef_text = Ptr 4 ''f'', ef_icon_url = Nul, ef_proxy_icon_url = Nul\<rparr>,
      eb_image = Nul, eb_thumbnail = Nul, eb_video = Nul, eb_provider = Nul, eb_author = Nul,
      eb_fields = Nul\<rparr>"

theorem embed_copy_then_destroy_witness:
  "\<exists>q m1 u m2. run_state (copy_embed (Ptr 0 (plain_embed (Ptr 1 ''t'') Nul))) \<lparr>next_blk = 5, freed = [], bad = False\<rparr> = (q, m1) \<and>
     run_state (destroy_embed q) m1 = (u, m2) \<and> mset (freed m2) = mset [5 ..< next_blk m1] \<and>
     embed_content q = embed_content (Ptr 0 (plain_embed (Ptr 1 ''t'') Nul))"
proof -
  let ?p = "Ptr 0 (plain_embed (Ptr 1 ''t'') Nul)" and ?m = "\<lparr>next_blk = 5, freed = [], bad = False\<rparr>"
  have ok: "embed_fields_ok ?p" "\<not> embed_has_timestamp ?p" "embed_small ?p"
    by (simp_all add: embed_fields_ok_def plain_embed_def arr_ok_def embed_has_timestamp_def embed_small_def
        fits_def embed_footer_small_def embed_media_small_def embed_provider_small_def
        embed_author_small_def arr_all_def)
  obtain q m1 where c: "run_state (copy_embed ?p) ?m = (q, m1)" by fastforce
  obtain u m2 where d: "run_state (destroy_embed q) m1 = (u, m2)" by (rule prod.exhaust)
  show ?thesis
    using embed_copy_then_destroy [OF ok(1,2) _ c d] ok(3) c d
    by (intro exI [of _ q] exI [of _ m1] exI [of _ u] exI [of _ m2]) auto
qed

text \<open>Destroying an embed that has a timestamp frees its title twice and its timestamp never.\<close>

theorem embed_timestamp_double_free:
  assumes "embed_fields_ok (Ptr b e)" and "eb_title e = Ptr t s" and "eb_timestamp e = Ptr a z"
    and "distinct (embed_blocks (Ptr b e))" and "run_state (destroy_embed (Ptr b e)) m = (u, m')"
  shows "\<exists>fs. freed m' = freed m @ fs \<and> count_list fs t = 2 \<and> a \<notin> set fs"
proof -
  from embed_destroy_frees [OF assms(1)] assms(5) obtain fs where fs: "freed m' = freed m @ fs"
      "mset fs + mset (blk_of (eb_timestamp e)) =
       mset (embed_blocks (Ptr b e)) + mset (if eb_timestamp e \<noteq> Nul then blk_of (eb_title e) else [])"
    by (rule memory_run) auto
  let ?B = "embed_blocks (Ptr b e)"
  have B: "t \<in> set ?B" "a \<in> set ?B" "t \<noteq> a"
    using assms(2-4) by (auto simp: embed_blocks_def)
  have eq: "add_mset a (mset fs) = add_mset t (mset ?B)" using fs(2) assms(2,3) by simp
  have one: "count (mset ?B) x = (if x \<in> set ?B then 1 else 0)" for x
    using assms(4) by (simp add: distinct_count_atmost_1)
  have t: "count (add_mset a (mset fs)) t = count (add_mset t (mset ?B)) t"
    and a: "count (add_mset a (mset fs)) a = count (add_mset t (mset ?B)) a" by (simp_all only: eq)
  from t have "count (mset fs) t = 2" using one [of t] B by simp
  moreover from a have "count (mset fs) a = 0" using one [of a] B by simp
  ultimately show ?thesis using fs(1) by (metis count_mset count_mset_0_iff)
qed

theorem embed_timestamp_double_free_witness:
  "count_list (freed (snd (run_state (destroy_embed (Ptr 0 (plain_embed (Ptr 1 ''t'') (Ptr 2 ''now'')))) empty_mem))) 1 = 2"
proof -
  let ?e = "plain_embed (Ptr 1 ''t'') (Ptr 2 ''now'')"
  have ok: "embed_fields_ok (Ptr 0 ?e)" "eb_title ?e = Ptr 1 ''t''" "eb_timestamp ?e = Ptr 2 ''now''"
      "distinct (embed_blocks (Ptr 0 ?e))"
    by (simp_all add: embed_fields_ok_def plain_embed_def arr_ok_def embed_blocks_def embed_footer_blocks_def
        embed_media_blocks_def embed_provider_blocks_def embed_author_blocks_def arr_blocks_def)
  from embed_timestamp_double_free [OF ok surjective_pairing] obtain fs where
    "freed (snd (run_state (destroy_embed (Ptr 0 ?e)) empty_mem)) = freed empty_mem @ fs" "count_list fs 1 = 2"
    by blast
  then show ?thesis by (simp add: empty_mem_def)
qed

section \<open>Channels, options and IDs\<close>

text \<open>A copy of a channel that has an icon gets the icon as its topic and shares the icon's memory
  with the original: destroying both frees the icon twice.\<close>

theorem channel_icon_freed_twice:
  assumes "channel_ok p" and "channel_icon p = Ptr i s"
    and "run_state (copy_channel p) m = (q, m1)"
    and "run_state (destroy_channel p) m1 = (u, m2)" and "run_state (destroy_channel q) m2 = (v, m3)"
  shows "erase (channel_topic q) = Ptr 0 (strndup s 1025) \<and>
    (\<exists>fs. freed m3 = freed m @ fs \<and> 2 \<le> count_list fs i)"
proof -
  have p: "p \<noteq> Nul" using assms(2) by (auto simp: channel_icon_def)
  from channel_copy_icon [OF assms(1,2)] assms(3) have q: "freed m1 = freed m" "channel_ok q" "q \<noteq> Nul"
      "channel_icon q = Ptr i s" "erase (channel_topic q) = Ptr 0 (strndup s 1025)"
    by (auto elim!: memory_run)
  from channel_destroy_does [OF assms(1) p] assms(4) obtain fs1 where
    fs1: "freed m2 = freed m1 @ fs1" "mset fs1 = mset (channel_blocks p)" by (rule memory_run) auto
  from channel_destroy_does [OF q(2,3)] assms(5) obtain fs2 where
    fs2: "freed m3 = freed m2 @ fs2" "mset fs2 = mset (channel_blocks q)" by (rule memory_run) auto
  have icon: "i \<in> set (channel_blocks r)" if "channel_icon r = Ptr i s" for r
    using that by (cases r) (auto simp: channel_icon_def channel_blocks_def)
  have "i \<in> set fs1" "i \<in> set fs2"
    using icon [OF assms(2)] icon [OF q(4)] fs1(2) fs2(2) by (metis set_mset_mset)+
  then have "0 < count_list fs1 i" "0 < count_list fs2 i" by (metis count_list_0_iff gr0I)+
  then show ?thesis using q(1,5) fs1(1) fs2(1) by (intro conjI exI [of _ "fs1 @ fs2"]) simp_all
qed

definition icon_channel :: discord_channel where
  "icon_channel =
     \<lparr>ch_id = 1, ch_type = 1, ch_guild_id = 0, ch_position = 0, ch_permission_overwrites = Nul,
      ch_name = Nul, ch_topic = Nul, ch_nsfw = False, ch_last_message_id = 0, ch_bitrate = 0,
      ch_user_limit = 0, ch_rate_limit_per_user = 0, ch_recipients = Nul, ch_icon = Ptr 1 ''png'',
      ch_owner_id = 0, ch_application_id = 0, ch_parent_id = 0, ch_last_pin_timestamp = Nul,
      ch_rtc_region = Nul, ch_video_quality_mode = 0, ch_message_count = 0, ch_member_count = 0,
      ch_thread_metadata = Nul, ch_member = Nul, ch_default_auto_archive_duration = 0,
      ch_permissions = Nul, ch_flags = 0\<rparr>"

theorem channel_icon_freed_twice_witness:
  "\<exists>q m1 u m2 v m3. run_state (copy_channel (Ptr 0 icon_channel)) empty_mem = (q, m1) \<and>
     run_state (destroy_channel (Ptr 0 icon_channel)) m1 = (u, m2) \<and>
     run_state (destroy_channel q) m2 = (v, m3) \<and> erase (channel_topic q) = Ptr 0 ''png'' \<and>
     2 \<le> count_list (freed m3) 1"
proof -
  let ?p = "Ptr 0 icon_channel"
  have ok: "channel_ok ?p" "channel_icon ?p = Ptr 1 ''png''"
    by (simp_all add: channel_ok_def channel_icon_def icon_channel_def nul_array_def arr_ok_def)
  obtain q m1 where c: "run_state (copy_channel ?p) empty_mem = (q, m1)" by (rule prod.exhaust)
  obtain u m2 where d: "run_state (destroy_channel ?p) m1 = (u, m2)" by (rule prod.exhaust)
  obtain v m3 where e: "run_state (destroy_channel q) m2 = (v, m3)" by (rule prod.exhaust)
  from channel_icon_freed_twice [OF ok c d e] c d e show ?thesis
    by (intro exI [of _ q] exI [of _ m1] exI [of _ u] exI [of _ m2] exI [of _ v] exI [of _ m3])
      (auto simp: empty_mem_def)
qed

text \<open>The kind of an option's value is never recorded: copying an option of type integer (4) that
  was read with a non-zero value uses the number as a pointer.\<close>

theorem integer_option_copy_faults:
  assumes "json_laws J" and "get_int_from_json J data ''type'' 0 = 4"
    and "get_int_from_json J data ''value'' 0 \<noteq> 0"
    and "json_items J (get_object_item J data ''options'') = []"
    and "run_state (json_to_data_option J (Suc k) data) m = (p, m1)"
  shows "bad m1 = bad m \<and> bad (snd (run_state (copy_data_option p) m1))"
proof -
  have "does (json_to_data_option J (Suc k) data) (\<lambda>q bs fs. \<exists>b x i. q = Ptr b (Data_Option x Nul) \<and>
      do_value_type x = 0 \<and> do_value x = V_Int i \<and> i \<noteq> 0)"
    unfolding json_to_data_option.simps Let_def assms(2) get_array_empty [OF assms(4)]
    by (simp, (rule does_intros assms(1))+) (use assms(3) in simp)
  from this assms(5) obtain b x i where p: "p = Ptr b (Data_Option x Nul)" "do_value_type x = 0"
      "do_value x = V_Int i" "i \<noteq> 0" "bad m1 = bad m"
    by (rule memory_run) auto
  obtain n m2 where n: "run_state (copy_str 50 (do_name x)) (m1\<lparr>next_blk := Suc (next_blk m1)\<rparr>) = (n, m2)"
    by (rule prod.exhaust)
  show ?thesis
    by (simp add: p n fresh_blk_def copy_option_value_def fault_def copy_array_def)
qed

theorem integer_option_copy_faults_witness:
  "bad (snd (run_state (do { p \<leftarrow> json_to_data_option small_json 1 (Some (JObj [(''type'', JNum 4), (''value'', JNum 5)]));
     copy_data_option p }) empty_mem))"
proof -
  let ?d = "Some (JObj [(''type'', JNum 4), (''value'', JNum 5)])"
  have ok: "get_int_from_json small_json ?d ''type'' 0 = 4" "get_int_from_json small_json ?d ''value'' 0 \<noteq> 0"
      "json_items small_json (get_object_item small_json ?d ''options'') = []" by simp_all
  obtain p m1 where r: "run_state (json_to_data_option small_json (Suc 0) ?d) empty_mem = (p, m1)"
    by (rule prod.exhaust)
  from integer_option_copy_faults [OF small_json_laws ok r] r show ?thesis
    by (simp only: One_nat_def run_state_bind case_prod_conv)
qed

text \<open>C11. An ID is read back exactly, for all 64 bits, when the document holds it as a decimal string
  or as a number whose double is the ID.\<close>

theorem id_round_trip:
  assumes "json_laws J" and "get_object_item J data name = Some f"
    and "is_string J (Some f) \<and> valuestring J f = Some (show_u64 i) \<or>
      is_number J (Some f) \<and> valuedouble J f = of_nat (unat i)"
  shows "get_long_from_string_json J data name d = i"
  using assms(3)
proof
  assume "is_string J (Some f) \<and> valuestring J f = Some (show_u64 i)"
  with assms(1,2) show ?thesis by (simp add: get_long_of_shown_id)
next
  assume num: "is_number J (Some f) \<and> valuedouble J f = of_nat (unat i)"
  have n: "u64_of_double (of_nat n) = of_nat n" for n by (simp add: u64_of_double_def)
  have "u64_of_double (of_nat (unat i)) = i" by (simp only: n) simp
  with num have "valuedouble J f = of_nat (unat i)" "is_number J (Some f)" "u64_of_double (of_nat (unat i)) = i"
    by blast+
  then show ?thesis
    using assms(2) by (simp only: get_long_from_string_json_def option.case if_True)
qed

theorem id_round_trip_witness:
  "get_long_from_string_json small_json (Some (JObj [(''id'', JStr (show_u64 (- 1)))])) ''id'' 0 = - 1"
  by (rule id_round_trip [OF small_json_laws, of _ _ "JStr (show_u64 (- 1))"]) (simp_all add: small_json_def)

end
