(* ===== verification/Request.thy ===== *)
theory Request
  imports Json_Access
begin

text \<open>
  HTTP requests (\<open>request.c\<close>): the headers and the body that are handed to libcurl, one run of the
  work function \<open>request_t_pool\<close> on a worker of the thread pool, and the runs that follow when it
  puts itself back into the queue. What the network answers is an input, one \<open>attempt\<close> per transfer.
  A run records what it sends, the times it queues itself for, the callbacks it calls and the faults
  it commits; after a fault it goes on as if the memory held what it should.
\<close>

section \<open>Requests\<close>

datatype request_type = REQUEST_GET | REQUEST_POST | REQUEST_PATCH | REQUEST_PUT | REQUEST_DELETE
  | REQUEST_UPDATE

datatype request_callback = DISCORD_MESSAGE_CALLBACK | DISCORD_MULTIPLE_MESSAGE_CALLBACK

fun request_str :: "request_type \<Rightarrow> string" where
  "request_str REQUEST_GET = ''GET''"
| "request_str REQUEST_POST = ''POST''"
| "request_str REQUEST_PATCH = ''PATCH''"
| "request_str REQUEST_DELETE = ''DELETE''"
| "request_str REQUEST_PUT = ''PUT''"
| "request_str REQUEST_UPDATE = ''UPDATE''"

text \<open>
  \<open>n_bot\<close> tells that the bot pointer is not NULL, \<open>n_files_live\<close> that the array of file names and
  the names have not been freed.
\<close>

record request_work_node =
  n_url :: string
  n_json :: "string option"
  n_request_type :: request_type
  n_token :: string
  n_rc :: "request_callback option"
  n_bot :: bool
  n_iteration :: nat
  n_http :: int
  n_res :: int
  n_files :: "string list"
  n_files_live :: bool

datatype request_fault = Stack_Overflow | Heap_Overflow | Uninitialised | Null_Deref | Use_After_Free

datatype curl_body = Post_Fields string | Mime_Form string "(string \<times> string) list"

record curl_request =
  c_url :: string
  c_method :: string
  c_headers :: "string list"
  c_body :: curl_body

text \<open>One transfer: the pieces handed to \<open>write_data\<close>, the codes and the time after it.\<close>

record attempt =
  a_pieces :: "string list"
  a_http :: int
  a_res :: int
  a_now :: timeval

text \<open>The calls a finished request makes.\<close>

datatype 'j call = Call_Message "'j option" | Call_No_Messages | Cache_Message 'j | Call_Messages "'j list"

record 'j run =
  r_faults :: "request_fault list"
  r_sent :: "curl_request list"
  r_queued :: "timeval list"
  r_calls :: "'j call list"
  r_node :: "request_work_node option"

section \<open>Headers and body\<close>

text \<open>The length that \<open>write_data\<close> keeps is the length of the buffer, \<open>None\<close> being the NULL it starts from.\<close>

definition write_data :: "string \<Rightarrow> string option \<Rightarrow> string option" where
  "write_data data mem1 = Some ((case mem1 of None \<Rightarrow> [] | Some s \<Rightarrow> s) @ data)"

definition authorization_header :: "string \<Rightarrow> string" where
  "authorization_header token = ''Authorization: Bot '' @ token"

text \<open>\<open>char authorizationHeader[100]\<close> is filled with \<open>sprintf\<close>.\<close>

definition authorization_faults :: "string \<Rightarrow> request_fault list" where
  "authorization_faults token = (if 100 \<le> length (authorization_header token) then [Stack_Overflow] else [])"

definition d_curl_setup_discord_header :: "string \<Rightarrow> request_fault list \<times> string list" where
  "d_curl_setup_discord_header token =
     (authorization_faults token,
      [authorization_header token, ''Accept: application/json'', ''Content-Type: application/json'',
       ''User-Agent: DiscordBot (v0.0.1)''])"

definition file_disposition :: "nat \<Rightarrow> string \<Rightarrow> string" where
  \<open>file_disposition i file =
     ''Content-Disposition: form-data; name="files['' @ show_nat i @ '']"; filename="'' @ file @ ''"''\<close>

text \<open>
  The array \<open>attachments_l\<close> comes from \<open>malloc\<close> and its elements are passed to
  \<open>curl_slist_append\<close> before they are set. The JSON is cut off after 20000 bytes.
\<close>

definition d_curl_setup_discord_header_files ::
  "request_work_node \<Rightarrow> request_fault list \<times> string list \<times> curl_body" where
  "d_curl_setup_discord_header_files n =
     (let dispositions = map (\<lambda>(i, f). (file_disposition i f, f)) (enumerate 0 (n_files n))
      in (authorization_faults (n_token n) @
          (if n_json n = None then [Null_Deref] else []) @
          (if n_files n \<noteq> [] then [Uninitialised] else []) @
          (if n_files n \<noteq> [] \<and> \<not> n_files_live n then [Use_After_Free] else []) @
          (if list_ex (\<lambda>(d, _). 200 \<le> length d) dispositions then [Stack_Overflow] else []),
          [authorization_header (n_token n), ''Accept: application/json'',
           ''Content-Type: multipart/form-data'', ''User-Agent: DiscordBot (v0.0.1)''],
          Mime_Form (strndup (case n_json n of None \<Rightarrow> [] | Some j \<Rightarrow> j) 20000) dispositions))"

definition build_request :: "request_work_node \<Rightarrow> request_fault list \<times> curl_request" where
  "build_request n =
     (let (faults, headers, body) =
        (if n_files n = []
         then (let (fs, hs) = d_curl_setup_discord_header (n_token n)
               in (fs, hs, Post_Fields (case n_json n of None \<Rightarrow> [] | Some j \<Rightarrow> j)))
         else d_curl_setup_discord_header_files n)
      in (faults, \<lparr>c_url = n_url n, c_method = request_str (n_request_type n), c_headers = headers, c_body = body\<rparr>))"

section \<open>One run of the work function\<close>

definition trunc_rat :: "rat \<Rightarrow> int" where
  "trunc_rat q = (if q < 0 then \<lceil>q\<rceil> else \<lfloor>q\<rfloor>)"

text \<open>The remainder of C.\<close>

definition c_rem :: "int \<Rightarrow> int \<Rightarrow> int" where
  "c_rem a b = sgn a * (\<bar>a\<bar> mod \<bar>b\<bar>)"

definition retry_after_time :: "timeval \<Rightarrow> rat \<Rightarrow> timeval" where
  "retry_after_time now w =
     (let s = tv_sec now + trunc_rat w;
          us = tv_usec now + c_rem (trunc_rat (w * 1000000)) 1000000
      in if us > 1000000 then \<lparr>tv_sec = s + 1, tv_usec = us - 1000000\<rparr> else \<lparr>tv_sec = s, tv_usec = us\<rparr>)"

definition backoff_time :: "timeval \<Rightarrow> nat \<Rightarrow> timeval" where
  "backoff_time now iteration = now\<lparr>tv_sec := tv_sec now + 2 ^ iteration\<rparr>"

text \<open>\<open>t_pool_add_work(n->bot->thread_pool, ...)\<close>.\<close>

definition queue_again :: "request_work_node \<Rightarrow> timeval \<Rightarrow> timeval list \<times> request_fault list" where
  "queue_again n t = (if n_bot n then ([t], []) else ([], [Null_Deref]))"

text \<open>
  What is done for each HTTP code: whether the request is finished, the time it is queued for, the
  node and the faults. \<open>dbg\<close> tells whether \<open>lwsl_debug\<close> evaluates its arguments, which
  libwebsockets decides when it is built.
\<close>

definition handle_http ::
  "'j json_lib \<Rightarrow> bool \<Rightarrow> attempt \<Rightarrow> string option \<Rightarrow> request_work_node \<Rightarrow>
   bool \<times> timeval list \<times> request_work_node \<times> request_fault list" where
  "handle_http L dbg a response n =
     (let J = access L; http = a_http a
      in if 200 \<le> http \<and> http \<le> 299 then (True, [], n, [])
         else if http = 400 then (True, [], n, [])
         else if http = 401 then (True, [], n, [])
         else if http = 403 then (True, [], n, [])
         else if http = 404 then (True, [], n, [])
         else if http = 405 then (True, [], n, [])
         else if http = 429 then
           (let res_json = (case response of None \<Rightarrow> None | Some s \<Rightarrow> parse_json L s);
                wait_ms = get_object_item J res_json ''retry_after'';
                f = (if dbg \<and> wait_ms = None then [Null_Deref] else [])
            in case wait_ms of
                 None \<Rightarrow> (False, [], n, f)
               | Some w \<Rightarrow>
                   if is_number J (Some w)
                   then (let (q, f') = queue_again n (retry_after_time (a_now a) (valuedouble J w))
                         in (False, q, n, f @ f'))
                   else (False, [], n, f))
         else if http = 0 \<or> (500 \<le> http \<and> http \<le> 599) \<or> http = 409 then
           (let (q, f) = queue_again n (backoff_time (a_now a) (n_iteration n))
            in (False, q, n\<lparr>n_iteration := n_iteration n + 1\<rparr>, f))
         else (True, [], n, []))"

text \<open>
  The callbacks. The array for several messages is allocated with size 0 and then filled; the
  case falls through to the default, which does nothing.
\<close>

definition finish_calls ::
  "'j json_lib \<Rightarrow> request_callback option \<Rightarrow> 'j option \<Rightarrow> 'j call list \<times> request_fault list" where
  "finish_calls L rc res_json =
     (case rc of
        None \<Rightarrow> ([], [])
      | Some DISCORD_MESSAGE_CALLBACK \<Rightarrow> ([Call_Message res_json], [])
      | Some DISCORD_MULTIPLE_MESSAGE_CALLBACK \<Rightarrow>
          if \<not> is_array L res_json then ([Call_No_Messages], [])
          else (let ms = json_items (access L) res_json
                in (map Cache_Message ms @ [Call_Messages ms], if ms = [] then [] else [Heap_Overflow])))"

text \<open>
  After five attempts nothing is transferred any more, and \<open>response\<close> is tested without having been
  set. The file names are freed at the end of every run, also when the node is queued again.
\<close>

definition request_t_pool :: "'j json_lib \<Rightarrow> bool \<Rightarrow> attempt \<Rightarrow> request_work_node \<Rightarrow> 'j run" where
  "request_t_pool L dbg a n0 =
     (let (f1, req) = build_request n0;
          (sent, response, (sent_message, queued, n, f2)) =
            (if 5 \<le> n_iteration n0 then ([], None, (True, [], n0, [Uninitialised]))
             else (let response = fold write_data (a_pieces a) None
                   in ([req], response, handle_http L dbg a response (n0\<lparr>n_res := a_res a, n_http := a_http a\<rparr>))));
          f3 = (if n_files n \<noteq> [] \<and> \<not> n_files_live n then [Use_After_Free] else []);
          n' = (if n_files n \<noteq> [] then n\<lparr>n_files_live := False\<rparr> else n)
      in if \<not> sent_message
         then \<lparr>r_faults = f1 @ f2 @ f3, r_sent = sent, r_queued = queued, r_calls = [], r_node = Some n'\<rparr>
         else (let res_json = (case response of None \<Rightarrow> None | Some s \<Rightarrow> parse_json L s);
                   (calls, f4) = finish_calls L (n_rc n) res_json
               in \<lparr>r_faults = f1 @ f2 @ f3 @ f4, r_sent = sent, r_queued = queued, r_calls = calls, r_node = None\<rparr>))"

section \<open>A request and its runs\<close>

text \<open>\<open>request\<close>: the node it queues for the time 0; a NULL bot is dereferenced.\<close>

definition request ::
  "string \<Rightarrow> string option \<Rightarrow> request_type \<Rightarrow> string \<Rightarrow> bool \<Rightarrow> request_callback option \<Rightarrow> string list \<Rightarrow>
   (request_work_node \<times> timeval) option" where
  "request url content ty token has_bot rc files =
     (if \<not> has_bot then None
      else Some (\<lparr>n_url = strndup url 2050, n_json = content, n_request_type = ty, n_token = strndup token 200,
                  n_rc = rc, n_bot = has_bot, n_iteration = 0, n_http = 0, n_res = 0, n_files = files,
                  n_files_live = True\<rparr>, \<lparr>tv_sec = 0, tv_usec = 0\<rparr>))"

text \<open>The runs of a node: while it is queued again, the next attempt follows.\<close>

fun request_runs :: "'j json_lib \<Rightarrow> bool \<Rightarrow> attempt list \<Rightarrow> request_work_node \<Rightarrow> 'j run" where
  "request_runs L dbg [] n = \<lparr>r_faults = [], r_sent = [], r_queued = [], r_calls = [], r_node = Some n\<rparr>"
| "request_runs L dbg (a # as) n =
     (let r = request_t_pool L dbg a n
      in case (r_node r, r_queued r) of
           (Some n', _ # _) \<Rightarrow>
             (let r' = request_runs L dbg as n'
              in r'\<lparr>r_faults := r_faults r @ r_faults r', r_sent := r_sent r @ r_sent r',
                    r_queued := r_queued r @ r_queued r', r_calls := r_calls r @ r_calls r'\<rparr>)
         | _ \<Rightarrow> r)"

section \<open>What the runs do\<close>

definition plain_node :: "request_work_node \<Rightarrow> bool" where
  "plain_node n \<longleftrightarrow> n_files n = [] \<and> n_bot n \<and> length (n_token n) \<le> 80"

definition server_error :: "attempt \<Rightarrow> bool" where
  "server_error a \<longleftrightarrow> a_http a = 0 \<or> (500 \<le> a_http a \<and> a_http a \<le> 599) \<or> a_http a = 409"

definition success :: "attempt \<Rightarrow> bool" where
  "success a \<longleftrightarrow> 200 \<le> a_http a \<and> a_http a \<le> 299"

definition after_error :: "attempt \<Rightarrow> request_work_node \<Rightarrow> request_work_node" where
  "after_error a n = n\<lparr>n_res := a_res a, n_http := a_http a, n_iteration := n_iteration n + 1\<rparr>"

definition response_json :: "'j json_lib \<Rightarrow> attempt \<Rightarrow> 'j option" where
  "response_json L a = (case fold write_data (a_pieces a) None of None \<Rightarrow> None | Some s \<Rightarrow> parse_json L s)"

lemma fold_write_data: "fold write_data ps (Some s) = Some (s @ concat ps)"
  by (induction ps arbitrary: s) (simp_all add: write_data_def)

text \<open>The response is the pieces one after the other, or NULL when nothing was received.\<close>

lemma response_json_pieces:
  "response_json L a = (if a_pieces a = [] then None else parse_json L (concat (a_pieces a)))"
  by (cases "a_pieces a") (simp_all add: response_json_def fold_write_data write_data_def)

lemma build_request_plain:
  "plain_node n \<Longrightarrow> fst (build_request n) = []"
  by (simp add: plain_node_def build_request_def d_curl_setup_discord_header_def authorization_faults_def
      authorization_header_def)

lemma build_request_same [simp]:
  "build_request (n\<lparr>n_res := r, n_http := h, n_iteration := i\<rparr>) = build_request n"
  "build_request (n\<lparr>n_res := r, n_http := h\<rparr>) = build_request n"
  by (simp_all add: build_request_def d_curl_setup_discord_header_files_def)

lemma after_error_simps [simp]:
  "plain_node (after_error a n) = plain_node n" "build_request (after_error a n) = build_request n"
  "n_iteration (after_error a n) = Suc (n_iteration n)" "n_rc (after_error a n) = n_rc n"
  by (simp_all add: after_error_def plain_node_def)

lemma handle_server_error:
  assumes "server_error a" and "n_bot n"
  shows "handle_http L dbg a response n =
    (False, [backoff_time (a_now a) (n_iteration n)], n\<lparr>n_iteration := n_iteration n + 1\<rparr>, [])"
  using assms unfolding server_error_def by (elim disjE) (simp_all add: handle_http_def queue_again_def Let_def)

lemma handle_success: "success a \<Longrightarrow> handle_http L dbg a response n = (True, [], n, [])"
  by (simp add: success_def handle_http_def Let_def)

lemma run_server_error:
  assumes "plain_node n" and "n_iteration n < 5" and "server_error a"
  shows "request_t_pool L dbg a n =
    \<lparr>r_faults = [], r_sent = [snd (build_request n)], r_queued = [backoff_time (a_now a) (n_iteration n)],
     r_calls = [], r_node = Some (after_error a n)\<rparr>"
proof -
  obtain req where b: "build_request n = ([], req)"
    using build_request_plain [OF assms(1)] by (cases "build_request n") simp
  show ?thesis
    using assms
    by (simp add: request_t_pool_def Let_def b plain_node_def after_error_def handle_server_error)
qed

lemma run_success:
  assumes "plain_node n" and "n_iteration n < 5" and "success a"
  shows "request_t_pool L dbg a n =
    \<lparr>r_faults = snd (finish_calls L (n_rc n) (response_json L a)), r_sent = [snd (build_request n)],
     r_queued = [], r_calls = fst (finish_calls L (n_rc n) (response_json L a)), r_node = None\<rparr>"
proof -
  obtain req where b: "build_request n = ([], req)"
    using build_request_plain [OF assms(1)] by (cases "build_request n") simp
  show ?thesis
    using assms
    by (simp add: request_t_pool_def Let_def b plain_node_def handle_success response_json_def
        case_prod_unfold)
qed

lemma run_given_up:
  assumes "plain_node n" and "5 \<le> n_iteration n"
  shows "request_t_pool L dbg a n =
    \<lparr>r_faults = Uninitialised # snd (finish_calls L (n_rc n) None), r_sent = [],
     r_queued = [], r_calls = fst (finish_calls L (n_rc n) None), r_node = None\<rparr>"
proof -
  obtain req where b: "build_request n = ([], req)"
    using build_request_plain [OF assms(1)] by (cases "build_request n") simp
  show ?thesis
    using assms by (simp add: request_t_pool_def Let_def b plain_node_def case_prod_unfold)
qed

definition backoffs :: "attempt list \<Rightarrow> nat \<Rightarrow> timeval list" where
  "backoffs errs i = map (\<lambda>(k, a). backoff_time (a_now a) k) (enumerate i errs)"

lemma backoffs_Cons [simp]: "backoffs (a # as) i = backoff_time (a_now a) i # backoffs as (Suc i)"
  and backoffs_Nil [simp]: "backoffs [] i = []"
  by (simp_all add: backoffs_def)

lemma runs_after_errors:
  assumes "plain_node n" and "list_all server_error errs" and "n_iteration n + length errs \<le> 5"
  shows "\<exists>n'. plain_node n' \<and> build_request n' = build_request n \<and> n_rc n' = n_rc n \<and>
    n_iteration n' = n_iteration n + length errs \<and>
    request_runs L dbg (errs @ as) n =
      (let r = request_runs L dbg as n'
       in r\<lparr>r_sent := replicate (length errs) (snd (build_request n)) @ r_sent r,
            r_queued := backoffs errs (n_iteration n) @ r_queued r\<rparr>)"
  using assms
proof (induction errs arbitrary: n)
  case Nil
  then show ?case by (intro exI [of _ n]) (simp add: Let_def)
next
  case (Cons a errs)
  have r: "request_t_pool L dbg a n = \<lparr>r_faults = [], r_sent = [snd (build_request n)],
      r_queued = [backoff_time (a_now a) (n_iteration n)], r_calls = [], r_node = Some (after_error a n)\<rparr>"
    by (rule run_server_error) (use Cons.prems in auto)
  from Cons.IH [of "after_error a n"] Cons.prems obtain n' where
    "plain_node n' \<and> build_request n' = build_request n \<and> n_rc n' = n_rc n \<and>
     n_iteration n' = Suc (n_iteration n) + length errs \<and>
     request_runs L dbg (errs @ as) (after_error a n) =
      (let r = request_runs L dbg as n'
       in r\<lparr>r_sent := replicate (length errs) (snd (build_request n)) @ r_sent r,
            r_queued := backoffs errs (Suc (n_iteration n)) @ r_queued r\<rparr>)" by auto
  with r show ?case by (intro exI [of _ n']) (simp add: Let_def)
qed


definition small_lib :: "jval json_lib" where
  "small_lib = \<lparr>parse_json = (\<lambda>s. if s = ''{}'' then Some (JObj [])
       else if s = ''[{}]'' then Some (JArr [JObj []])
       else if s = ''wait'' then Some (JObj [(''retry_after'', JNum (3 / 2))]) else None),
     is_array = (\<lambda>d. case d of Some (JArr _) \<Rightarrow> True | _ \<Rightarrow> False),
     is_object = (\<lambda>d. case d of Some (JObj _) \<Rightarrow> True | _ \<Rightarrow> False),
     item_cs = get_object_item small_json, access = small_json\<rparr>"

definition sample_node :: "request_callback \<Rightarrow> string list \<Rightarrow> request_work_node" where
  "sample_node rc files = \<lparr>n_url = ''u'', n_json = Some ''{}'', n_request_type = REQUEST_POST, n_token = ''t'',
     n_rc = Some rc, n_bot = True, n_iteration = 0, n_http = 0, n_res = 0, n_files = files, n_files_live = True\<rparr>"

definition sample_attempt :: "string list \<Rightarrow> int \<Rightarrow> attempt" where
  "sample_attempt pieces http = \<lparr>a_pieces = pieces, a_http = http, a_res = 0, a_now = secs 100\<rparr>"




lemma floor_of_millionths:
  fixes w :: rat and k q r :: int
  assumes "of_int k \<le> w * 1000000" and "w * 1000000 < of_int k + 1"
    and "k = q * 1000000 + r" and "0 \<le> r" and "r \<le> 999999"
  shows "\<lfloor>w\<rfloor> = q"
proof (rule floor_unique)
  have k: "(of_int k :: rat) = of_int q * 1000000 + of_int r" using assms(3) by simp
  have r: "0 \<le> (of_int r :: rat)" "(of_int r :: rat) \<le> 999999"
    using assms(4,5) of_int_le_iff [of r 999999] by (simp, metis of_int_numeral)
  show "of_int q \<le> w" using assms(1) r(1) unfolding k by linarith
  show "w < of_int q + 1" using assms(2) r(2) unfolding k by linarith
qed

lemma floor_div_million: "\<lfloor>w * 1000000\<rfloor> div 1000000 = \<lfloor>w :: rat\<rfloor>"
  by (rule floor_of_millionths [symmetric, where k = "\<lfloor>w * 1000000\<rfloor>" and r = "\<lfloor>w * 1000000\<rfloor> mod 1000000"])
    (use floor_correct [of "w * 1000000"] in simp_all)



text \<open>The wait that a rate-limit answer announces.\<close>

definition retry_wait :: "'j json_lib \<Rightarrow> attempt \<Rightarrow> rat option" where
  "retry_wait L a =
     (if a_http a \<noteq> 429 then None
      else case get_object_item (access L) (response_json L a) ''retry_after'' of
             None \<Rightarrow> None
           | Some w \<Rightarrow> if is_number (access L) (Some w) then Some (valuedouble (access L) w) else None)"

lemma run_rate_limited:
  assumes "plain_node n" and "n_iteration n < 5" and "retry_wait L a = Some w"
  shows "request_t_pool L dbg a n =
    \<lparr>r_faults = [], r_sent = [snd (build_request n)], r_queued = [retry_after_time (a_now a) w],
     r_calls = [], r_node = Some (n\<lparr>n_res := a_res a, n_http := a_http a\<rparr>)\<rparr>"
proof -
  obtain req where b: "build_request n = ([], req)"
    using build_request_plain [OF assms(1)] by (cases "build_request n") simp
  from assms(3) obtain v where v: "a_http a = 429"
      "get_object_item (access L) (response_json L a) ''retry_after'' = Some v"
      "is_number (access L) (Some v)" "valuedouble (access L) v = w"
    by (auto simp: retry_wait_def split: if_splits option.splits)
  have h: "handle_http L dbg a (fold write_data (a_pieces a) None) m =
      (False, [retry_after_time (a_now a) w], m, [])" if "n_bot m" for m
    using v(2-4) that unfolding handle_http_def Let_def v(1) response_json_def [symmetric]
    by (simp add: queue_again_def)
  show ?thesis
    using assms(1,2) by (simp add: request_t_pool_def Let_def b plain_node_def h)
qed

text \<open>C16. Rate-limit answers never use up the five attempts: after any number of them the request is
  still pending with its count unchanged, was sent once for each and has called nothing.\<close>

theorem rate_limits_do_not_count:
  assumes "plain_node n" and "n_iteration n < 5" and "list_all (\<lambda>a. retry_wait L a \<noteq> None) as"
  shows "r_calls (request_runs L dbg as n) = [] \<and> r_faults (request_runs L dbg as n) = [] \<and>
    r_sent (request_runs L dbg as n) = replicate (length as) (snd (build_request n)) \<and>
    r_queued (request_runs L dbg as n) = map (\<lambda>a. retry_after_time (a_now a) (the (retry_wait L a))) as \<and>
    (\<exists>n'. r_node (request_runs L dbg as n) = Some n' \<and> n_iteration n' = n_iteration n)"
  using assms
proof (induction as arbitrary: n)
  case (Cons a as)
  from Cons.prems(3) obtain w where w: "retry_wait L a = Some w" by auto
  let ?n = "n\<lparr>n_res := a_res a, n_http := a_http a\<rparr>"
  have "plain_node ?n" using Cons.prems(1) by (simp add: plain_node_def)
  with Cons.IH [of ?n] Cons.prems show ?case
    by (simp add: run_rate_limited [OF Cons.prems(1,2) w] w Let_def)
qed simp

theorem rate_limits_do_not_count_witness:
  "r_queued (request_runs small_lib False (replicate 7 (sample_attempt [''wait''] 429))
      (sample_node DISCORD_MESSAGE_CALLBACK [])) =
    replicate 7 (retry_after_time (secs 100) (3 / 2))"
proof -
  have w: "retry_wait small_lib (sample_attempt [''wait''] 429) = Some (3 / 2)"
    by (simp add: retry_wait_def sample_attempt_def response_json_pieces small_lib_def)
      (simp add: small_json_def)
  have n: "plain_node (sample_node DISCORD_MESSAGE_CALLBACK [])"
    "n_iteration (sample_node DISCORD_MESSAGE_CALLBACK []) < 5"
    by (simp_all add: plain_node_def sample_node_def)
  have l: "list_all (\<lambda>a. retry_wait small_lib a \<noteq> None) (replicate 7 (sample_attempt [''wait''] 429))"
    by (simp add: list_all_length w del: not_None_eq)
  show ?thesis
    using rate_limits_do_not_count [OF n l]
    by (simp add: w map_replicate_const) (simp add: sample_attempt_def)
qed

text \<open>The names of the files of a request are freed after its first run: when that run met a
  server error, the next run uses and frees them again.\<close>

theorem request_files_used_after_free:
  assumes "n_files n \<noteq> []" and "n_bot n" and "n_iteration n < 5" and "server_error a"
  shows "Use_After_Free \<in> set (r_faults (request_runs L dbg (a # b # as) n))"
proof -
  let ?m = "(after_error a n)\<lparr>n_files_live := False\<rparr>"
  obtain f1 req where b: "build_request n = (f1, req)" by (cases "build_request n")
  have r: "request_t_pool L dbg a n = \<lparr>r_faults = f1 @ (if n_files_live n then [] else [Use_After_Free]),
      r_sent = [req], r_queued = [backoff_time (a_now a) (n_iteration n)], r_calls = [], r_node = Some ?m\<rparr>"
    using assms by (simp add: request_t_pool_def Let_def b after_error_def handle_server_error)
  have f: "Use_After_Free \<in> set (fst (build_request ?m))"
    using assms(1) by (simp add: build_request_def d_curl_setup_discord_header_files_def Let_def after_error_def)
  have "Use_After_Free \<in> set (r_faults (request_t_pool L dbg b ?m))"
    using f by (simp add: request_t_pool_def Let_def case_prod_unfold)
  then show ?thesis
    by (simp add: r Let_def split: option.split list.split)
qed

theorem request_files_used_after_free_witness:
  "Use_After_Free \<in> set (r_faults (request_runs small_lib False [sample_attempt [] 503, sample_attempt [] 200]
      (sample_node DISCORD_MESSAGE_CALLBACK [''a.png''])))"
  by (rule request_files_used_after_free) (simp_all add: sample_node_def sample_attempt_def server_error_def)

end
