(* ===== verification/Event.thy ===== *)
theory Event
  imports Message_Memory Cache
begin

text \<open>
  The events of the gateway (\<open>event.c\<close>). The state of the bot that the handlers touch is the memory of
  its structures, the caches, the user and the session: the handlers run in the state monad over it.
  A cache holds addresses; a block of memory has the address \<open>block_addr\<close>, and \<open>ev_message\<close> and
  \<open>ev_channel\<close> tell which structure is at an address. The callbacks of the application are recorded
  in the order they are called; what they do with the copies they are given is up to them. The
  caches destroy what they evict with the default callback, as \<open>discord_start_bot\<close> sets them up.
\<close>

section \<open>The bot\<close>

datatype bot_call =
    On_Ready
  | On_Message "discord_message ptr"
  | On_Message_Edit "discord_message ptr" "discord_message ptr"
  | On_Message_Delete u64 u64 u64 "discord_message ptr"
  | On_Channel_Create "discord_channel ptr"
  | On_Channel_Update "discord_channel ptr" "discord_channel ptr"
  | On_Channel_Delete u64 u64 u64 int "discord_channel ptr"
  | On_Interaction_Create "discord_interaction ptr"

text \<open>Which callbacks the application has set.\<close>

record discord_event_callbacks =
  on_ready :: bool
  on_message :: bool
  on_message_edit :: bool
  on_message_delete :: bool
  on_channel_create :: bool
  on_channel_update :: bool
  on_channel_delete :: bool
  on_interaction_create :: bool

record 'm bot_state =
  ev_mem :: mem
  ev_caches :: "'m caches"
  ev_message :: "addr \<Rightarrow> discord_message ptr"
  ev_channel :: "addr \<Rightarrow> discord_channel ptr"
  ev_user :: "discord_user ptr"
  ev_session_id :: "string ptr"
  ev_calls :: "bot_call list"

text \<open>\<open>malloc\<close> aligns to 16 bytes, and no block is at address 0.\<close>

definition block_addr :: "nat \<Rightarrow> addr" where
  "block_addr b = word_of_nat (16 * (b + 1))"

definition ptr_addr :: "'a ptr \<Rightarrow> addr" where
  "ptr_addr p = (case p of Nul \<Rightarrow> NULL | Ptr b _ \<Rightarrow> block_addr b)"

definition in_memory :: "(mem, 'a) state \<Rightarrow> ('m bot_state, 'a) state" where
  "in_memory c = State (\<lambda>s. case run_state c (ev_mem s) of (y, m) \<Rightarrow> (y, s\<lparr>ev_mem := m\<rparr>))"

definition call :: "bot_call \<Rightarrow> ('m bot_state, unit) state" where
  "call c = State (\<lambda>s. ((), s\<lparr>ev_calls := ev_calls s @ [c]\<rparr>))"

section \<open>The caches as the handlers use them\<close>

text \<open>What the cache has handed to the destroy callback is destroyed.\<close>

fun destroy_evicted ::
  "(addr \<Rightarrow> discord_message ptr) \<Rightarrow> (addr \<Rightarrow> discord_channel ptr) \<Rightarrow> (cache_type \<times> addr) list \<Rightarrow> (mem, unit) state" where
  "destroy_evicted msgs chans [] = State_Monad.return ()"
| "destroy_evicted msgs chans ((ty, d) # ds) = do {
     _ \<leftarrow> (case ty of
            DISCO_MESSAGE_CACHE \<Rightarrow> destroy_message (msgs d)
          | DISCO_CHANNEL_CACHE \<Rightarrow> destroy_channel (chans d)
          | DISCO_GUILD_CACHE \<Rightarrow> State_Monad.return ());
     destroy_evicted msgs chans ds }"

text \<open>
  \<open>discord_cache_set\<close> of a structure with the given address and ID; the node takes a block.
\<close>

definition cache_set :: "'m hashmap_api \<Rightarrow> cache_type \<Rightarrow> addr \<Rightarrow> u64 \<Rightarrow> ('m bot_state, unit) state" where
  "cache_set H ty d i = do {
     n \<leftarrow> in_memory fresh_blk;
     State (\<lambda>s.
       let c = get_cache ty (ev_caches s);
           cs = put_cache ty (c\<lparr>c_objs := (c_objs c)(d \<mapsto> i)\<rparr>) (ev_caches s)
       in case discord_cache_set H ty d (block_addr n) cs of
            None \<Rightarrow> run_state (in_memory fault) s
          | Some (_, cs') \<Rightarrow>
              run_state (in_memory (destroy_evicted (ev_message s) (ev_channel s)
                (drop (length (destroyed cs)) (destroyed cs')))) (s\<lparr>ev_caches := cs'\<rparr>)) }"

definition message_id :: "discord_message ptr \<Rightarrow> u64" where
  "message_id p = (case p of Ptr _ (Message x _ _) \<Rightarrow> ms_id x | _ \<Rightarrow> 0)"

definition channel_id :: "discord_channel ptr \<Rightarrow> u64" where
  "channel_id p = (case p of Ptr _ x \<Rightarrow> ch_id x | _ \<Rightarrow> 0)"

definition discord_cache_set_message :: "'m hashmap_api \<Rightarrow> discord_message ptr \<Rightarrow> ('m bot_state, unit) state" where
  "discord_cache_set_message H p =
     (if p = Nul then in_memory fault
      else do {
        _ \<leftarrow> State (\<lambda>s. ((), s\<lparr>ev_message := (ev_message s)(ptr_addr p := p)\<rparr>));
        cache_set H DISCO_MESSAGE_CACHE (ptr_addr p) (message_id p) })"

definition discord_cache_set_channel :: "'m hashmap_api \<Rightarrow> discord_channel ptr \<Rightarrow> ('m bot_state, unit) state" where
  "discord_cache_set_channel H p =
     (if p = Nul then in_memory fault
      else do {
        _ \<leftarrow> State (\<lambda>s. ((), s\<lparr>ev_channel := (ev_channel s)(ptr_addr p := p)\<rparr>));
        cache_set H DISCO_CHANNEL_CACHE (ptr_addr p) (channel_id p) })"

definition cache_get :: "'m hashmap_api \<Rightarrow> cache_type \<Rightarrow> u64 \<Rightarrow> ('m bot_state, addr) state" where
  "cache_get H ty i = State (\<lambda>s.
     case discord_cache_get H ty i (ev_caches s) of
       None \<Rightarrow> (NULL, snd (run_state (in_memory fault) s))
     | Some (d, cs) \<Rightarrow> (d, s\<lparr>ev_caches := cs\<rparr>))"

definition discord_cache_get_message :: "'m hashmap_api \<Rightarrow> u64 \<Rightarrow> ('m bot_state, discord_message ptr) state" where
  "discord_cache_get_message H i = do {
     d \<leftarrow> cache_get H DISCO_MESSAGE_CACHE i;
     State (\<lambda>s. (if d = NULL then Nul else ev_message s d, s)) }"

definition discord_cache_get_channel :: "'m hashmap_api \<Rightarrow> u64 \<Rightarrow> ('m bot_state, discord_channel ptr) state" where
  "discord_cache_get_channel H i = do {
     d \<leftarrow> cache_get H DISCO_CHANNEL_CACHE i;
     State (\<lambda>s. (if d = NULL then Nul else ev_channel s d, s)) }"

definition cache_delete :: "'m hashmap_api \<Rightarrow> cache_type \<Rightarrow> u64 \<Rightarrow> ('m bot_state, unit) state" where
  "cache_delete H ty i = State (\<lambda>s.
     case discord_cache_delete H ty i (ev_caches s) of
       None \<Rightarrow> run_state (in_memory fault) s
     | Some cs' \<Rightarrow>
         run_state (in_memory (destroy_evicted (ev_message s) (ev_channel s)
           (drop (length (destroyed (ev_caches s))) (destroyed cs')))) (s\<lparr>ev_caches := cs'\<rparr>))"

definition discord_cache_delete_message :: "'m hashmap_api \<Rightarrow> u64 \<Rightarrow> ('m bot_state, unit) state" where
  "discord_cache_delete_message H i = cache_delete H DISCO_MESSAGE_CACHE i"

definition discord_cache_delete_channel :: "'m hashmap_api \<Rightarrow> u64 \<Rightarrow> ('m bot_state, unit) state" where
  "discord_cache_delete_channel H i = cache_delete H DISCO_CHANNEL_CACHE i"

text \<open>A guild, of which the library never makes one, by its address and ID.\<close>

definition discord_cache_set_guild :: "'m hashmap_api \<Rightarrow> addr \<Rightarrow> u64 \<Rightarrow> ('m bot_state, unit) state" where
  "discord_cache_set_guild H d i = (if d = NULL then in_memory fault else cache_set H DISCO_GUILD_CACHE d i)"

definition discord_cache_get_guild :: "'m hashmap_api \<Rightarrow> u64 \<Rightarrow> ('m bot_state, addr) state" where
  "discord_cache_get_guild H i = cache_get H DISCO_GUILD_CACHE i"

definition discord_cache_delete_guild :: "'m hashmap_api \<Rightarrow> u64 \<Rightarrow> ('m bot_state, unit) state" where
  "discord_cache_delete_guild H i = cache_delete H DISCO_GUILD_CACHE i"

section \<open>The handlers\<close>

text \<open>\<open>cJSON_GetStringValue(cJSON_GetObjectItem(data, name))\<close> read with \<open>strtoull\<close>, or 0.\<close>

definition id_from_string :: "'j cjson \<Rightarrow> 'j option \<Rightarrow> string \<Rightarrow> u64" where
  "id_from_string J data name =
     (case get_object_item J data name of
        None \<Rightarrow> 0
      | Some f \<Rightarrow>
          if \<not> is_string J (Some f) then 0
          else case valuestring J f of None \<Rightarrow> 0 | Some s \<Rightarrow> strtoull10 s)"

definition handle_ready :: "'j cjson \<Rightarrow> bool \<Rightarrow> 'j option \<Rightarrow> ('m bot_state, unit) state" where
  "handle_ready J callback data = do {
     _ \<leftarrow> (case get_object_item J data ''user'' of
            None \<Rightarrow> State_Monad.return ()
          | Some user_data \<Rightarrow> do {
              old \<leftarrow> State (\<lambda>s. (ev_user s, s));
              _ \<leftarrow> in_memory (when_ptr destroy_user old);
              user \<leftarrow> in_memory (json_to_user J (Some user_data));
              State (\<lambda>s. ((), s\<lparr>ev_user := user\<rparr>)) });
     _ \<leftarrow> (case get_object_item J data ''session_id'' of
            None \<Rightarrow> State_Monad.return ()
          | Some f \<Rightarrow>
              (case valuestring J f of
                 None \<Rightarrow> in_memory fault
               | Some v \<Rightarrow> do {
                   b \<leftarrow> in_memory fresh_blk;
                   State (\<lambda>s. ((), s\<lparr>ev_session_id := Ptr b (strndup v 100)\<rparr>)) }));
     (if callback then call On_Ready else State_Monad.return ()) }"

definition handle_channel_create :: "'m hashmap_api \<Rightarrow> 'j cjson \<Rightarrow> 'j option \<Rightarrow> ('m bot_state, unit) state" where
  "handle_channel_create H J data = do {
     channel \<leftarrow> in_memory (json_to_channel J data);
     copy \<leftarrow> in_memory (copy_channel channel);
     _ \<leftarrow> discord_cache_set_channel H channel;
     call (On_Channel_Create copy) }"

definition handle_channel_update :: "'m hashmap_api \<Rightarrow> 'j cjson \<Rightarrow> 'j option \<Rightarrow> ('m bot_state, unit) state" where
  "handle_channel_update H J data = do {
     channel \<leftarrow> in_memory (json_to_channel J data);
     cached \<leftarrow> discord_cache_get_channel H (channel_id channel);
     old \<leftarrow> in_memory (copy_channel cached);
     new \<leftarrow> in_memory (copy_channel channel);
     _ \<leftarrow> discord_cache_set_channel H channel;
     call (On_Channel_Update old new) }"

definition handle_channel_delete :: "'m hashmap_api \<Rightarrow> 'j cjson \<Rightarrow> 'j option \<Rightarrow> ('m bot_state, unit) state" where
  "handle_channel_delete H J data = do {
     let del_id = id_from_string J data ''id'';
     let del_parent_id = id_from_string J data ''parent_id'';
     let del_guild_id = id_from_string J data ''guild_id'';
     type1 \<leftarrow> (case get_object_item J data ''type'' of
               None \<Rightarrow> do { _ \<leftarrow> in_memory fault; State_Monad.return 0 }
             | Some c \<Rightarrow> State_Monad.return (valueint J c));
     old \<leftarrow> (if del_id \<noteq> 0
             then do { cached \<leftarrow> discord_cache_get_channel H del_id; in_memory (copy_channel cached) }
             else State_Monad.return Nul);
     call (On_Channel_Delete del_id del_guild_id del_parent_id type1 old) }"

definition handle_message_create :: "'m hashmap_api \<Rightarrow> 'j cjson \<Rightarrow> 'j option \<Rightarrow> ('m bot_state, unit) state" where
  "handle_message_create H J data = do {
     message \<leftarrow> in_memory (json_to_message J nesting_limit data);
     copy \<leftarrow> in_memory (copy_message message);
     _ \<leftarrow> discord_cache_set_message H message;
     call (On_Message copy) }"

definition handle_message_update :: "'m hashmap_api \<Rightarrow> 'j cjson \<Rightarrow> 'j option \<Rightarrow> ('m bot_state, unit) state" where
  "handle_message_update H J data = do {
     message \<leftarrow> in_memory (json_to_message J nesting_limit data);
     cached \<leftarrow> discord_cache_get_message H (message_id message);
     old \<leftarrow> in_memory (copy_message cached);
     new \<leftarrow> in_memory (copy_message message);
     _ \<leftarrow> discord_cache_set_message H message;
     call (On_Message_Edit old new) }"

definition handle_message_delete :: "'m hashmap_api \<Rightarrow> 'j cjson \<Rightarrow> 'j option \<Rightarrow> ('m bot_state, unit) state" where
  "handle_message_delete H J data = do {
     let del_id = id_from_string J data ''id'';
     let del_channel_id = id_from_string J data ''channel_id'';
     let del_guild_id = id_from_string J data ''guild_id'';
     old \<leftarrow> (if del_id \<noteq> 0
             then do { cached \<leftarrow> discord_cache_get_message H del_id; in_memory (copy_message cached) }
             else State_Monad.return Nul);
     call (On_Message_Delete del_id del_channel_id del_guild_id old) }"

definition handle_interaction_create :: "'j cjson \<Rightarrow> 'j option \<Rightarrow> ('m bot_state, unit) state" where
  "handle_interaction_create J data = do {
     interaction1 \<leftarrow> in_memory (json_to_interaction J nesting_limit data);
     call (On_Interaction_Create interaction1) }"

section \<open>Dispatch\<close>

datatype handler = Handle_Ready | Handle_Channel_Create | Handle_Channel_Update | Handle_Channel_Delete
  | Handle_Message_Create | Handle_Message_Update | Handle_Message_Delete | Handle_Interaction_Create
  | Handle_Nothing

text \<open>The chain of \<open>strncmp\<close> tests, with the lengths the code passes.\<close>

definition event_table :: "(string \<times> nat \<times> handler) list" where
  "event_table =
     [(''READY'', 6, Handle_Ready), (''RESUMED'', 8, Handle_Nothing),
      (''RECONNECT'', 10, Handle_Nothing), (''INVALID_SESSION'', 16, Handle_Nothing),
      (''APPLICATION_COMMAND_PERMISSIONS_UPDATE'', 39, Handle_Nothing),
      (''CHANNEL_CREATE'', 15, Handle_Channel_Create), (''CHANNEL_UPDATE'', 15, Handle_Channel_Update),
      (''CHANNEL_DELETE'', 15, Handle_Channel_Delete), (''CHANNEL_PINS_UPDATE'', 20, Handle_Nothing),
      (''THREAD_CREATE'', 14, Handle_Nothing), (''THREAD_UPDATE'', 14, Handle_Nothing),
      (''THREAD_DELETE'', 14, Handle_Nothing), (''THREAD_LIST_SYNC'', 17, Handle_Nothing),
      (''THREAD_MEMBER_UPDATE'', 21, Handle_Nothing), (''THREAD_MEMBERS_UPDATE'', 22, Handle_Nothing),
      (''GUILD_CREATE'', 13, Handle_Nothing), (''GUILD_UPDATE'', 13, Handle_Nothing),
      (''GUILD_DELETE'', 13, Handle_Nothing), (''GUILD_BAN_ADD'', 14, Handle_Nothing),
      (''GUILD_BAN_REMOVE'', 17, Handle_Nothing), (''GUILD_EMOJIS_UPDATE'', 20, Handle_Nothing),
      (''GUILD_STICKERS_UPDATE'', 22, Handle_Nothing),
      (''GUILD_INTEGRATIONS_UPDATE'', 26, Handle_Nothing), (''GUILD_MEMBER_ADD'', 17, Handle_Nothing),
      (''GUILD_MEMBER_REMOVE'', 20, Handle_Nothing), (''GUILD_MEMBER_UPDATE'', 20, Handle_Nothing),
      (''GUILD_MEMBERS_CHUNK'', 20, Handle_Nothing), (''GUILD_ROLE_CREATE'', 18, Handle_Nothing),
      (''GUILD_ROLE_UPDATE'', 18, Handle_Nothing), (''GUILD_ROLE_DELETE'', 18, Handle_Nothing),
      (''GUILD_SCHEDULED_EVENT_CREATE'', 29, Handle_Nothing),
      (''GUILD_SCHEDULED_EVENT_UPDATE'', 29, Handle_Nothing),
      (''GUILD_SCHEDULED_EVENT_DELETE'', 29, Handle_Nothing),
      (''GUILD_SCHEDULED_EVENT_USER_ADD'', 31, Handle_Nothing),
      (''GUILD_SCHEDULED_EVENT_USER_REMOVE'', 34, Handle_Nothing),
      (''INTEGRATION_CREATE'', 19, Handle_Nothing), (''INTEGRATION_UPDATE'', 19, Handle_Nothing),
      (''INTEGRATION_DELETE'', 19, Handle_Nothing), (''INVITE_CREATE'', 14, Handle_Nothing),
      (''INVITE_DELETE'', 14, Handle_Nothing), (''MESSAGE_CREATE'', 15, Handle_Message_Create),
      (''MESSAGE_UPDATE'', 15, Handle_Message_Update), (''MESSAGE_DELETE'', 15, Handle_Message_Delete),
      (''MESSAGE_DELETE_BULK'', 20, Handle_Nothing), (''MESSAGE_REACTION_ADD'', 21, Handle_Nothing),
      (''MESSAGE_REACTION_REMOVE'', 24, Handle_Nothing),
      (''MESSAGE_REACTION_REMOVE_ALL'', 28, Handle_Nothing),
      (''MESSAGE_REACTION_REMOVE_EMOJI'', 30, Handle_Nothing),
      (''PRESENCE_UPDATE'', 16, Handle_Nothing), (''STAGE_INSTANCE_CREATE'', 22, Handle_Nothing),
      (''STAGE_INSTANCE_DELETE'', 22, Handle_Nothing), (''STAGE_INSTANCE_UPDATE'', 22, Handle_Nothing),
      (''TYPING_START'', 13, Handle_Nothing), (''USER_UPDATE'', 12, Handle_Nothing),
      (''VOICE_STATE_UPDATE'', 19, Handle_Nothing), (''VOICE_SERVER_UPDATE'', 20, Handle_Nothing),
      (''WEBHOOKS_UPDATE'', 16, Handle_Nothing),
      (''INTERACTION_CREATE'', 19, Handle_Interaction_Create)]"

definition find_handler :: "string \<Rightarrow> handler" where
  "find_handler event =
     (case List.find (\<lambda>(name, n, _). strncmp_eq event name n) event_table of
        None \<Rightarrow> Handle_Nothing | Some (_, _, h) \<Rightarrow> h)"

definition event_handle ::
  "'m hashmap_api \<Rightarrow> 'j cjson \<Rightarrow> discord_event_callbacks option \<Rightarrow> 'j option \<Rightarrow> string \<Rightarrow> ('m bot_state, unit) state" where
  "event_handle H J callbacks data event =
     (case callbacks of
        None \<Rightarrow> State_Monad.return ()
      | Some cb \<Rightarrow>
          (case find_handler event of
             Handle_Ready \<Rightarrow> handle_ready J (on_ready cb) data
           | Handle_Channel_Create \<Rightarrow>
               if on_channel_create cb then handle_channel_create H J data else State_Monad.return ()
           | Handle_Channel_Update \<Rightarrow>
               if on_channel_update cb then handle_channel_update H J data else State_Monad.return ()
           | Handle_Channel_Delete \<Rightarrow>
               if on_channel_delete cb then handle_channel_delete H J data else State_Monad.return ()
           | Handle_Message_Create \<Rightarrow>
               if on_message cb then handle_message_create H J data else State_Monad.return ()
           | Handle_Message_Update \<Rightarrow>
               if on_message_edit cb then handle_message_update H J data else State_Monad.return ()
           | Handle_Message_Delete \<Rightarrow>
               if on_message_delete cb then handle_message_delete H J data else State_Monad.return ()
           | Handle_Interaction_Create \<Rightarrow>
               if on_interaction_create cb then handle_interaction_create J data else State_Monad.return ()
           | Handle_Nothing \<Rightarrow> State_Monad.return ()))"

text \<open>Every test compares the whole name, and no name occurs twice.\<close>

lemma event_table_exact:
  "list_all (\<lambda>(name, n, _). n = length name + 1) event_table" "distinct (map fst event_table)"
  by (simp_all add: event_table_def)

end
