(* ===== verification/Websocket.thy ===== *)
theory Websocket
  imports Event
begin

text \<open>
  The web socket (\<open>websocket.c\<close>): the state of the client, its operations and the callback that
  libwebsockets calls. libwebsockets, the threads and the process are not part of the repository: what
  the code asks of them is recorded in the order it is asked (\<open>b_effects\<close>), and when they call the
  code, with what, is up to them. A heartbeat thread is its number and its counter of ticks;
  \<open>pthread_join\<close> returns once the thread has seen a cleared flag and is gone.
\<close>

section \<open>The client and the bot\<close>

datatype effect =
    Create_Context | Destroy_Context | Connect_Client | Write string | Set_Timeout | Cancel_Service
  | On_Writable | On_Receive string | Thread_Create nat | Thread_Join nat | Exit_Process

text \<open>
  The session ID of \<open>struct websocket_client\<close> is \<open>ev_session_id\<close> of the state of the event handlers;
  \<open>ws_context\<close> tells that the context has been created.
\<close>

record websocket_client =
  ws_callbacks :: "unit ptr"
  ws_context :: bool
  ws_content :: "string ptr"
  ws_size :: nat
  ws_connected :: bool
  ws_success_login :: bool
  ws_active :: bool
  ws_heartbeat_active :: bool
  ws_exit :: bool
  ws_heartbeat_thread :: nat
  ws_token :: string

record 'm bot =
  b_state :: "'m bot_state"
  b_client :: websocket_client
  b_threads :: "(nat \<times> u64) list"
  b_next_thread :: nat
  b_seq :: int
  b_interval :: "32 word"
  b_now :: timeval
  b_last_heartbeat :: timeval
  b_latency :: int
  b_sigterm :: bool
  b_exited :: bool
  b_effects :: "effect list"

definition in_bot :: "('m bot_state, 'a) state \<Rightarrow> ('m bot, 'a) state" where
  "in_bot c = State (\<lambda>s. case run_state c (b_state s) of (y, t) \<Rightarrow> (y, s\<lparr>b_state := t\<rparr>))"

abbreviation in_mem :: "(mem, 'a) state \<Rightarrow> ('m bot, 'a) state" where
  "in_mem c \<equiv> in_bot (in_memory c)"

definition client :: "('m bot, websocket_client) state" where
  "client = State (\<lambda>s. (b_client s, s))"

definition set_client :: "(websocket_client \<Rightarrow> websocket_client) \<Rightarrow> ('m bot, unit) state" where
  "set_client f = State (\<lambda>s. ((), s\<lparr>b_client := f (b_client s)\<rparr>))"

definition effect :: "effect \<Rightarrow> ('m bot, unit) state" where
  "effect e = State (\<lambda>s. ((), s\<lparr>b_effects := b_effects s @ [e]\<rparr>))"

section \<open>Threads\<close>

definition pthread_create_heartbeat :: "('m bot, unit) state" where
  "pthread_create_heartbeat = State (\<lambda>s.
     let i = b_next_thread s
     in ((), s\<lparr>b_threads := b_threads s @ [(i, 0)], b_next_thread := i + 1,
               b_client := (b_client s)\<lparr>ws_heartbeat_thread := i\<rparr>,
               b_effects := b_effects s @ [Thread_Create i]\<rparr>))"

definition pthread_join_heartbeat :: "('m bot, unit) state" where
  "pthread_join_heartbeat = State (\<lambda>s.
     let i = ws_heartbeat_thread (b_client s)
     in ((), s\<lparr>b_threads := filter (\<lambda>(j, _). j \<noteq> i) (b_threads s),
               b_effects := b_effects s @ [Thread_Join i]\<rparr>))"

section \<open>Operations\<close>

definition websocket_send :: "string \<Rightarrow> ('m bot, unit) state" where
  "websocket_send data = effect (Write data)"

definition websocket_close :: "('m bot, unit) state" where
  "websocket_close = do {
     c \<leftarrow> client;
     _ \<leftarrow> (if ws_heartbeat_active c
          then do { _ \<leftarrow> set_client (ws_heartbeat_active_update (\<lambda>_. False)); pthread_join_heartbeat }
          else State_Monad.return ());
     _ \<leftarrow> effect Set_Timeout;
     effect Cancel_Service }"

definition websocket_reconnect :: "('m bot, unit) state" where
  "websocket_reconnect = websocket_close"

definition websocket_exit :: "('m bot, unit) state" where
  "websocket_exit = do { _ \<leftarrow> set_client (ws_exit_update (\<lambda>_. True)); websocket_close }"

text \<open>\<open>lws_create_context\<close> may fail; then nothing of the client is set.\<close>

definition websocket_create :: "bool \<Rightarrow> ('m bot, int) state" where
  "websocket_create context_created = do {
     _ \<leftarrow> effect Create_Context;
     if \<not> context_created then State_Monad.return 1
     else do {
       b \<leftarrow> in_mem fresh_blk;
       _ \<leftarrow> set_client (\<lambda>c. c\<lparr>ws_context := True, ws_connected := False, ws_active := True,
              ws_heartbeat_active := False, ws_callbacks := Ptr b (), ws_success_login := False,
              ws_exit := False\<rparr>);
       _ \<leftarrow> in_bot (State (\<lambda>s. ((), s\<lparr>ev_session_id := Nul\<rparr>)));
       State_Monad.return 0 } }"

text \<open>The buffer of one byte replaces the pointer to the one before it.\<close>

definition websocket_connect :: "('m bot, int) state" where
  "websocket_connect = do {
     c \<leftarrow> client;
     _ \<leftarrow> (if ws_context c then State_Monad.return () else in_mem fault);
     _ \<leftarrow> effect Connect_Client;
     b \<leftarrow> in_mem fresh_blk;
     _ \<leftarrow> set_client (\<lambda>c. c\<lparr>ws_content := Ptr b [], ws_size := 0, ws_active := True\<rparr>);
     State_Monad.return 0 }"

section \<open>The callback\<close>

text \<open>
  \<open>user\<close> tells that the user pointer is the bot and not NULL; a received fragment has its bytes and
  whether it is the last of its message, a close by the peer whether it has a body.
\<close>

datatype reason = Protocol_Init | Connection_Error | Established | Closed | Receive string bool
  | Peer_Initiated_Close bool | Writeable | Other_Reason

definition ptr_str :: "string ptr \<Rightarrow> string" where
  "ptr_str p = (case p of Nul \<Rightarrow> [] | Ptr _ s \<Rightarrow> s)"

text \<open>\<open>realloc\<close> to \<open>size + len + 1\<close> bytes and \<open>memcpy\<close> behind the first \<open>size\<close>.\<close>

definition append_content :: "string \<Rightarrow> ('m bot, unit) state" where
  "append_content data = do {
     c \<leftarrow> client;
     _ \<leftarrow> in_mem (free_ptr (ws_content c));
     b \<leftarrow> in_mem fresh_blk;
     set_client (\<lambda>c. c\<lparr>ws_content := Ptr b (take (ws_size c) (ptr_str (ws_content c)) @ data),
                       ws_size := ws_size c + length data\<rparr>) }"

definition websocket_callback ::
  "(string \<Rightarrow> nat \<Rightarrow> ('m bot, unit) state) option \<Rightarrow> bool \<Rightarrow> reason \<Rightarrow> ('m bot, int) state" where
  "websocket_callback on_receive user r =
     (case r of
        Protocol_Init \<Rightarrow> State_Monad.return 0
      | Connection_Error \<Rightarrow>
          if \<not> user then do { _ \<leftarrow> in_mem fault; State_Monad.return 0 }
          else do {
            _ \<leftarrow> set_client (\<lambda>c. c\<lparr>ws_connected := False, ws_active := False\<rparr>);
            _ \<leftarrow> websocket_close;
            _ \<leftarrow> effect Exit_Process;
            State (\<lambda>s. (- 1, s\<lparr>b_exited := True\<rparr>)) }
      | Established \<Rightarrow>
          if \<not> user then do { _ \<leftarrow> in_mem fault; State_Monad.return 0 }
          else do {
            _ \<leftarrow> set_client (ws_connected_update (\<lambda>_. True));
            _ \<leftarrow> effect On_Writable;
            State_Monad.return 0 }
      | Closed \<Rightarrow>
          if \<not> user then do { _ \<leftarrow> in_mem fault; State_Monad.return 0 }
          else do {
            c \<leftarrow> client;
            if ws_success_login c \<and> \<not> ws_exit c
            then do { _ \<leftarrow> websocket_connect; State_Monad.return 0 }
            else do {
              _ \<leftarrow> (if ws_success_login c then State_Monad.return () else set_client (ws_exit_update (\<lambda>_. True)));
              _ \<leftarrow> set_client (ws_active_update (\<lambda>_. False));
              _ \<leftarrow> websocket_close;
              _ \<leftarrow> set_client (\<lambda>c. c\<lparr>ws_connected := False, ws_success_login := False\<rparr>);
              State_Monad.return (- 1) } }
      | Receive data final \<Rightarrow>
          if \<not> user then State_Monad.return 0
          else do {
            _ \<leftarrow> append_content data;
            _ \<leftarrow> (if final
                 then do {
                   c \<leftarrow> client;
                   _ \<leftarrow> (case on_receive of
                          None \<Rightarrow> State_Monad.return ()
                        | Some f \<Rightarrow> do {
                            _ \<leftarrow> effect (On_Receive (ptr_str (ws_content c)));
                            f (ptr_str (ws_content c)) (ws_size c) });
                   _ \<leftarrow> set_client (ws_size_update (\<lambda>_. 0));
                   c' \<leftarrow> client;
                   _ \<leftarrow> in_mem (free_ptr (ws_content c'));
                   set_client (ws_content_update (\<lambda>_. Nul)) }
                 else State_Monad.return ());
            _ \<leftarrow> effect On_Writable;
            State_Monad.return 0 }
      | Peer_Initiated_Close body \<Rightarrow>
          do { _ \<leftarrow> (if body then State_Monad.return () else in_mem fault); State_Monad.return 0 }
      | Writeable \<Rightarrow> State_Monad.return 0
      | Other_Reason \<Rightarrow> State_Monad.return 0)"

text \<open>
  \<open>during\<close> is what libwebsockets calls while it destroys the context. The flag is cleared before it is
  tested, so the thread is never joined here.
\<close>

definition websocket_destroy_client :: "('m bot, unit) state \<Rightarrow> ('m bot, unit) state" where
  "websocket_destroy_client during = do {
     c \<leftarrow> client;
     _ \<leftarrow> (if ws_connected c then effect Set_Timeout else State_Monad.return ());
     _ \<leftarrow> effect Destroy_Context;
     _ \<leftarrow> during;
     _ \<leftarrow> set_client (\<lambda>c. c\<lparr>ws_active := False, ws_heartbeat_active := False\<rparr>);
     c \<leftarrow> client;
     _ \<leftarrow> in_mem (free_ptr (ws_callbacks c));
     _ \<leftarrow> in_mem (free_ptr (ws_content c));
     session \<leftarrow> in_bot (State (\<lambda>s. (ev_session_id s, s)));
     _ \<leftarrow> in_mem (free_ptr session);
     if ws_heartbeat_active c then pthread_join_heartbeat else State_Monad.return () }"

end
