(* ===== verification/Gateway.thy ===== *)
theory Gateway
  imports Websocket
begin

text \<open>
  The gateway (\<open>gateway.c\<close>): what is sent, what is done for each opcode, the heartbeat thread, the
  event loop, and \<open>discord_start_bot\<close> around it. The caches, the JSON library and the callbacks of the
  application are the parameters \<open>H\<close>, \<open>L\<close> and \<open>cb\<close>. \<open>gettimeofday\<close> reads \<open>b_now\<close>.
\<close>

section \<open>Sending\<close>

text \<open>\<open>sprintf\<close> into a buffer of \<open>n\<close> bytes, and what \<open>strnlen\<close> finds of the result.\<close>

definition sprintf_buffer :: "nat \<Rightarrow> string \<Rightarrow> ('m bot, string) state" where
  "sprintf_buffer n s = do {
     _ \<leftarrow> (if n \<le> length s then in_mem fault else State_Monad.return ());
     State_Monad.return (take n s) }"

definition heartbeat_text :: "int \<Rightarrow> string" where
  \<open>heartbeat_text seq =
     (if seq = -1 then ''{"op":1, "d":null}'' else ''{"op":1, "d":'' @ show_int seq @ ''}'')\<close>

definition resume_text :: "string \<Rightarrow> string \<Rightarrow> int \<Rightarrow> string" where
  \<open>resume_text token session_id seq =
     ''{"op":6, "d":{"token":"'' @ token @ ''","session_id":"'' @ session_id @ ''", "seq": '' @ show_int seq @ ''}}''\<close>

definition identify_text :: "string \<Rightarrow> string" where
  \<open>identify_text token =
     ''{"op":2, "d":{"token":"'' @ token @
     ''","intents":513, "properties":{"$os":"linux","$browser":"Disco-C","$device":"Disco-C"}}}''\<close>

definition gateway_send_heartbeat :: "('m bot, unit) state" where
  "gateway_send_heartbeat = do {
     seq \<leftarrow> State (\<lambda>s. (b_seq s, s));
     response \<leftarrow> sprintf_buffer 128 (heartbeat_text seq);
     _ \<leftarrow> websocket_send response;
     State (\<lambda>s. ((), s\<lparr>b_last_heartbeat := b_now s\<rparr>)) }"

definition gateway_handle_identify :: "('m bot, unit) state" where
  "gateway_handle_identify = do {
     _ \<leftarrow> gateway_send_heartbeat;
     c \<leftarrow> client;
     session \<leftarrow> in_bot (State (\<lambda>s. (ev_session_id s, s)));
     seq \<leftarrow> State (\<lambda>s. (b_seq s, s));
     response \<leftarrow> sprintf_buffer 256
       (case session of
          Ptr _ session_id \<Rightarrow> resume_text (ws_token c) session_id seq
        | Nul \<Rightarrow> identify_text (ws_token c));
     _ \<leftarrow> websocket_send response;
     if \<not> ws_heartbeat_active c
     then do { _ \<leftarrow> set_client (ws_heartbeat_active_update (\<lambda>_. True)); pthread_create_heartbeat }
     else State_Monad.return () }"

section \<open>Receiving\<close>

definition DISCORD_DISPATCH :: int where "DISCORD_DISPATCH = 0"
definition DISCORD_HEARTBEAT :: int where "DISCORD_HEARTBEAT = 1"
definition DISCORD_RECONNECT :: int where "DISCORD_RECONNECT = 7"
definition DISCORD_INVALID_SESSION :: int where "DISCORD_INVALID_SESSION = 9"
definition DISCORD_HELLO :: int where "DISCORD_HELLO = 10"
definition DISCORD_HEARTBEAT_ACK :: int where "DISCORD_HEARTBEAT_ACK = 11"

lemmas opcode_defs = DISCORD_DISPATCH_def DISCORD_HEARTBEAT_def DISCORD_RECONNECT_def
  DISCORD_INVALID_SESSION_def DISCORD_HELLO_def DISCORD_HEARTBEAT_ACK_def

text \<open>The sequence number after a dispatch: the new number, -1 for null, the old one without either.\<close>

definition next_seq :: "'j json_lib \<Rightarrow> 'j \<Rightarrow> int \<Rightarrow> int" where
  "next_seq L json seq =
     (case item_cs L (Some json) ''s'' of
        None \<Rightarrow> seq
      | Some local_s \<Rightarrow>
          if is_number (access L) (Some local_s) then valueint (access L) local_s
          else if is_null (access L) (Some local_s) then - 1
          else seq)"

definition gateway_handle_dispatch ::
  "'m hashmap_api \<Rightarrow> 'j json_lib \<Rightarrow> discord_event_callbacks option \<Rightarrow> 'j \<Rightarrow> ('m bot, unit) state" where
  "gateway_handle_dispatch H L cb json = do {
     _ \<leftarrow> State (\<lambda>s. ((), s\<lparr>b_seq := next_seq L json (b_seq s)\<rparr>));
     case item_cs L (Some json) ''t'' of
       None \<Rightarrow> in_mem fault
     | Some event_type \<Rightarrow>
         (case valuestring (access L) event_type of
            None \<Rightarrow> if cb = None then State_Monad.return () else in_mem fault
          | Some event \<Rightarrow> in_bot (event_handle H (access L) cb (item_cs L (Some json) ''d'') event)) }"

definition adjust_interval :: "'j json_lib \<Rightarrow> 'j \<Rightarrow> ('m bot, unit) state" where
  "adjust_interval L result =
     (let d = item_cs L (Some result) ''d''
      in if \<not> is_object L d then State_Monad.return ()
         else case item_cs L d ''heartbeat_interval'' of
                None \<Rightarrow> State_Monad.return ()
              | Some i \<Rightarrow>
                  if is_number (access L) (Some i)
                  then State (\<lambda>s. ((), s\<lparr>b_interval := word_of_int (valueint (access L) i)\<rparr>))
                  else State_Monad.return ())"

text \<open>The quotient of C.\<close>

definition c_div :: "int \<Rightarrow> int \<Rightarrow> int" where
  "c_div a b = sgn a * sgn b * (\<bar>a\<bar> div \<bar>b\<bar>)"

definition latency :: "timeval \<Rightarrow> timeval \<Rightarrow> int" where
  "latency recv sent = (tv_sec recv - tv_sec sent) * 1000 + c_div (tv_usec recv - tv_usec sent) 1000"

definition handle_opcode ::
  "'m hashmap_api \<Rightarrow> 'j json_lib \<Rightarrow> discord_event_callbacks option \<Rightarrow> 'j \<Rightarrow> int \<Rightarrow> ('m bot, unit) state" where
  "handle_opcode H L cb result op =
     (if op = DISCORD_DISPATCH then do {
        _ \<leftarrow> set_client (ws_success_login_update (\<lambda>_. True));
        gateway_handle_dispatch H L cb result }
      else if op = DISCORD_RECONNECT then State_Monad.return ()
      else if op = DISCORD_INVALID_SESSION then do {
        _ \<leftarrow> State (\<lambda>s. ((), s\<lparr>b_seq := - 1\<rparr>));
        websocket_reconnect }
      else if op = DISCORD_HELLO then do {
        _ \<leftarrow> gateway_handle_identify;
        adjust_interval L result }
      else if op = DISCORD_HEARTBEAT then gateway_send_heartbeat
      else if op = DISCORD_HEARTBEAT_ACK then
        State (\<lambda>s. ((), s\<lparr>b_latency := latency (b_now s) (b_last_heartbeat s)\<rparr>))
      else State_Monad.return ())"

text \<open>\<open>cJSON_Parse\<close> reads the buffer up to its first NUL.\<close>

definition c_str :: "string \<Rightarrow> string" where
  "c_str s = takeWhile (\<lambda>c. c \<noteq> CHR 0x00) s"

definition gateway_on_receive ::
  "'m hashmap_api \<Rightarrow> 'j json_lib \<Rightarrow> discord_event_callbacks option \<Rightarrow> string \<Rightarrow> nat \<Rightarrow> ('m bot, unit) state" where
  "gateway_on_receive H L cb data len =
     (case parse_json L (c_str data) of
        None \<Rightarrow> State_Monad.return ()
      | Some result \<Rightarrow>
          (case item_cs L (Some result) ''op'' of
             None \<Rightarrow> State_Monad.return ()
           | Some op \<Rightarrow>
               if is_number (access L) (Some op)
               then handle_opcode H L cb result (valueint (access L) op)
               else State_Monad.return ()))"

section \<open>The heartbeat thread\<close>

text \<open>One round of the loop: the new counter and whether a heartbeat is due.\<close>

definition heartbeat_due :: "32 word \<Rightarrow> u64 \<Rightarrow> u64 \<times> bool" where
  "heartbeat_due interval t =
     (let t' = t + 1 in if ucast interval \<le> t' * 10 then (0, True) else (t', False))"

definition gateway_heartbeat_tick :: "nat \<Rightarrow> ('m bot, unit) state" where
  "gateway_heartbeat_tick i = State (\<lambda>s.
     (case map_of (b_threads s) i of
        None \<Rightarrow> ((), s)
      | Some t \<Rightarrow>
          if ws_active (b_client s) \<and> ws_heartbeat_active (b_client s)
          then (let (t', due) = heartbeat_due (b_interval s) t;
                    s' = s\<lparr>b_threads := map (\<lambda>(j, u). if j = i then (j, t') else (j, u)) (b_threads s)\<rparr>
                in if due then run_state gateway_send_heartbeat s' else ((), s'))
          else ((), s\<lparr>b_threads := filter (\<lambda>(j, _). j \<noteq> i) (b_threads s)\<rparr>)))"

section \<open>The event loop\<close>

text \<open>\<open>sighandle\<close> of \<open>disco.c\<close>, installed for SIGTERM.\<close>

definition sighandle :: "'m bot \<Rightarrow> 'm bot" where
  [simp]: "sighandle s = s\<lparr>b_sigterm := True\<rparr>"

text \<open>
  What may happen while \<open>lws_service\<close> runs: callbacks, rounds of heartbeat threads, the signal, and the
  clock moving. The client is inactive from the callback for its closed connection on, unless that
  connects again, and libwebsockets delivers no fragments of a closed connection. A round of the loop
  is a list of these. When the rounds are used up while the loop is still running, its result is
  \<open>False\<close>; it is also \<open>False\<close> when the process has been ended.
\<close>

datatype happening = Callback bool reason | Tick nat | Sigterm | Clock timeval

definition delivered :: "reason \<Rightarrow> websocket_client \<Rightarrow> bool" where
  "delivered r c \<longleftrightarrow> (case r of Receive _ _ \<Rightarrow> ws_active c | _ \<Rightarrow> True)"

definition happens ::
  "'m hashmap_api \<Rightarrow> 'j json_lib \<Rightarrow> discord_event_callbacks option \<Rightarrow> happening \<Rightarrow> ('m bot, unit) state" where
  "happens H L cb h = State (\<lambda>s.
     if b_exited s then ((), s)
     else case h of
            Callback user r \<Rightarrow>
              if delivered r (b_client s)
              then ((), snd (run_state (websocket_callback (Some (gateway_on_receive H L cb)) user r) s))
              else ((), s)
          | Tick i \<Rightarrow> run_state (gateway_heartbeat_tick i) s
          | Sigterm \<Rightarrow> ((), sighandle s)
          | Clock t \<Rightarrow> ((), s\<lparr>b_now := t\<rparr>))"

fun all_happen ::
  "'m hashmap_api \<Rightarrow> 'j json_lib \<Rightarrow> discord_event_callbacks option \<Rightarrow> happening list \<Rightarrow> ('m bot, unit) state" where
  "all_happen H L cb [] = State_Monad.return ()"
| "all_happen H L cb (h # hs) = do { _ \<leftarrow> happens H L cb h; all_happen H L cb hs }"

fun gateway_event_loop ::
  "'m hashmap_api \<Rightarrow> 'j json_lib \<Rightarrow> discord_event_callbacks option \<Rightarrow> happening list list \<Rightarrow> ('m bot, bool) state" where
  "gateway_event_loop H L cb rounds = do {
     s \<leftarrow> State (\<lambda>s. (s, s));
     if b_exited s then State_Monad.return False
     else if \<not> ws_active (b_client s) then State_Monad.return True
     else case rounds of
            [] \<Rightarrow> State_Monad.return False
          | hs # rounds \<Rightarrow> do {
              _ \<leftarrow> all_happen H L cb hs;
              s \<leftarrow> State (\<lambda>s. (s, s));
              if b_sigterm s \<and> \<not> b_exited s
              then do { _ \<leftarrow> websocket_exit; State_Monad.return True }
              else gateway_event_loop H L cb rounds } }"

end
