(* ===== verification/Event_Safety.thy ===== *)
theory Event_Safety
  imports Event
begin

text \<open>
  What the event handlers keep true of the bot: every cached message is a structure of its own in
  memory that has not been freed, nothing has been freed twice, and the message cache is coherent.
\<close>

section \<open>Dispatch\<close>

lemma find_SomeD: "List.find P xs = Some x \<Longrightarrow> x \<in> set xs \<and> P x"
  by (induction xs) (auto split: if_splits)

lemma event_name_exact:
  "(name, n, g) \<in> set event_table \<Longrightarrow> strncmp_eq event name n \<longleftrightarrow> event = name"
  using event_table_exact(1) by (intro strncmp_eq_exact) (auto simp: list_all_iff)

lemma find_handler_in:
  assumes g: "(event, n, g) \<in> set event_table"
  shows "find_handler event = g"
proof -
  let ?P = "\<lambda>(name, n, _ :: handler). strncmp_eq event name n"
  obtain r where r: "List.find ?P event_table = Some r"
    using g event_name_exact [OF g] by (cases "List.find ?P event_table") (auto simp: find_None_iff)
  obtain name n' g' where r': "r = (name, n', g')" by (cases r) auto
  from r have "r \<in> set event_table" "?P r" by (auto dest: find_SomeD)
  then have e: "(event, n', g') \<in> set event_table" using event_name_exact r' by auto
  have "(n', g') = (n, g)" using eq_key_imp_eq_value [OF event_table_exact(2) e g] .
  with r r' show ?thesis by (simp add: find_handler_def)
qed

lemma find_handler_iff:
  assumes "h \<noteq> Handle_Nothing"
  shows "find_handler event = h \<longleftrightarrow> (\<exists>n. (event, n, h) \<in> set event_table)"
proof
  let ?P = "\<lambda>(name, n, _ :: handler). strncmp_eq event name n"
  assume h: "find_handler event = h"
  then obtain name n where r: "List.find ?P event_table = Some (name, n, h)"
    using assms by (auto simp: find_handler_def split: option.splits)
  from r have "(name, n, h) \<in> set event_table" "strncmp_eq event name n" by (auto dest: find_SomeD)
  then show "\<exists>n. (event, n, h) \<in> set event_table" using event_name_exact by auto
qed (use find_handler_in in blast)

text \<open>C21. The chain of \<open>strncmp\<close> tests is a look-up by name: an event is handled by the handler that the
  table lists under exactly that name, by none when the name is not listed; the lengths that are
  passed never let a name match by its beginning.\<close>

theorem event_dispatch_is_lookup:
  "find_handler event =
     (case map_of (map (\<lambda>(name, _, g). (name, g)) event_table) event of
        None \<Rightarrow> Handle_Nothing | Some g \<Rightarrow> g)"
proof (cases "map_of (map (\<lambda>(name, _, g). (name, g)) event_table) event")
  case None
  then have "(event, n, g) \<notin> set event_table" for n g by (force simp: map_of_eq_None_iff)
  then have "find_handler event = Handle_Nothing" using find_handler_iff [of "find_handler event" event] by blast
  with None show ?thesis by simp
next
  case (Some g)
  then obtain n where "(event, n, g) \<in> set event_table" by (auto dest!: map_of_SomeD)
  with Some find_handler_in show ?thesis by simp
qed

section \<open>Addresses\<close>

lemma unat_block_addr:
  assumes "b < 2 ^ 59"
  shows "unat (block_addr b) = 16 * (b + 1)"
proof -
  have r: "unat (word_of_nat n :: addr) = n" if "n < 2 ^ 64" for n
    using that by (simp add: unsigned_of_nat take_bit_nat_eq_self_iff)
  have "16 * (b + 1) < (2 :: nat) ^ 64" using assms by simp
  from r [OF this] show ?thesis unfolding block_addr_def .
qed

lemma block_addr_inj:
  assumes "b < 2 ^ 59" and "c < 2 ^ 59" and "block_addr b = block_addr c"
  shows "b = c"
proof -
  have "16 * (b + 1) = unat (block_addr b)" by (rule unat_block_addr [OF assms(1), symmetric])
  also have "\<dots> = 16 * (c + 1)" unfolding assms(3) by (rule unat_block_addr [OF assms(2)])
  finally show ?thesis by simp
qed

lemma block_addr_not_NULL: "b < 2 ^ 59 \<Longrightarrow> block_addr b \<noteq> NULL"
  using unat_block_addr [of b] by auto

section \<open>Which nodes a cache has\<close>

lemma destroy_item_nodes:
  "destroy_item ty n cs = Some cs' \<Longrightarrow> dom (c_nodes (get_cache ty cs')) \<subseteq> dom (c_nodes (get_cache ty cs))"
  by (auto simp: destroy_item_def Let_def split: option.splits if_splits)

lemma delete_nodes:
  assumes "discord_cache_delete H ty i cs = Some cs'"
  shows "dom (c_nodes (get_cache ty cs')) \<subseteq> dom (c_nodes (get_cache ty cs))"
proof (cases "hm_get H (c_map (get_cache ty cs)) i = NULL")
  case False
  with assms obtain q where "destroy_item ty (hm_get H (c_map (get_cache ty cs)) i)
      (put_cache ty ((get_cache ty cs)\<lparr>c_queue := q, c_map := hm_remove H (c_map (get_cache ty cs)) i\<rparr>) cs) = Some cs'"
    by (auto simp: discord_cache_delete_def Let_def split: option.splits)
  from destroy_item_nodes [OF this] show ?thesis by simp
qed (use assms in \<open>simp add: discord_cache_delete_def\<close>)

lemma remove_oldest_nodes:
  "remove_oldest H ty k cs = Some cs' \<Longrightarrow>
   dom (c_nodes (get_cache ty cs')) \<subseteq> dom (c_nodes (get_cache ty cs))"
proof (induction k arbitrary: cs)
  case (Suc k)
  then obtain i cs1 where "discord_cache_delete H ty i cs = Some cs1" "remove_oldest H ty k cs1 = Some cs'"
    by (auto simp: Let_def split: list.splits option.splits)
  then show ?case using Suc.IH delete_nodes by blast
qed simp

lemma move_to_tail_nodes: "move_to_tail m c = Some c' \<Longrightarrow> c_nodes c' = c_nodes c"
  by (auto simp: move_to_tail_def split: option.splits)

lemma set_nodes:
  assumes "discord_cache_set H ty d n cs = Some (r, cs')"
  shows "dom (c_nodes (get_cache ty cs')) \<subseteq> insert n (dom (c_nodes (get_cache ty cs)))"
proof -
  let ?c = "get_cache ty cs"
  from assms obtain i c1 where i: "c_objs ?c d = Some i"
      "(if hm_get H (c_map ?c) i \<noteq> NULL then move_to_tail (hm_get H (c_map ?c) i) ?c else Some ?c) = Some c1"
    by (auto simp: discord_cache_set_def Let_def split: option.splits)
  have c1: "c_nodes c1 = c_nodes ?c" using i(2) move_to_tail_nodes by (auto split: if_splits)
  let ?c2 = "c1\<lparr>c_size := c_size c1 + 1, c_nodes := (c_nodes c1)(n \<mapsto> \<lparr>alloc_id = i, node_cont = d\<rparr>)\<rparr>"
  show ?thesis
  proof (cases "hm_put H (c_map ?c2) i n")
    case None
    with assms i c1 show ?thesis by (simp add: discord_cache_set_def Let_def split: if_splits) auto
  next
    case (Some m)
    let ?cs3 = "put_cache ty (?c2\<lparr>c_map := m, c_queue := c_queue ?c2 @ [n]\<rparr>) cs"
    have "(if c_max c1 < c_size c1 + 1 then remove_oldest H ty (nat (c_size c1 + 1 - c_max c1)) ?cs3
        else Some ?cs3) = Some cs'"
      using assms i Some
      by (simp add: discord_cache_set_def Let_def split: if_splits option.splits)
    then have "dom (c_nodes (get_cache ty cs')) \<subseteq> dom (c_nodes (get_cache ty ?cs3))"
      using remove_oldest_nodes by (fastforce split: if_splits)
    then show ?thesis using c1 by simp
  qed
qed

lemma get_nodes:
  "discord_cache_get H ty i cs = Some (d, cs') \<Longrightarrow> c_nodes (get_cache ty cs') = c_nodes (get_cache ty cs)"
  by (auto simp: discord_cache_get_def Let_def move_to_tail_def split: if_splits option.splits)

section \<open>The invariant\<close>

text \<open>
  \<open>xs\<close> are the entries of the message cache, oldest first. No block is owned by two cached messages,
  freed twice, or owned and freed; every address in use belongs to a block that was allocated.
\<close>

abbreviation MESSAGES :: cache_type where "MESSAGES \<equiv> DISCO_MESSAGE_CACHE"

definition cached_ok :: "'m bot_state \<Rightarrow> entry \<Rightarrow> bool" where
  "cached_ok s x \<longleftrightarrow>
     (let p = ev_message s (e_cont x)
      in p \<noteq> Nul \<and> ptr_addr p = e_cont x \<and> message_id p = e_id x \<and> message_ok p)"

definition cached_blocks :: "'m bot_state \<Rightarrow> entry list \<Rightarrow> nat list" where
  "cached_blocks s xs = concat (map (\<lambda>x. message_blocks (ev_message s (e_cont x))) xs)"

definition owned_once :: "'m bot_state \<Rightarrow> nat list \<Rightarrow> bool" where
  "owned_once s bs \<longleftrightarrow>
     distinct (bs @ freed (ev_mem s)) \<and> set (bs @ freed (ev_mem s)) \<subseteq> {..<next_blk (ev_mem s)}"

definition nodes_allocated :: "'m bot_state \<Rightarrow> bool" where
  "nodes_allocated s \<longleftrightarrow>
     (\<forall>n \<in> dom (c_nodes (get_cache MESSAGES (ev_caches s))). \<exists>b < next_blk (ev_mem s). n = block_addr b)"

definition bot_inv :: "'m hashmap_api \<Rightarrow> 'm bot_state \<Rightarrow> entry list \<Rightarrow> bool" where
  "bot_inv H s xs \<longleftrightarrow>
     caches_rep H MESSAGES (ev_caches s) xs \<and> list_all (cached_ok s) xs \<and>
     owned_once s (cached_blocks s xs) \<and> nodes_allocated s \<and> \<not> bad (ev_mem s)"

lemma distinct_submset:
  assumes "distinct B" and "mset A \<subseteq># mset B"
  shows "distinct A"
proof -
  obtain C where "mset B = mset A + C" using assms(2) by (auto simp: mset_subset_eq_exists_conv)
  moreover obtain cs where "mset cs = C" using ex_mset by blast
  ultimately have "mset B = mset (A @ cs)" by simp
  with assms(1) have "distinct (A @ cs)" by (metis mset_eq_imp_distinct_iff)
  then show ?thesis by simp
qed

lemma message_blocks_head: "p \<noteq> Nul \<Longrightarrow> \<exists>b \<in> set (message_blocks p). ptr_addr p = block_addr b"
proof (cases p)
  case (Ptr b t)
  then show ?thesis by (cases t) (simp add: ptr_addr_def)
qed simp

lemma cache_rep_objs:
  assumes "cache_rep H c xs" and "d \<notin> e_cont ` set xs"
  shows "cache_rep H (c\<lparr>c_objs := (c_objs c)(d \<mapsto> i)\<rparr>) xs"
  using assms by (auto simp: cache_rep_def entry_ok_def map_ok_def)

lemma add_same_parts: "a + l = b \<Longrightarrow> a' + l' = b' \<Longrightarrow> a + a' + (l + l') = b + (b' :: nat multiset)"
  by (auto simp: ac_simps)

lemma destroy_evicted_does:
  "list_all (\<lambda>x. msgs (e_cont x) \<noteq> Nul \<and> message_ok (msgs (e_cont x))) xs \<Longrightarrow>
   does (destroy_evicted msgs chans (map (\<lambda>x. (MESSAGES, e_cont x)) xs))
     (\<lambda>_ bs fs. bs = [] \<and> mset fs + mset (concat (map (\<lambda>x. message_leaks (msgs (e_cont x))) xs)) =
        mset (concat (map (\<lambda>x. message_blocks (msgs (e_cont x))) xs)))"
proof (induction xs)
  case Nil
  then show ?case by (auto intro!: does_intros)
next
  case (Cons x xs)
  let ?p = "msgs (e_cont x)"
  have p: "?p \<noteq> Nul" "message_ok ?p" using Cons.prems by simp_all
  have d: "does (destroy_message ?p) P"
    if "\<And>u fs. mset fs + mset (message_leaks ?p) = mset (message_blocks ?p) \<Longrightarrow> P u [] fs" for P
  proof -
    have "does (destroy_message_opt ?p) P"
      using message_destroy_does(1) [OF p(2)] by (rule does_weaken) (use that in blast)
    then show ?thesis using p(1) by (simp add: destroy_message_def)
  qed
  have r: "does (destroy_evicted msgs chans (map (\<lambda>x. (MESSAGES, e_cont x)) xs)) P"
    if "\<And>u fs. mset fs + mset (concat (map (\<lambda>x. message_leaks (msgs (e_cont x))) xs)) =
      mset (concat (map (\<lambda>x. message_blocks (msgs (e_cont x))) xs)) \<Longrightarrow> P u [] fs" for P
    by (rule does_weaken [OF Cons.IH]) (use Cons.prems that in auto)
  show ?case
    by (simp only: list.map destroy_evicted.simps cache_type.case, rule does_bind, rule d, rule r)
      (use add_same_parts in force)
qed

section \<open>Caching a message\<close>

lemma in_memory_run [simp]:
  "run_state (in_memory c) s = (case run_state c (ev_mem s) of (y, m) \<Rightarrow> (y, s\<lparr>ev_mem := m\<rparr>))"
  by (simp add: in_memory_def)

lemma call_run [simp]: "run_state (call c) s = ((), s\<lparr>ev_calls := ev_calls s @ [c]\<rparr>)"
  by (simp add: call_def)

text \<open>The new entry \<open>y\<close> after the entries \<open>xs\<close>, and what stays when the oldest go.\<close>

definition kept :: "'m bot_state \<Rightarrow> entry list \<Rightarrow> entry \<Rightarrow> entry list" where
  "kept s xs y = drop (Suc (length xs) - nat (c_max (get_cache MESSAGES (ev_caches s)))) (xs @ [y])"

definition evicted :: "'m bot_state \<Rightarrow> entry list \<Rightarrow> entry \<Rightarrow> entry list" where
  "evicted s xs y = take (Suc (length xs) - nat (c_max (get_cache MESSAGES (ev_caches s)))) (xs @ [y])"

lemma cached_address_differs:
  assumes inv: "bot_inv H s xs" and p: "p \<noteq> Nul" "owned_once s (cached_blocks s xs @ message_blocks p)"
    and bound: "next_blk (ev_mem s) \<le> 2 ^ 59"
  shows "ptr_addr p \<notin> e_cont ` set xs"
proof
  assume "ptr_addr p \<in> e_cont ` set xs"
  then obtain x where x: "x \<in> set xs" "ptr_addr p = e_cont x" by auto
  let ?q = "ev_message s (e_cont x)"
  have q: "?q \<noteq> Nul" "ptr_addr ?q = e_cont x"
    using inv x(1) by (auto simp: bot_inv_def cached_ok_def list_all_iff Let_def)
  obtain b c where b: "b \<in> set (message_blocks p)" "ptr_addr p = block_addr b"
    and c: "c \<in> set (message_blocks ?q)" "ptr_addr ?q = block_addr c"
    using message_blocks_head p(1) q(1) by meson
  have c': "c \<in> set (cached_blocks s xs)" using c(1) x(1) by (auto simp: cached_blocks_def)
  have "b < 2 ^ 59" "c < 2 ^ 59" "b \<noteq> c"
    using p(2) b(1) c' bound by (auto simp: owned_once_def)
  with block_addr_inj b(2) c(2) q(2) x(2) show False by metis
qed

lemma cached_blocks_unchanged:
  "(\<And>x. x \<in> set xs \<Longrightarrow> ev_message s' (e_cont x) = ev_message s (e_cont x)) \<Longrightarrow>
   cached_blocks s' xs = cached_blocks s xs"
  unfolding cached_blocks_def by (metis (mono_tags, lifting) map_eq_conv)

lemma cached_blocks_append: "cached_blocks s (xs @ ys) = cached_blocks s xs @ cached_blocks s ys"
  by (simp add: cached_blocks_def)

lemma cached_blocks_split: "cached_blocks s xs = cached_blocks s (take k xs) @ cached_blocks s (drop k xs)"
  using cached_blocks_append [of s "take k xs" "drop k xs"] by simp

lemma cache_message_new:
  assumes inv: "bot_inv H s xs" and p: "p \<noteq> Nul" "message_ok p" "message_id p \<notin> e_id ` set xs"
    and own: "owned_once s (cached_blocks s xs @ message_blocks p)"
    and put: "\<forall>m k v. hm_put H m k v \<noteq> None" and bound: "next_blk (ev_mem s) < 2 ^ 59"
  obtains n s' where "run_state (discord_cache_set_message H p) s = ((), s')"
    "bot_inv H s' (kept s xs (message_id p, ptr_addr p, n))" "ev_calls s' = ev_calls s"
    "next_blk (ev_mem s') = Suc (next_blk (ev_mem s))"
    "set (cached_blocks s' (kept s xs (message_id p, ptr_addr p, n)) @ freed (ev_mem s')) \<subseteq>
      set (cached_blocks s xs @ message_blocks p @ freed (ev_mem s))"
    "ev_message s' = (ev_message s)(ptr_addr p := p)"
    "c_max (get_cache MESSAGES (ev_caches s')) = c_max (get_cache MESSAGES (ev_caches s))"
    "\<exists>fs. freed (ev_mem s') = freed (ev_mem s) @ fs \<and>
      mset fs + mset (concat (map (\<lambda>x. message_leaks (ev_message s' (e_cont x)))
        (evicted s xs (message_id p, ptr_addr p, n)))) =
      mset (cached_blocks s' (evicted s xs (message_id p, ptr_addr p, n)))"
proof -
  let ?d = "ptr_addr p" and ?i = "message_id p" and ?nb = "next_blk (ev_mem s)"
  let ?n = "block_addr ?nb" and ?C = "ev_caches s"
  let ?c = "get_cache MESSAGES ?C"
  let ?cs = "put_cache MESSAGES (?c\<lparr>c_objs := (c_objs ?c)(?d \<mapsto> ?i)\<rparr>) ?C"
  let ?y = "(?i, ?d, ?n)" and ?k = "Suc (length xs) - nat (c_max ?c)"
  let ?ys = "xs @ [?y]" and ?M = "(ev_message s)(?d := p)"
  have rep: "cache_rep H ?c xs" "callback_ok (destroy_item_callback ?C)" "0 \<le> c_max ?c"
    using inv by (simp_all add: bot_inv_def caches_rep_def)
  have d: "?d \<notin> e_cont ` set xs" by (rule cached_address_differs [OF inv p(1) own]) (use bound in simp)
  have node: "?n \<noteq> NULL" "c_nodes ?c ?n = None"
  proof -
    show "?n \<noteq> NULL" by (rule block_addr_not_NULL [OF bound])
    show "c_nodes ?c ?n = None"
    proof (rule ccontr)
      assume "c_nodes ?c ?n \<noteq> None"
      then obtain b where b: "b < ?nb" "?n = block_addr b"
        using inv by (auto simp: bot_inv_def nodes_allocated_def)
      then have "?nb = b" by (intro block_addr_inj [OF bound]) (use bound b in auto)
      with b(1) show False by simp
    qed
  qed
  obtain m where m: "hm_put H (c_map ?c) ?i ?n = Some m" using put by blast
  obtain cs' where cs': "discord_cache_set H MESSAGES ?d ?n ?cs = Some (0, cs')"
      "cache_rep H (get_cache MESSAGES cs') (drop ?k ?ys)" "only_changes MESSAGES ?cs cs'"
      "destroyed cs' = destroyed ?cs @ map (\<lambda>x. (MESSAGES, e_cont x)) (take ?k ?ys)"
    using cache_set_fresh [of H MESSAGES ?cs xs ?d ?i ?n m] cache_rep_objs [OF rep(1) d] rep(2,3) p(3) node m
    by auto
  define E where "E = take ?k ?ys"
  have M: "?M (e_cont x) = ev_message s (e_cont x)" if "x \<in> set xs" for x
  proof -
    have "e_cont x \<in> e_cont ` set xs" using that by (rule imageI)
    with d have "e_cont x \<noteq> ?d" by metis
    then show ?thesis by simp
  qed
  have entries: "list_all (\<lambda>x. ?M (e_cont x) \<noteq> Nul \<and> ptr_addr (?M (e_cont x)) = e_cont x \<and>
      message_id (?M (e_cont x)) = e_id x \<and> message_ok (?M (e_cont x))) ?ys"
    using inv p(1,2) M by (simp add: bot_inv_def list_all_iff cached_ok_def Let_def)
  moreover have "set E \<subseteq> set ?ys" unfolding E_def by (rule set_take_subset)
  ultimately have "list_all (\<lambda>x. ?M (e_cont x) \<noteq> Nul \<and> message_ok (?M (e_cont x))) E"
    unfolding list_all_iff by blast
  note D = destroy_evicted_does [OF this, of "ev_channel s"]
  let ?m = "(ev_mem s)\<lparr>next_blk := Suc ?nb\<rparr>"
  let ?D = "destroy_evicted ?M (ev_channel s) (map (\<lambda>x. (MESSAGES, e_cont x)) E)"
  obtain u fs and bs :: "nat list" where r: "run_state ?D ?m = (u, ?m\<lparr>next_blk := next_blk ?m + length bs, freed := freed ?m @ fs\<rparr>)"
      "bs = [] \<and> mset fs + mset (concat (map (\<lambda>x. message_leaks (?M (e_cont x))) E)) =
        mset (concat (map (\<lambda>x. message_blocks (?M (e_cont x))) E))"
    by (rule doesE [OF D, of ?m]) blast
  then have fs: "run_state ?D ?m = ((), (ev_mem s)\<lparr>next_blk := Suc ?nb, freed := freed (ev_mem s) @ fs\<rparr>)"
      "mset fs + mset (concat (map (\<lambda>x. message_leaks (?M (e_cont x))) E)) =
        mset (concat (map (\<lambda>x. message_blocks (?M (e_cont x))) E))"
    by simp_all
  let ?s' = "s\<lparr>ev_message := ?M, ev_caches := cs',
    ev_mem := (ev_mem s)\<lparr>next_blk := Suc ?nb, freed := freed (ev_mem s) @ fs\<rparr>\<rparr>"
  have run: "run_state (discord_cache_set_message H p) s = ((), ?s')"
    using p(1) cs'(1,4) fs(1) by (simp add: discord_cache_set_message_def cache_set_def fresh_blk_def E_def)
  have ys: "cached_blocks ?s' ?ys = cached_blocks s xs @ message_blocks p"
    using cached_blocks_unchanged [of xs ?s' s] M by (simp add: cached_blocks_append) (simp add: cached_blocks_def)
  have split: "cached_blocks ?s' ?ys = cached_blocks ?s' E @ cached_blocks ?s' (drop ?k ?ys)"
    unfolding E_def by (rule cached_blocks_split)
  have sub: "mset (cached_blocks ?s' (drop ?k ?ys) @ freed (ev_mem s) @ fs) \<subseteq>#
      mset ((cached_blocks s xs @ message_blocks p) @ freed (ev_mem s))"
  proof -
    define C where "C = mset (concat (map (\<lambda>x. message_leaks (?M (e_cont x))) E))"
    have C: "mset (cached_blocks ?s' E) = mset fs + C"
      using fs(2) [symmetric] unfolding C_def by (simp add: cached_blocks_def)
    have "mset (cached_blocks s xs @ message_blocks p) = mset fs + C + mset (cached_blocks ?s' (drop ?k ?ys))"
      unfolding ys [symmetric] split mset_append C by (rule refl)
    then show ?thesis
      unfolding mset_append [of _ "freed (ev_mem s)"] mset_append [of _ "freed (ev_mem s) @ fs"]
        mset_append [of "freed (ev_mem s)" fs] mset_subset_eq_exists_conv
      by (intro exI [of _ C]) (simp add: ac_simps)
  qed
  have set_sub: "set (cached_blocks ?s' (drop ?k ?ys) @ freed (ev_mem s) @ fs) \<subseteq>
      set (cached_blocks s xs @ message_blocks p @ freed (ev_mem s))"
    using set_mset_mono [OF sub] by auto
  have once: "owned_once ?s' (cached_blocks ?s' (drop ?k ?ys))"
  proof -
    define R where "R = cached_blocks ?s' (drop ?k ?ys)"
    have "distinct ((cached_blocks s xs @ message_blocks p) @ freed (ev_mem s))"
      and nb: "set (cached_blocks s xs @ message_blocks p @ freed (ev_mem s)) \<subseteq> {..<?nb}"
      using own by (simp_all add: owned_once_def)
    from distinct_submset [OF this(1) sub] have dist: "distinct (R @ freed (ev_mem s) @ fs)" by (simp only: R_def)
    have "set (R @ freed (ev_mem s) @ fs) \<subseteq> {..<?nb}"
      using set_sub nb unfolding R_def by (rule subset_trans)
    then have "set (R @ freed (ev_mem s) @ fs) \<subseteq> {..<Suc ?nb}" by auto
    with dist show ?thesis unfolding owned_once_def R_def [symmetric] by simp
  qed
  have alloc: "nodes_allocated ?s'"
    using set_nodes [OF cs'(1)] inv by (auto simp: nodes_allocated_def bot_inv_def less_Suc_eq)
  have "list_all (cached_ok ?s') ?ys" using entries by (simp add: cached_ok_def Let_def list_all_iff)
  then have ok: "list_all (cached_ok ?s') (drop ?k ?ys)"
    unfolding list_all_iff using set_drop_subset [of ?k ?ys] by blast
  have mcache: "caches_rep H MESSAGES cs' (drop ?k ?ys)"
    using cs'(2,3) rep(2,3) by (simp add: caches_rep_def only_changes_def)
  have inv': "bot_inv H ?s' (drop ?k ?ys)"
    unfolding bot_inv_def using mcache ok once alloc inv by (simp add: bot_inv_def)
  have k: "kept s xs ?y = drop ?k ?ys" by (simp only: kept_def)
  have fr: "freed (ev_mem ?s') = freed (ev_mem s) @ fs" by simp
  show thesis
  proof (rule that [OF run, where n = ?n, unfolded k])
    show "bot_inv H ?s' (drop ?k ?ys)" by (rule inv')
    show "set (cached_blocks ?s' (drop ?k ?ys) @ freed (ev_mem ?s')) \<subseteq>
        set (cached_blocks s xs @ message_blocks p @ freed (ev_mem s))"
      unfolding fr by (rule set_sub)
    show "c_max (get_cache MESSAGES (ev_caches ?s')) = c_max ?c"
      using cs'(3) by (simp add: only_changes_def)
    show "\<exists>fs. freed (ev_mem ?s') = freed (ev_mem s) @ fs \<and>
        mset fs + mset (concat (map (\<lambda>x. message_leaks (ev_message ?s' (e_cont x))) (evicted s xs ?y))) =
        mset (cached_blocks ?s' (evicted s xs ?y))"
      using fs(2) by (intro exI [of _ fs]) (simp add: evicted_def E_def cached_blocks_def)
  qed simp_all
qed

section \<open>Creating and deleting a message\<close>

text \<open>Calling the application changes none of it.\<close>

lemma bot_inv_calls [simp]:
  "bot_inv H (s\<lparr>ev_calls := c\<rparr>) xs \<longleftrightarrow> bot_inv H s xs" "cached_blocks (s\<lparr>ev_calls := c\<rparr>) xs = cached_blocks s xs"
proof -
  have "cached_ok (s\<lparr>ev_calls := c\<rparr>) = cached_ok s" by (intro ext) (simp add: cached_ok_def)
  then show "bot_inv H (s\<lparr>ev_calls := c\<rparr>) xs \<longleftrightarrow> bot_inv H s xs"
    by (simp add: bot_inv_def cached_blocks_def owned_once_def nodes_allocated_def)
qed (simp add: cached_blocks_def)

text \<open>Memory that is taken and freed anew disturbs nothing.\<close>

lemma bot_inv_grow:
  assumes inv: "bot_inv H s xs" and m: "m' = (ev_mem s)\<lparr>next_blk := nb', freed := freed (ev_mem s) @ fs\<rparr>"
    and new: "distinct (own @ fs)" "set (own @ fs) \<subseteq> {next_blk (ev_mem s) ..< nb'}" "next_blk (ev_mem s) \<le> nb'"
  shows "bot_inv H (s\<lparr>ev_mem := m'\<rparr>) xs" and "owned_once (s\<lparr>ev_mem := m'\<rparr>) (cached_blocks s xs @ own)"
proof -
  let ?s' = "s\<lparr>ev_mem := m'\<rparr>" and ?nb = "next_blk (ev_mem s)"
  have o: "distinct (cached_blocks s xs @ freed (ev_mem s))"
      "set (cached_blocks s xs @ freed (ev_mem s)) \<subseteq> {..<?nb}"
    using inv by (simp_all add: bot_inv_def owned_once_def)
  have disj: "set (own @ fs) \<inter> set (cached_blocks s xs @ freed (ev_mem s)) = {}"
    using o(2) new(2) by fastforce
  have bnd: "set ((own @ fs) @ (cached_blocks s xs @ freed (ev_mem s))) \<subseteq> {..<nb'}"
    using o(2) new(2,3) by fastforce
  have d: "distinct ((own @ fs) @ (cached_blocks s xs @ freed (ev_mem s)))"
    using disj o(1) new(1) by (simp only: distinct_append)
  show own: "owned_once ?s' (cached_blocks s xs @ own)"
    using d bnd unfolding owned_once_def by (auto simp: m)
  have "cached_blocks ?s' xs = cached_blocks s xs" by (simp add: cached_blocks_def)
  with own have "owned_once ?s' (cached_blocks ?s' xs)" by (auto simp: owned_once_def)
  moreover have "nodes_allocated ?s'"
  proof -
    have "nodes_allocated s" using inv by (simp add: bot_inv_def)
    then show ?thesis
      unfolding nodes_allocated_def m by simp (meson new(3) order_less_le_trans)
  qed
  ultimately show "bot_inv H ?s' xs"
    using inv by (simp add: bot_inv_def m cached_ok_def Let_def list_all_iff)
qed

text \<open>Freeing what is owned by nobody else disturbs nothing.\<close>

lemma bot_inv_free:
  assumes inv: "bot_inv H s xs" and own: "owned_once s (cached_blocks s xs @ own)" and fs: "mset fs \<subseteq># mset own"
  shows "bot_inv H (s\<lparr>ev_mem := (ev_mem s)\<lparr>freed := freed (ev_mem s) @ fs\<rparr>\<rparr>) xs"
proof -
  let ?s' = "s\<lparr>ev_mem := (ev_mem s)\<lparr>freed := freed (ev_mem s) @ fs\<rparr>\<rparr>" and ?bs = "cached_blocks s xs"
  have d: "distinct ((?bs @ own) @ freed (ev_mem s))"
    and b: "set ((?bs @ own) @ freed (ev_mem s)) \<subseteq> {..<next_blk (ev_mem s)}"
    using own by (simp_all add: owned_once_def)
  have sub: "mset (?bs @ freed (ev_mem s) @ fs) \<subseteq># mset ((?bs @ own) @ freed (ev_mem s))"
    using fs by (simp add: ac_simps)
  have "distinct (?bs @ freed (ev_mem s) @ fs)" by (rule distinct_submset [OF d sub])
  moreover have "set (?bs @ freed (ev_mem s) @ fs) \<subseteq> {..<next_blk (ev_mem s)}"
    using set_mset_mono [OF sub] b by auto
  moreover have "cached_blocks ?s' xs = ?bs" by (simp add: cached_blocks_def)
  ultimately have "owned_once ?s' (cached_blocks ?s' xs)" by (simp add: owned_once_def)
  moreover have "cached_ok ?s' = cached_ok s" by (intro ext) (simp add: cached_ok_def)
  ultimately show ?thesis using inv by (simp add: bot_inv_def nodes_allocated_def)
qed

lemma message_reads_limit:
  "json_laws J \<Longrightarrow> json_depth J nesting_limit j \<Longrightarrow> message_json_ok J nesting_limit (Some j) \<Longrightarrow>
   does (json_to_message J nesting_limit (Some j)) (\<lambda>q bs fs. mset bs = mset (message_blocks q) + mset fs \<and>
     message_ok q \<and> q \<noteq> Nul)"
  using message_reads [of J nesting_limit j] unfolding reads_def by blast

text \<open>What a run in memory does, as facts about the memory after it.\<close>

lemma does_run:
  assumes "does c P" and "run_state c m = (y, m1)"
  obtains bs fs where "m1 = m\<lparr>next_blk := next_blk m + length bs, freed := freed m @ fs\<rparr>"
    "distinct bs" "set bs = {next_blk m ..< next_blk m + length bs}" "P y bs fs"
proof (rule doesE [OF assms(1), of m])
  fix y' bs fs
  assume r: "run_state c m = (y', m\<lparr>next_blk := next_blk m + length bs, freed := freed m @ fs\<rparr>)"
    "mset bs = mset [next_blk m ..< next_blk m + length bs]" "P y' bs fs"
  have "distinct bs" using r(2) by (metis distinct_upt mset_eq_imp_distinct_iff)
  moreover have "set bs = {next_blk m ..< next_blk m + length bs}" using r(2) by (metis mset_eq_setD set_upt)
  ultimately show thesis using r assms(2) by (intro that [where bs = bs and fs = fs]) auto
qed

lemma message_read_and_copied:
  assumes inv: "bot_inv H s xs" and r: "run_state (json_to_message J nesting_limit (Some j)) (ev_mem s) = (p, m1)"
    and json: "json_laws J" "json_depth J nesting_limit j" "message_json_ok J nesting_limit (Some j)"
    and cp: "message_copyable p" and c: "run_state (copy_message p) m1 = (q, m2)"
  shows "p \<noteq> Nul" "message_ok p" "q \<noteq> Nul" "message_ok q"
    "message_small p \<longrightarrow> message_summary q = message_summary p"
    "bot_inv H (s\<lparr>ev_mem := m2\<rparr>) xs"
    "owned_once (s\<lparr>ev_mem := m2\<rparr>) (cached_blocks s xs @ message_blocks p @ message_blocks q)"
proof -
  let ?nb = "next_blk (ev_mem s)"
  obtain bs1 fs1 where r: "m1 = (ev_mem s)\<lparr>next_blk := ?nb + length bs1, freed := freed (ev_mem s) @ fs1\<rparr>"
      "distinct bs1" "set bs1 = {?nb ..< ?nb + length bs1}"
      "mset bs1 = mset (message_blocks p) + mset fs1 \<and> message_ok p \<and> p \<noteq> Nul"
    by (rule does_run [OF message_reads_limit [OF json] r]) blast
  obtain bs2 fs2 where c: "m2 = m1\<lparr>next_blk := next_blk m1 + length bs2, freed := freed m1 @ fs2\<rparr>"
      "distinct bs2" "set bs2 = {next_blk m1 ..< next_blk m1 + length bs2}"
      "mset (message_blocks q) = mset bs2 \<and> message_ok q \<and> (q = Nul \<longleftrightarrow> p = Nul) \<and> fs2 = [] \<and>
       (message_small p \<longrightarrow> message_summary q = message_summary p)"
    by (rule does_run [OF message_copy_does(1) [OF cp] c]) blast
  show "p \<noteq> Nul" "message_ok p" "q \<noteq> Nul" "message_ok q"
    "message_small p \<longrightarrow> message_summary q = message_summary p"
    using r(4) c(4) by blast+
  have m: "mset bs1 = mset (message_blocks p @ fs1)" "mset bs2 = mset (message_blocks q)" using r(4) c(4) by simp_all
  have d: "distinct (message_blocks p @ fs1)" "set (message_blocks p @ fs1) = set bs1"
    "distinct (message_blocks q)" "set (message_blocks q) = set bs2"
    using m r(2) c(2) by (metis mset_eq_imp_distinct_iff, metis mset_eq_setD, metis mset_eq_imp_distinct_iff,
        metis mset_eq_setD)
  have n1: "next_blk m1 = ?nb + length bs1" by (simp add: r(1))
  let ?own = "message_blocks p @ message_blocks q" and ?nb' = "?nb + length bs1 + length bs2"
  have m2: "m2 = (ev_mem s)\<lparr>next_blk := ?nb', freed := freed (ev_mem s) @ fs1\<rparr>"
    using c(1,4) r(1) by simp
  have disj: "set bs1 \<inter> set bs2 = {}" unfolding r(3) c(3) n1 by auto
  have dist: "distinct (?own @ fs1)"
  proof -
    have "set (message_blocks q) \<inter> (set (message_blocks p) \<union> set fs1) = {}" using disj d(2,4) by auto
    with d(1,3) show ?thesis by auto
  qed
  have sub: "set (?own @ fs1) \<subseteq> {?nb ..< ?nb'}"
  proof -
    have "set (?own @ fs1) = set bs1 \<union> set bs2" using d(2,4) by auto
    then show ?thesis unfolding r(3) c(3) n1 by auto
  qed
  show "bot_inv H (s\<lparr>ev_mem := m2\<rparr>) xs" "owned_once (s\<lparr>ev_mem := m2\<rparr>) (cached_blocks s xs @ ?own)"
    using bot_inv_grow [OF inv m2 dist sub] by simp_all
qed

lemma json_ok_None: "json_laws J \<Longrightarrow> message_json_ok J k None \<and> interaction_json_ok J k None"
proof (induction k)
  case (Suc k)
  then show ?case by (auto simp: json_laws_def json_items_def ids_json_ok_def)
qed simp

text \<open>A bot with the message 5 in its cache, in the blocks 0 and 1, and a document with another.\<close>

definition five_fields :: message_fields where
  "five_fields = \<lparr>ms_id = 5, ms_channel_id = 8, ms_guild_id = 0, ms_user = Nul, ms_member = Nul,
     ms_content = Ptr 1 ''hi'', ms_timestamp = Nul, ms_edited_timestamp = Nul, ms_tts = False,
     ms_mention_everyone = False, ms_mentions = Nul, ms_mention_roles = Nul,
     ms_mention_channels = Nul, ms_attachments = Nul, ms_embeds = Nul, ms_reactions = Nul,
     ms_nonce = Nul, ms_pinned = False, ms_webhook_id = 0, ms_type = 0, ms_activity = Nul,
     ms_application = Nul, ms_application_id = 0, ms_message_reference = Nul, ms_flags = 0,
     ms_thread = Nul, ms_components = Nul, ms_sticker_items = Nul, ms_stickers = Nul\<rparr>"

abbreviation five :: "discord_message ptr" where "five \<equiv> Ptr 0 (Message five_fields Nul Nul)"

definition five_entry :: entry where "five_entry = (5, block_addr 0, block_addr 2)"

definition one_buffer :: "entry list \<Rightarrow> (u64 \<Rightarrow> addr) buffer" where
  "one_buffer xs = (demo_buffer xs)\<lparr>c_objs := map_of (map (\<lambda>x. (e_cont x, e_id x)) xs)\<rparr>"

definition one_bot :: "(u64 \<Rightarrow> addr) bot_state" where
  "one_bot = \<lparr>ev_mem = \<lparr>next_blk = 3, freed = [], bad = False\<rparr>,
     ev_caches = (demo_caches [])\<lparr>messages := one_buffer [five_entry]\<rparr>,
     ev_message = (\<lambda>_. five), ev_channel = (\<lambda>_. Nul), ev_user = Nul, ev_session_id = Nul, ev_calls = []\<rparr>"

definition six_json :: jval where
  "six_json = JObj [(''id'', JStr ''6''), (''content'', JStr ''hello'')]"

lemma five_ok: "message_ok five" "message_copyable five" "message_blocks five = [0, 1]" "message_id five = 5"
    "message_small five"
  by (simp_all add: five_fields_def message_fields_ok_def member_ok_def arr_ok_def ids_ok_def nul_array_def
      channel_ok_def channel_icon_def message_own_blocks_def author_blocks_def user_blocks_def arr_blocks_def
      channel_blocks_def message_id_def message_small_def fits_def user_small_def arr_all_def)

lemma one_bot_inv: "bot_inv fun_map one_bot [five_entry]"
proof -
  have addr: "block_addr 0 = 16" "block_addr 2 = 48" by (simp_all add: block_addr_def)
  have "cache_rep fun_map (one_buffer [five_entry]) [five_entry]"
    by (simp add: cache_rep_def one_buffer_def demo_buffer_def map_ok_def entry_ok_def five_entry_def addr)
      (simp add: fun_map_def)
  then have "caches_rep fun_map MESSAGES (ev_caches one_bot) [five_entry]"
    by (simp add: caches_rep_def one_bot_def get_cache_def demo_caches_def default_callback_ok one_buffer_def
        demo_buffer_def)
  moreover have "list_all (cached_ok one_bot) [five_entry]"
    using five_ok by (simp add: cached_ok_def one_bot_def five_entry_def ptr_addr_def)
  moreover have "owned_once one_bot (cached_blocks one_bot [five_entry])"
    using five_ok(3) by (simp add: owned_once_def cached_blocks_def one_bot_def)
  moreover have "nodes_allocated one_bot"
    by (auto simp: nodes_allocated_def one_bot_def get_cache_def one_buffer_def demo_buffer_def five_entry_def
        split: if_splits intro!: exI [of _ "2 :: nat"])
  ultimately show ?thesis by (simp add: bot_inv_def one_bot_def)
qed

abbreviation six :: "nat \<Rightarrow> nat \<Rightarrow> discord_message ptr" where
  "six b c \<equiv> Ptr b (Message (five_fields\<lparr>ms_id := 6, ms_channel_id := 0, ms_content := Ptr c ''hello''\<rparr>) Nul Nul)"

lemma six_run: "run_state (json_to_message small_json (Suc k) (Some six_json)) m =
    (six (next_blk m) (Suc (next_blk m)), m\<lparr>next_blk := Suc (Suc (next_blk m))\<rparr>)"
proof -
  have six: "strtoull10 ''6'' = 6"
    by (simp add: strtoull10_def is_space_char_def is_digit_char_def parse_digits_def digit_value_def)
  show ?thesis
    by (simp add: six_json_def read_message_def fresh_blk_def free_blk_def read_item_def Let_def
        json_message_content_def get_array_from_json_def get_ids_from_json_def stub_defs five_fields_def six)
qed

lemma six_copied: "run_state (copy_message (six b c)) m =
    (six (next_blk m) (Suc (next_blk m)), m\<lparr>next_blk := Suc (Suc (next_blk m))\<rparr>)"
  by (simp add: copy_message_reference_def copy_message_body_def five_fields_def fresh_blk_def copy_str_def
      copy_array_def copy_ids_def copy_member_def copy_user_def copy_channel_def stub_defs strndup_def)

lemma six_ok: "message_copyable (six b c)" "message_id (six b c) = 6"
  by (simp_all add: five_fields_def message_fields_ok_def member_ok_def arr_ok_def ids_ok_def nul_array_def
      channel_ok_def channel_icon_def message_id_def)

lemma six_json_ok: "json_depth small_json (Suc (Suc k)) six_json"
    "message_json_ok small_json (Suc k) (Some six_json)"
  using json_ok_None [OF small_json_laws] by (simp_all add: six_json_def ids_json_ok_def)

text \<open>The copy that the application gets is a structure of its own.\<close>

lemma message_created:
  assumes "bot_inv H s xs" and "json_laws J" and "json_depth J nesting_limit j"
    and "message_json_ok J nesting_limit (Some j)"
    and "run_state (json_to_message J nesting_limit (Some j)) (ev_mem s) = (p, m1)"
    and "message_copyable p" and "run_state (copy_message p) m1 = (q, m2)"
    and "message_id p \<notin> e_id ` set xs" and "\<forall>m k v. hm_put H m k v \<noteq> None"
    and "next_blk m2 < 2 ^ 59"
    and "run_state (handle_message_create H J (Some j)) s = (u, s')"
  shows "\<exists>n. bot_inv H s' (kept s xs (message_id p, ptr_addr p, n)) \<and>
    owned_once s' (cached_blocks s' (kept s xs (message_id p, ptr_addr p, n)) @ message_blocks q) \<and>
    ev_calls s' = ev_calls s @ [On_Message q] \<and> message_ok q \<and> q \<noteq> Nul \<and>
    (message_small p \<longrightarrow> message_summary q = message_summary p)"
proof -
  note rc = message_read_and_copied [OF assms(1) assms(5) assms(2-4) assms(6,7)]
  let ?s = "s\<lparr>ev_mem := m2\<rparr>"
  have blocks: "cached_blocks ?s xs = cached_blocks s xs" by (simp add: cached_blocks_def)
  have own: "owned_once ?s (cached_blocks ?s xs @ message_blocks p)"
    using rc(7) unfolding blocks by (auto simp: owned_once_def)
  have run: "run_state (handle_message_create H J (Some j)) s =
      (case run_state (discord_cache_set_message H p) ?s of (_, t) \<Rightarrow> ((), t\<lparr>ev_calls := ev_calls t @ [On_Message q]\<rparr>))"
    by (simp add: handle_message_create_def assms(5,7))
  have bound: "next_blk (ev_mem ?s) < 2 ^ 59" using assms(10) by simp
  obtain n t where t: "run_state (discord_cache_set_message H p) ?s = ((), t)"
      "bot_inv H t (kept ?s xs (message_id p, ptr_addr p, n))" "ev_calls t = ev_calls ?s"
      "next_blk (ev_mem t) = Suc (next_blk (ev_mem ?s))"
      "set (cached_blocks t (kept ?s xs (message_id p, ptr_addr p, n)) @ freed (ev_mem t)) \<subseteq>
        set (cached_blocks ?s xs @ message_blocks p @ freed (ev_mem ?s))"
    by (rule cache_message_new [OF rc(6,1,2) assms(8) own assms(9) bound]) blast
  let ?ys = "kept s xs (message_id p, ptr_addr p, n)"
  have k: "kept ?s xs y = kept s xs y" for y by (simp add: kept_def)
  have s': "s' = t\<lparr>ev_calls := ev_calls t @ [On_Message q]\<rparr>" using run t(1) assms(11) by simp
  have q: "distinct (message_blocks q)" "set (message_blocks q) \<subseteq> {..<next_blk m2}"
    "set (message_blocks q) \<inter> set (cached_blocks s xs @ message_blocks p @ freed (ev_mem ?s)) = {}"
    using rc(7) by (auto simp: owned_once_def)
  have "owned_once t (cached_blocks t ?ys)" using t(2) unfolding k by (simp add: bot_inv_def)
  then have "owned_once t (cached_blocks t ?ys @ message_blocks q)"
    using q t(4) t(5) [unfolded k blocks] unfolding owned_once_def by fastforce
  then have "owned_once s' (cached_blocks s' ?ys @ message_blocks q)" by (simp add: s' owned_once_def)
  with t rc(3-5) show ?thesis
    unfolding k by (intro exI [of _ n]) (auto simp: s')
qed



text \<open>Looking up a message moves its entry to the end.\<close>

lemma mset_concat_map: "mset xs = mset ys \<Longrightarrow> mset (concat (map f xs)) = mset (concat (map f ys))"
proof -
  have "mset (concat (map f zs)) = (\<Sum>z \<in># mset zs. mset (f z))" for zs by (induction zs) simp_all
  then show "mset xs = mset ys \<Longrightarrow> mset (concat (map f xs)) = mset (concat (map f ys))" by simp
qed

lemma owned_once_mset: "mset bs = mset cs \<Longrightarrow> owned_once s bs = owned_once s cs"
  unfolding owned_once_def by (metis mset_append mset_eq_imp_distinct_iff set_mset_mset)

lemma bot_inv_caches:
  assumes "bot_inv H s xs" and "caches_rep H MESSAGES cs' ys" and "mset ys = mset xs"
    and "c_nodes (get_cache MESSAGES cs') = c_nodes (get_cache MESSAGES (ev_caches s))"
  shows "bot_inv H (s\<lparr>ev_caches := cs'\<rparr>) ys"
proof -
  let ?s' = "s\<lparr>ev_caches := cs'\<rparr>"
  have inv: "list_all (cached_ok s) xs" "owned_once s (cached_blocks s xs)" "nodes_allocated s" "\<not> bad (ev_mem s)"
    using assms(1) by (simp_all add: bot_inv_def)
  have "cached_ok ?s' = cached_ok s" by (intro ext) (simp add: cached_ok_def)
  moreover have "cached_blocks ?s' = cached_blocks s" by (intro ext) (simp add: cached_blocks_def)
  moreover have "owned_once ?s' = owned_once s" by (intro ext) (simp add: owned_once_def)
  moreover have "owned_once s (cached_blocks s ys)"
    using owned_once_mset [of "cached_blocks s ys" "cached_blocks s xs" s] inv(2) assms(3)
    by (simp add: cached_blocks_def mset_concat_map [OF assms(3)])
  moreover have "list_all (cached_ok s) ys" using inv(1) mset_eq_setD [OF assms(3)] by (simp add: list_all_iff)
  moreover have "nodes_allocated ?s'" using inv(3) assms(4) by (simp add: nodes_allocated_def)
  ultimately show ?thesis using assms(2) inv(4) by (simp add: bot_inv_def)
qed

lemma cached_address:
  assumes inv: "bot_inv H s xs" and x: "x \<in> set xs" and bound: "next_blk (ev_mem s) \<le> 2 ^ 59"
  shows "e_cont x \<noteq> NULL"
proof -
  let ?p = "ev_message s (e_cont x)"
  have p: "ptr_addr ?p = e_cont x" "?p \<noteq> Nul"
    using inv x by (simp_all add: bot_inv_def list_all_iff cached_ok_def Let_def)
  obtain b where b: "b \<in> set (message_blocks ?p)" "ptr_addr ?p = block_addr b"
    using message_blocks_head p(2) by meson
  have "b \<in> set (cached_blocks s xs)" using b(1) x by (auto simp: cached_blocks_def)
  then have "b < 2 ^ 59" using inv bound by (auto simp: bot_inv_def owned_once_def)
  from block_addr_not_NULL [OF this] show ?thesis using b(2) p(1) by simp
qed

lemma cache_get_run:
  assumes inv: "bot_inv H s xs" and bound: "next_blk (ev_mem s) \<le> 2 ^ 59"
  obtains s' where
    "run_state (discord_cache_get_message H i) s =
      (if i \<in> e_id ` set xs then ev_message s (find_cont i xs) else Nul, s')"
    "bot_inv H s' (touch i xs)" "ev_mem s' = ev_mem s" "ev_message s' = ev_message s" "ev_calls s' = ev_calls s"
proof -
  have rep: "cache_rep H (get_cache MESSAGES (ev_caches s)) xs" "callback_ok (destroy_item_callback (ev_caches s))"
      "0 \<le> c_max (get_cache MESSAGES (ev_caches s))"
    using inv by (simp_all add: bot_inv_def caches_rep_def)
  obtain cs' where cs': "discord_cache_get H MESSAGES i (ev_caches s) = Some (find_cont i xs, cs')"
      "cache_rep H (get_cache MESSAGES cs') (touch i xs)" "only_changes MESSAGES (ev_caches s) cs'"
    using cache_get_ok [OF rep(1), of i] by blast
  have "caches_rep H MESSAGES cs' (touch i xs)"
    using cs'(2,3) rep(2,3) by (simp add: caches_rep_def only_changes_def)
  from bot_inv_caches [OF inv this mset_touch get_nodes [OF cs'(1)]]
  have inv': "bot_inv H (s\<lparr>ev_caches := cs'\<rparr>) (touch i xs)" .
  have addr: "find_cont i xs = NULL \<longleftrightarrow> i \<notin> e_id ` set xs"
  proof (cases "i \<in> e_id ` set xs")
    case True
    then obtain x where x: "x \<in> set xs" "i = e_id x" by auto
    have "find_cont i xs = e_cont x" using find_cont_in [of xs x] rep(1) x by (simp add: cache_rep_def)
    then show ?thesis using cached_address [OF inv x(1) bound] True by simp
  qed (simp add: find_cont_out)
  have "run_state (discord_cache_get_message H i) s =
      (if i \<in> e_id ` set xs then ev_message s (find_cont i xs) else Nul, s\<lparr>ev_caches := cs'\<rparr>)"
    using addr by (simp add: discord_cache_get_message_def cache_get_def cs'(1))
  then show thesis using inv' by (rule that) simp_all
qed

text \<open>C20. When a message is deleted the application gets a copy of the cached message, with its
  content and in memory of its own, or NULL when it is not cached, and the three IDs; the message
  itself stays in the cache, as the newest entry.\<close>

theorem message_delete_keeps_cached:
  assumes "bot_inv H s xs" and "id_from_string J data ''id'' = i" and "i \<noteq> 0"
    and "\<forall>x \<in> set xs. message_copyable (ev_message s (e_cont x))"
    and "next_blk (ev_mem s) \<le> 2 ^ 59"
    and "run_state (handle_message_delete H J data) s = (u, s')"
  shows "\<exists>q. bot_inv H s' (touch i xs) \<and>
    ev_calls s' = ev_calls s @ [On_Message_Delete i (id_from_string J data ''channel_id'')
      (id_from_string J data ''guild_id'') q] \<and>
    (i \<notin> e_id ` set xs \<longrightarrow> q = Nul) \<and>
    (\<forall>x \<in> set xs. e_id x = i \<longrightarrow> message_small (ev_message s (e_cont x)) \<longrightarrow>
      message_summary q = message_summary (ev_message s (e_cont x))) \<and>
    set (message_blocks q) \<inter> set (cached_blocks s' (touch i xs) @ freed (ev_mem s')) = {}"
proof -
  obtain t where t: "run_state (discord_cache_get_message H i) s =
      (if i \<in> e_id ` set xs then ev_message s (find_cont i xs) else Nul, t)"
      "bot_inv H t (touch i xs)" "ev_mem t = ev_mem s" "ev_message t = ev_message s" "ev_calls t = ev_calls s"
    by (rule cache_get_run [OF assms(1,5)])
  let ?c = "if i \<in> e_id ` set xs then ev_message s (find_cont i xs) else Nul"
  have dist: "distinct (map e_id xs)" using assms(1) by (simp add: bot_inv_def caches_rep_def cache_rep_def)
  have c: "?c = ev_message s (e_cont x)" if "x \<in> set xs" "e_id x = i" for x
    using that find_cont_in [OF dist that(1)] by auto
  have cp: "message_copyable ?c"
  proof (cases "i \<in> e_id ` set xs")
    case True
    then obtain x where x: "x \<in> set xs" "e_id x = i" by auto
    show ?thesis unfolding c [OF x] using assms(4) x(1) by (rule bspec)
  qed simp
  obtain q m2 where q: "run_state (copy_message ?c) (ev_mem s) = (q, m2)" by (rule prod.exhaust)
  obtain bs fs where m2: "m2 = (ev_mem s)\<lparr>next_blk := next_blk (ev_mem s) + length bs, freed := freed (ev_mem s) @ fs\<rparr>"
      "distinct bs" "set bs = {next_blk (ev_mem s) ..< next_blk (ev_mem s) + length bs}"
      "mset (message_blocks q) = mset bs \<and> message_ok q \<and> (q = Nul \<longleftrightarrow> ?c = Nul) \<and> fs = [] \<and>
       (message_small ?c \<longrightarrow> message_summary q = message_summary ?c)"
    by (rule does_run [OF message_copy_does(1) [OF cp] q]) blast
  have qs: "distinct (message_blocks q)" "set (message_blocks q) = set bs"
    using m2(2,4) by (metis mset_eq_imp_distinct_iff, metis mset_eq_setD)
  let ?t = "t\<lparr>ev_mem := m2\<rparr>" and ?nb = "next_blk (ev_mem s) + length bs"
  have "m2 = (ev_mem t)\<lparr>next_blk := ?nb, freed := freed (ev_mem t) @ []\<rparr>" using m2(1,4) t(3) by simp
  note g = bot_inv_grow [OF t(2) this, of "message_blocks q"]
  have inv: "bot_inv H ?t (touch i xs)" "owned_once ?t (cached_blocks t (touch i xs) @ message_blocks q)"
    using g qs m2(3) t(3) by simp_all
  have s': "s' = ?t\<lparr>ev_calls := ev_calls s @ [On_Message_Delete i (id_from_string J data ''channel_id'')
      (id_from_string J data ''guild_id'') q]\<rparr>"
    using assms(6) assms(2,3) q t by (simp add: handle_message_delete_def)
  have blocks: "cached_blocks s' (touch i xs) = cached_blocks t (touch i xs)" "ev_mem s' = m2"
    by (simp_all add: s' cached_blocks_def)
  have disj: "set (message_blocks q) \<inter> set (cached_blocks t (touch i xs) @ freed m2) = {}"
    using inv(2) by (auto simp: owned_once_def)
  show ?thesis
  proof (intro exI [of _ q] conjI ballI impI)
    show "bot_inv H s' (touch i xs)" using inv(1) by (simp add: s')
    show "ev_calls s' = ev_calls s @ [On_Message_Delete i (id_from_string J data ''channel_id'')
      (id_from_string J data ''guild_id'') q]" by (simp add: s')
    show "q = Nul" if "i \<notin> e_id ` set xs" using m2(4) that by simp
    show "message_summary q = message_summary (ev_message s (e_cont x))"
      if "x \<in> set xs" "e_id x = i" "message_small (ev_message s (e_cont x))" for x
      using m2(4) c [OF that(1,2)] that(3) by simp
    show "set (message_blocks q) \<inter> set (cached_blocks s' (touch i xs) @ freed (ev_mem s')) = {}"
      unfolding blocks by (rule disj)
  qed
qed

theorem message_delete_keeps_cached_witness:
  "\<exists>q. ev_calls (snd (run_state (handle_message_delete fun_map small_json (Some (JObj [(''id'', JStr ''5'')]))) one_bot)) =
       [On_Message_Delete 5 0 0 q] \<and> message_summary q = message_summary five"
proof -
  let ?d = "Some (JObj [(''id'', JStr ''5'')])"
  have "strtoull10 ''5'' = 5"
    by (simp add: strtoull10_def is_space_char_def is_digit_char_def parse_digits_def digit_value_def)
  then have i: "id_from_string small_json ?d ''id'' = 5" "id_from_string small_json ?d ''channel_id'' = 0"
      "id_from_string small_json ?d ''guild_id'' = 0"
    by (simp_all add: id_from_string_def) (simp_all add: small_json_def)
  have m: "ev_message one_bot x = five" for x by (simp add: one_bot_def)
  obtain u s' where s': "run_state (handle_message_delete fun_map small_json ?d) one_bot = (u, s')"
    by (rule prod.exhaust)
  have bound: "next_blk (ev_mem one_bot) \<le> 2 ^ 59" by (simp add: one_bot_def)
  have cp: "\<forall>x \<in> set [five_entry]. message_copyable (ev_message one_bot (e_cont x))" unfolding m using five_ok(2) by blast
  have five: "five_entry \<in> set [five_entry]" "e_id five_entry = 5" by (simp_all add: five_entry_def)
  have "ev_calls one_bot = []" by (simp add: one_bot_def)
  moreover note message_delete_keeps_cached [OF one_bot_inv i(1) _ cp bound s', unfolded i m]
  ultimately obtain q where "ev_calls s' = [On_Message_Delete 5 0 0 q]"
      "\<forall>x \<in> set [five_entry]. e_id x = 5 \<longrightarrow> message_small five \<longrightarrow> message_summary q = message_summary five"
    by force
  then show ?thesis using five five_ok(5) s' by (metis snd_conv)
qed

end
