(* ===== verification/Gateway_Safety.thy ===== *)
theory Gateway_Safety
  imports Gateway Event_Safety
begin

text \<open>
  What the web socket and the gateway keep true: fragments are put together, there is never more than
  one heartbeat thread and none when the event loop has returned, the session and the sequence
  number are those of the messages that have been received, and heartbeats are sent in time.
\<close>

section \<open>What an operation leaves alone\<close>

definition preserves :: "('s \<Rightarrow> 'v) \<Rightarrow> ('s, 'a) state \<Rightarrow> bool" where
  "preserves f c \<longleftrightarrow> (\<forall>s. f (snd (run_state c s)) = f s)"

named_theorems preserves_intros \<open>rules for what operations leave alone\<close>

lemma preservesD: "preserves f c \<Longrightarrow> run_state c s = (y, t) \<Longrightarrow> f t = f s"
  unfolding preserves_def by (metis snd_conv)

lemma preserves_return [preserves_intros]: "preserves f (State_Monad.return y)"
  by (simp add: preserves_def State_Monad.return_def)

lemma preserves_bind [preserves_intros]:
  "preserves f c \<Longrightarrow> (\<And>y. preserves f (g y)) \<Longrightarrow> preserves f (State_Monad.bind c g)"
  by (simp add: preserves_def State_Monad.bind_def split: prod.split) (metis snd_conv)

lemma preserves_if [preserves_intros]:
  "(b \<Longrightarrow> preserves f c) \<Longrightarrow> (\<not> b \<Longrightarrow> preserves f d) \<Longrightarrow> preserves f (if b then c else d)"
  by simp

lemma preserves_option [preserves_intros]:
  "preserves f c \<Longrightarrow> (\<And>y. preserves f (g y)) \<Longrightarrow> preserves f (case p of None \<Rightarrow> c | Some y \<Rightarrow> g y)"
  by (cases p) simp_all

lemma preserves_ptr [preserves_intros]:
  "preserves f c \<Longrightarrow> (\<And>b y. preserves f (g b y)) \<Longrightarrow> preserves f (case p of Nul \<Rightarrow> c | Ptr b y \<Rightarrow> g b y)"
  by (cases p) simp_all

lemma preserves_read [preserves_intros]: "preserves f (State (\<lambda>s. (g s, s)))"
  by (simp add: preserves_def)

section \<open>The session ID in the event handlers\<close>

lemma in_memory_session [preserves_intros]: "preserves ev_session_id (in_memory c)"
  by (simp add: preserves_def in_memory_def split: prod.split)

lemma call_session [preserves_intros]: "preserves ev_session_id (call c)"
  by (simp add: preserves_def call_def)

lemma cache_get_session [preserves_intros]: "preserves ev_session_id (cache_get H ty i)"
  by (auto simp: preserves_def cache_get_def in_memory_def split: option.splits prod.splits)

lemma cache_set_session [preserves_intros]: "preserves ev_session_id (cache_set H ty d i)"
  unfolding cache_set_def
  by (intro preserves_intros)
    (auto simp: preserves_def in_memory_def Let_def split: option.splits prod.splits)

lemma cache_wrappers_session [preserves_intros]:
  "preserves ev_session_id (discord_cache_set_message H p)"
  "preserves ev_session_id (discord_cache_set_channel H q)"
  "preserves ev_session_id (discord_cache_get_message H i)"
  "preserves ev_session_id (discord_cache_get_channel H i)"
  unfolding discord_cache_set_message_def discord_cache_set_channel_def discord_cache_get_message_def
    discord_cache_get_channel_def
  by (intro preserves_intros; simp add: preserves_def)+

lemma handlers_session [preserves_intros]:
  "preserves ev_session_id (handle_channel_create H J data)"
  "preserves ev_session_id (handle_channel_update H J data)"
  "preserves ev_session_id (handle_channel_delete H J data)"
  "preserves ev_session_id (handle_message_create H J data)"
  "preserves ev_session_id (handle_message_update H J data)"
  "preserves ev_session_id (handle_message_delete H J data)"
  "preserves ev_session_id (handle_interaction_create J data)"
  unfolding handle_channel_create_def handle_channel_update_def handle_channel_delete_def
    handle_message_create_def handle_message_update_def handle_message_delete_def
    handle_interaction_create_def Let_def
  by (intro preserves_intros)+

text \<open>The session ID a READY event brings, and the one that is kept.\<close>

definition ready_session :: "'j cjson \<Rightarrow> 'j option \<Rightarrow> string option" where
  "ready_session J data =
     (case get_object_item J data ''session_id'' of
        None \<Rightarrow> None
      | Some f \<Rightarrow> (case valuestring J f of None \<Rightarrow> None | Some v \<Rightarrow> Some (strndup v 100)))"

definition session :: "'m bot_state \<Rightarrow> string option" where
  "session s = (case ev_session_id s of Nul \<Rightarrow> None | Ptr _ v \<Rightarrow> Some v)"

lemma session_unchanged: "preserves ev_session_id c \<Longrightarrow> session (snd (run_state c s)) = session s"
  by (simp add: preserves_def session_def)

lemma handle_ready_session:
  "session (snd (run_state (handle_ready J callback data) s)) =
     (case ready_session J data of None \<Rightarrow> session s | Some v \<Rightarrow> Some v)"
proof -
  let ?first = "case get_object_item J data ''user'' of
      None \<Rightarrow> State_Monad.return ()
    | Some user_data \<Rightarrow> do {
        old \<leftarrow> State (\<lambda>s. (ev_user s, s));
        _ \<leftarrow> in_memory (when_ptr destroy_user old);
        user \<leftarrow> in_memory (json_to_user J (Some user_data));
        State (\<lambda>s. ((), s\<lparr>ev_user := user\<rparr>)) }"
  have "preserves ev_session_id (State (\<lambda>s. ((), s\<lparr>ev_user := user\<rparr>)))" for user
    by (simp add: preserves_def)
  then have "preserves ev_session_id ?first" by (intro preserves_intros)
  then obtain u t where t: "run_state ?first s = (u, t)" "ev_session_id t = ev_session_id s"
    by (cases "run_state ?first s") (auto dest: preservesD)
  show ?thesis
    unfolding handle_ready_def
    by (simp add: t(1) bind_def)
      (auto simp: ready_session_def session_def in_memory_def call_def fresh_blk_def fault_def t(2)
        split: option.splits)
qed

lemma event_session:
  "session (snd (run_state (event_handle H J (Some cb) data event) s)) =
     (if event = ''READY'' then (case ready_session J data of None \<Rightarrow> session s | Some v \<Rightarrow> Some v)
      else session s)"
proof -
  have ready: "find_handler event = Handle_Ready \<longleftrightarrow> event = ''READY''"
    using find_handler_iff [of Handle_Ready event] by (auto simp: event_table_def)
  show ?thesis
  proof (cases "event = ''READY''")
    case True
    then have "find_handler event = Handle_Ready" using ready by blast
    with True show ?thesis by (simp add: event_handle_def handle_ready_session)
  next
    case False
    then have "find_handler event \<noteq> Handle_Ready" using ready by blast
    then have "preserves ev_session_id (event_handle H J (Some cb) data event)"
      by (cases "find_handler event") (auto simp: event_handle_def intro: preserves_intros)
    with False show ?thesis by (simp add: session_unchanged)
  qed
qed

section \<open>The session and the sequence number\<close>

text \<open>What a received text is: an opcode and the document it comes in, or nothing the code acts on.\<close>

definition payload_of :: "'j json_lib \<Rightarrow> string \<Rightarrow> (int \<times> 'j) option" where
  "payload_of L data =
     (case parse_json L (c_str data) of
        None \<Rightarrow> None
      | Some result \<Rightarrow>
          (case item_cs L (Some result) ''op'' of
             None \<Rightarrow> None
           | Some op \<Rightarrow> if is_number (access L) (Some op) then Some (valueint (access L) op, result) else None))"

definition event_of :: "'j json_lib \<Rightarrow> 'j \<Rightarrow> string option" where
  "event_of L json = (case item_cs L (Some json) ''t'' of None \<Rightarrow> None | Some t \<Rightarrow> valuestring (access L) t)"

definition seq_step :: "'j json_lib \<Rightarrow> string \<Rightarrow> int \<Rightarrow> int" where
  "seq_step L data seq =
     (case payload_of L data of
        None \<Rightarrow> seq
      | Some (op, json) \<Rightarrow>
          if op = DISCORD_DISPATCH then next_seq L json seq
          else if op = DISCORD_INVALID_SESSION then - 1 else seq)"

definition session_step :: "'j json_lib \<Rightarrow> string \<Rightarrow> string option \<Rightarrow> string option" where
  "session_step L data sess =
     (case payload_of L data of
        None \<Rightarrow> sess
      | Some (op, json) \<Rightarrow>
          if op = DISCORD_DISPATCH \<and> event_of L json = Some ''READY''
          then (case ready_session (access L) (item_cs L (Some json) ''d'') of None \<Rightarrow> sess | Some v \<Rightarrow> Some v)
          else sess)"

lemma gateway_on_receive_payload:
  "gateway_on_receive H L cb data len =
     (case payload_of L data of None \<Rightarrow> State_Monad.return () | Some (op, json) \<Rightarrow> handle_opcode H L cb json op)"
  by (simp add: gateway_on_receive_def payload_of_def split: option.splits)

text \<open>What the handlers of the other opcodes leave alone.\<close>

lemma in_bot_preserves [preserves_intros]:
  "preserves b_client (in_bot c)" "preserves b_seq (in_bot c)" "preserves b_threads (in_bot c)"
  "preserves b_effects (in_bot c)" "preserves b_exited (in_bot c)" "preserves b_interval (in_bot c)"
  "preserves b_next_thread (in_bot c)"
  by (simp_all add: preserves_def in_bot_def split: prod.split)

lemma in_bot_session [preserves_intros]:
  "preserves ev_session_id c \<Longrightarrow> preserves (\<lambda>s. session (b_state s)) (in_bot c)"
  by (auto simp: preserves_def in_bot_def session_def split: prod.splits) (metis snd_conv)

lemma effect_preserves [preserves_intros]:
  "preserves b_client (effect e)" "preserves b_seq (effect e)" "preserves b_threads (effect e)"
  "preserves b_state (effect e)" "preserves (\<lambda>s. session (b_state s)) (effect e)"
  by (simp_all add: preserves_def effect_def)

lemma client_preserves [preserves_intros]: "preserves f client"
  by (simp add: preserves_def client_def)

lemma set_client_preserves [preserves_intros]:
  "preserves b_seq (set_client g)" "preserves b_threads (set_client g)"
  "preserves (\<lambda>s. session (b_state s)) (set_client g)"
  by (simp_all add: preserves_def set_client_def)

abbreviation token :: "'m bot \<Rightarrow> string" where "token s \<equiv> ws_token (b_client s)"

lemma set_client_token [preserves_intros]:
  "(\<And>c. ws_token (g c) = ws_token c) \<Longrightarrow> preserves token (set_client g)"
  by (simp add: preserves_def set_client_def)

lemma token_preserves [preserves_intros]: "preserves b_client c \<Longrightarrow> preserves token c"
  by (simp add: preserves_def)

lemma thread_preserves [preserves_intros]:
  "preserves token pthread_create_heartbeat" "preserves token pthread_join_heartbeat"
  "preserves b_seq pthread_create_heartbeat" "preserves b_seq pthread_join_heartbeat"
  "preserves (\<lambda>s. session (b_state s)) pthread_create_heartbeat"
  "preserves (\<lambda>s. session (b_state s)) pthread_join_heartbeat"
  by (simp_all add: preserves_def pthread_create_heartbeat_def pthread_join_heartbeat_def Let_def)

lemma sprintf_buffer_preserves [preserves_intros]:
  "preserves b_client (sprintf_buffer n t)" "preserves b_seq (sprintf_buffer n t)"
  "preserves (\<lambda>s. session (b_state s)) (sprintf_buffer n t)" "preserves b_threads (sprintf_buffer n t)"
  unfolding sprintf_buffer_def by (intro preserves_intros)+

lemma send_preserves [preserves_intros]:
  "preserves b_client gateway_send_heartbeat" "preserves b_seq gateway_send_heartbeat"
  "preserves (\<lambda>s. session (b_state s)) gateway_send_heartbeat" "preserves b_threads gateway_send_heartbeat"
  unfolding gateway_send_heartbeat_def websocket_send_def
  by (intro preserves_intros; simp add: preserves_def)+

lemma identify_preserves [preserves_intros]:
  "preserves token gateway_handle_identify" "preserves b_seq gateway_handle_identify"
  "preserves (\<lambda>s. session (b_state s)) gateway_handle_identify"
  unfolding gateway_handle_identify_def websocket_send_def
  by (intro preserves_intros; simp add: preserves_def)+

lemma close_preserves [preserves_intros]:
  "preserves token websocket_close" "preserves b_seq websocket_close"
  "preserves (\<lambda>s. session (b_state s)) websocket_close"
  unfolding websocket_close_def by (intro preserves_intros; simp)+

lemma interval_preserves [preserves_intros]:
  "preserves b_client (adjust_interval L j)" "preserves b_seq (adjust_interval L j)"
  "preserves (\<lambda>s. session (b_state s)) (adjust_interval L j)" "preserves b_threads (adjust_interval L j)"
  unfolding adjust_interval_def Let_def by (intro preserves_intros; simp add: preserves_def)+

lemma in_bot_run: "run_state (in_bot c) s = (fst (run_state c (b_state s)), s\<lparr>b_state := snd (run_state c (b_state s))\<rparr>)"
  by (simp add: in_bot_def split: prod.split)

lemma bind_run: "snd (run_state (State_Monad.bind c g) s) = snd (run_state (g (fst (run_state c s))) (snd (run_state c s)))"
  by (simp add: bind_def split: prod.split)

lemma dispatch_run:
  assumes "run_state (gateway_handle_dispatch H L (Some cb) json) s = (u, t)"
  shows "b_seq t = next_seq L json (b_seq s)" and "b_client t = b_client s"
    and "session (b_state t) =
      (if event_of L json = Some ''READY''
       then (case ready_session (access L) (item_cs L (Some json) ''d'') of
               None \<Rightarrow> session (b_state s) | Some v \<Rightarrow> Some v)
       else session (b_state s))"
proof -
  let ?s = "s\<lparr>b_seq := next_seq L json (b_seq s)\<rparr>"
  let ?E = "case item_cs L (Some json) ''t'' of
      None \<Rightarrow> in_mem fault
    | Some event_type \<Rightarrow>
        (case valuestring (access L) event_type of
           None \<Rightarrow> if Some cb = None then State_Monad.return () else in_mem fault
         | Some event \<Rightarrow> in_bot (event_handle H (access L) (Some cb) (item_cs L (Some json) ''d'') event))"
  have t: "run_state ?E ?s = (u, t)"
    using assms unfolding gateway_handle_dispatch_def by (simp add: bind_def)
  have "preserves b_client ?E" "preserves b_seq ?E" by (intro preserves_intros)+
  from this [THEN preservesD, OF t]
  show "b_seq t = next_seq L json (b_seq s)" "b_client t = b_client s" by simp_all
  have bad: "session (snd (run_state (in_memory fault) a)) = session a" for a :: "'a bot_state"
    by (rule session_unchanged) (rule in_memory_session)
  show "session (b_state t) = (if event_of L json = Some ''READY''
       then (case ready_session (access L) (item_cs L (Some json) ''d'') of
               None \<Rightarrow> session (b_state s) | Some v \<Rightarrow> Some v)
       else session (b_state s))"
    using t bad [of "b_state ?s"]
    by (auto simp: event_of_def in_bot_run event_session simp del: in_memory_run split: option.splits)
qed

lemma receive_run:
  assumes "run_state (gateway_on_receive H L (Some cb) data len) s = (u, t)"
  shows "b_seq t = seq_step L data (b_seq s)" and "token t = token s"
    and "session (b_state t) = session_step L data (session (b_state s))"
proof -
  have "b_seq t = seq_step L data (b_seq s) \<and> token t = token s \<and>
      session (b_state t) = session_step L data (session (b_state s))"
  proof (cases "payload_of L data")
    case None
    with assms show ?thesis by (simp add: gateway_on_receive_payload seq_step_def session_step_def State_Monad.return_def)
  next
    case (Some r)
    obtain op json where r: "r = (op, json)" by (cases r)
    have run: "run_state (handle_opcode H L (Some cb) json op) s = (u, t)"
      using assms by (simp add: gateway_on_receive_payload Some r)
    consider "op = DISCORD_DISPATCH" | "op = DISCORD_INVALID_SESSION"
      | "op \<noteq> DISCORD_DISPATCH" "op \<noteq> DISCORD_INVALID_SESSION" by blast
    then show ?thesis
    proof cases
      case 1
      let ?s = "s\<lparr>b_client := (b_client s)\<lparr>ws_success_login := True\<rparr>\<rparr>"
      have "run_state (gateway_handle_dispatch H L (Some cb) json) ?s = (u, t)"
        using run 1 by (simp add: handle_opcode_def set_client_def bind_def)
      from dispatch_run [OF this] show ?thesis
        using 1 by (auto simp: Some r seq_step_def session_step_def split: option.splits)
    next
      case 2
      let ?s = "s\<lparr>b_seq := - 1\<rparr>"
      have t: "run_state websocket_close ?s = (u, t)"
        using run 2 by (simp add: handle_opcode_def websocket_reconnect_def bind_def opcode_defs)
      note c = close_preserves [THEN preservesD, OF t]
      then show ?thesis
        using 2 by (simp add: Some r seq_step_def session_step_def opcode_defs)
    next
      case 3
      have ack: "preserves b_seq (State (\<lambda>s. ((), s\<lparr>b_latency := l s\<rparr>)))"
        "preserves token (State (\<lambda>s. ((), s\<lparr>b_latency := l s\<rparr>)))"
        "preserves (\<lambda>s. session (b_state s)) (State (\<lambda>s. ((), s\<lparr>b_latency := l s\<rparr>)))"
        for l :: "'a bot \<Rightarrow> int" by (simp_all add: preserves_def)
      have "preserves b_seq (handle_opcode H L (Some cb) json op)"
        "preserves token (handle_opcode H L (Some cb) json op)"
        "preserves (\<lambda>s. session (b_state s)) (handle_opcode H L (Some cb) json op)"
        unfolding handle_opcode_def by (intro preserves_intros ack; use 3 in simp)+
      from this [THEN preservesD, OF run] show ?thesis
        using 3 by (simp add: Some r seq_step_def session_step_def)
    qed
  qed
  then show "b_seq t = seq_step L data (b_seq s)" "token t = token s"
    "session (b_state t) = session_step L data (session (b_state s))" by blast+
qed

text \<open>The texts received one after the other.\<close>

fun receive_all ::
  "'m hashmap_api \<Rightarrow> 'j json_lib \<Rightarrow> discord_event_callbacks option \<Rightarrow> string list \<Rightarrow> ('m bot, unit) state" where
  "receive_all H L cb [] = State_Monad.return ()"
| "receive_all H L cb (d # ds) = do { _ \<leftarrow> gateway_on_receive H L cb d (length d); receive_all H L cb ds }"

lemma receive_all_run:
  "run_state (receive_all H L (Some cb) ds) s = (u, t) \<Longrightarrow>
   b_seq t = fold (seq_step L) ds (b_seq s) \<and> token t = token s \<and>
   session (b_state t) = fold (session_step L) ds (session (b_state s))"
proof (induction ds arbitrary: s)
  case Nil
  then show ?case by (simp add: State_Monad.return_def)
next
  case (Cons d ds)
  obtain v r where r: "run_state (gateway_on_receive H L (Some cb) d (length d)) s = (v, r)" by (rule prod.exhaust)
  have "run_state (receive_all H L (Some cb) ds) r = (u, t)" using Cons.prems by (simp add: bind_def r)
  from Cons.IH [OF this] receive_run [OF r] show ?case by simp
qed

definition int_range :: "'j json_lib \<Rightarrow> bool" where
  "int_range L \<longleftrightarrow> (\<forall>j. - (2 ^ 31) \<le> valueint (access L) j \<and> valueint (access L) j < 2 ^ 31)"

lemma seq_in_range:
  "int_range L \<Longrightarrow> - (2 ^ 31) \<le> i \<Longrightarrow> i < 2 ^ 31 \<Longrightarrow>
   - (2 ^ 31) \<le> fold (seq_step L) ds i \<and> fold (seq_step L) ds i < 2 ^ 31"
proof (induction ds arbitrary: i)
  case (Cons d ds)
  have "- (2 ^ 31) \<le> seq_step L d i \<and> seq_step L d i < 2 ^ 31"
    using Cons.prems by (auto simp: seq_step_def next_seq_def int_range_def split: option.splits)
  with Cons.IH [of "seq_step L d i"] Cons.prems(1) show ?case by simp
qed simp

lemma session_short:
  "list_all (\<lambda>v. length v \<le> 100) (case i of None \<Rightarrow> [] | Some v \<Rightarrow> [v]) \<Longrightarrow>
   fold (session_step L) ds i = Some v \<Longrightarrow> length v \<le> 100"
proof (induction ds arbitrary: i)
  case (Cons d ds)
  have "list_all (\<lambda>v. length v \<le> 100) (case session_step L d i of None \<Rightarrow> [] | Some v \<Rightarrow> [v])"
    using Cons.prems(1) by (auto simp: session_step_def ready_session_def strndup_def split: option.splits)
  with Cons.IH [of "session_step L d i"] Cons.prems(2) show ?case by simp
qed simp

lemma length_show_int: "- (2 ^ 31) \<le> i \<Longrightarrow> i < 2 ^ 31 \<Longrightarrow> length (show_int i) \<le> 11"
proof -
  assume a: "- (2 ^ 31) \<le> i" "i < 2 ^ 31"
  have "nat (- i) < 10 ^ 10" "nat i < 10 ^ 10" using a by auto
  then have "length (show_nat (nat (- i))) \<le> 10" "length (show_nat (nat i)) \<le> 10"
    by (simp_all add: length_show_nat_le_iff)
  then show ?thesis by (simp add: show_int_def)
qed

lemma sprintf_fits: "length t < n \<Longrightarrow> sprintf_buffer n t = State_Monad.return t"
  by (simp add: sprintf_buffer_def)

lemma heartbeat_run:
  assumes "- (2 ^ 31) \<le> b_seq s" and "b_seq s < 2 ^ 31"
  shows "run_state gateway_send_heartbeat s =
    ((), s\<lparr>b_effects := b_effects s @ [Write (heartbeat_text (b_seq s))], b_last_heartbeat := b_now s\<rparr>)"
proof -
  have "length (heartbeat_text (b_seq s)) < 128"
    using length_show_int [OF assms] by (simp add: heartbeat_text_def)
  then show ?thesis
    by (simp add: gateway_send_heartbeat_def sprintf_fits websocket_send_def effect_def bind_def State_Monad.return_def)
qed

definition answer_to_hello :: "string \<Rightarrow> string option \<Rightarrow> int \<Rightarrow> string" where
  "answer_to_hello tok sess seq =
     (case sess of Some v \<Rightarrow> resume_text tok v seq | None \<Rightarrow> identify_text tok)"

lemma identify_run:
  assumes "- (2 ^ 31) \<le> b_seq s" and "b_seq s < 2 ^ 31" and "length (token s) \<le> 80"
    and "\<And>v. session (b_state s) = Some v \<Longrightarrow> length v \<le> 100"
    and "run_state gateway_handle_identify s = (u, t)"
  shows "b_effects t = b_effects s @ [Write (heartbeat_text (b_seq s)),
      Write (answer_to_hello (token s) (session (b_state s)) (b_seq s))] @
      (if ws_heartbeat_active (b_client s) then [] else [Thread_Create (b_next_thread s)])"
    and "ev_mem (b_state t) = ev_mem (b_state s)"
proof -
  let ?a = "case ev_session_id (b_state s) of
      Ptr _ session_id \<Rightarrow> resume_text (ws_token (b_client s)) session_id (b_seq s)
    | Nul \<Rightarrow> identify_text (ws_token (b_client s))"
  have a: "?a = answer_to_hello (token s) (session (b_state s)) (b_seq s)"
    by (simp add: answer_to_hello_def session_def split: ptr.split)
  have "length ?a < 256"
  proof (cases "ev_session_id (b_state s)")
    case Nul
    then show ?thesis using assms(3) by (simp add: identify_text_def)
  next
    case (Ptr b v)
    then have "length v \<le> 100" using assms(4) by (simp add: session_def)
    with Ptr show ?thesis
      using assms(3) length_show_int [OF assms(1,2)] by (simp add: resume_text_def)
  qed
  then have len: "length (answer_to_hello (token s) (session (b_state s)) (b_seq s)) < 256" unfolding a .
  let ?s = "s\<lparr>b_effects := b_effects s @ [Write (heartbeat_text (b_seq s))], b_last_heartbeat := b_now s\<rparr>"
  have f: "run_state (sprintf_buffer 256 ?a) ?s = (?a, ?s)"
    unfolding a by (simp add: sprintf_fits [OF len] State_Monad.return_def)
  have "run_state gateway_handle_identify s = run_state (do {
      _ \<leftarrow> websocket_send (answer_to_hello (token s) (session (b_state s)) (b_seq s));
      if \<not> ws_heartbeat_active (b_client s)
      then do { _ \<leftarrow> set_client (ws_heartbeat_active_update (\<lambda>_. True)); pthread_create_heartbeat }
      else State_Monad.return () }) ?s"
    unfolding a [symmetric]
    by (cases "ev_session_id (b_state s)"; use f in \<open>simp add: gateway_handle_identify_def bind_def
        heartbeat_run [OF assms(1,2)] client_def in_bot_def State_Monad.return_def\<close>)
  then have "t = snd (run_state (do {
      _ \<leftarrow> websocket_send (answer_to_hello (token s) (session (b_state s)) (b_seq s));
      if \<not> ws_heartbeat_active (b_client s)
      then do { _ \<leftarrow> set_client (ws_heartbeat_active_update (\<lambda>_. True)); pthread_create_heartbeat }
      else State_Monad.return () }) ?s)" using assms(5) by (metis snd_conv)
  then show "b_effects t = b_effects s @ [Write (heartbeat_text (b_seq s)),
      Write (answer_to_hello (token s) (session (b_state s)) (b_seq s))] @
      (if ws_heartbeat_active (b_client s) then [] else [Thread_Create (b_next_thread s)])"
    and "ev_mem (b_state t) = ev_mem (b_state s)"
    by (simp_all add: bind_run websocket_send_def effect_def set_client_def pthread_create_heartbeat_def Let_def
        State_Monad.return_def)
qed

text \<open>C22. After any texts have been received, HELLO is answered by a heartbeat with the last sequence
  number and then, when a READY event has brought a session ID, by a RESUME of exactly that session
  with that number, and by an IDENTIFY otherwise; both fit into their buffers. A heartbeat thread is
  started when none is active. INVALID SESSION resets the number but not the session, so that it is
  resumed again.\<close>

theorem hello_identifies_or_resumes:
  assumes "int_range L" and "length (token s) \<le> 80" and "ev_session_id (b_state s) = Nul" and "b_seq s = - 1"
    and "run_state (receive_all H L (Some cb) ds) s = (u, t)"
    and "payload_of L hello = Some (DISCORD_HELLO, json)"
    and "run_state (gateway_on_receive H L (Some cb) hello len) t = (v, s')"
  shows "b_effects s' = b_effects t @
      [Write (heartbeat_text (fold (seq_step L) ds (- 1))),
       Write (answer_to_hello (token s) (fold (session_step L) ds None) (fold (seq_step L) ds (- 1)))] @
      (if ws_heartbeat_active (b_client t) then [] else [Thread_Create (b_next_thread t)]) \<and>
    bad (ev_mem (b_state s')) = bad (ev_mem (b_state t))"
proof -
  have t: "b_seq t = fold (seq_step L) ds (- 1)" "token t = token s"
      "session (b_state t) = fold (session_step L) ds None"
    using receive_all_run [OF assms(5)] assms(3,4) by (simp_all add: session_def)
  have r: "- (2 ^ 31) \<le> b_seq t" "b_seq t < 2 ^ 31"
    using seq_in_range [OF assms(1), of "- 1" ds] by (simp_all add: t(1))
  have len: "length i \<le> 100" if "session (b_state t) = Some i" for i
    by (rule session_short [of None L ds i]) (use that t(3) in simp_all)
  obtain w r' where i: "run_state gateway_handle_identify t = (w, r')" by (rule prod.exhaust)
  have tok: "length (token t) \<le> 80" using assms(2) t(2) by simp
  note I = identify_run [OF r tok len i]
  have "run_state (adjust_interval L json) r' = (v, s')"
    using assms(7) by (simp add: gateway_on_receive_payload assms(6) handle_opcode_def opcode_defs bind_def i)
  moreover have "preserves b_effects (adjust_interval L json)" "preserves b_state (adjust_interval L json)"
    unfolding adjust_interval_def Let_def by (intro preserves_intros; simp add: preserves_def)+
  ultimately have "b_effects s' = b_effects r'" "b_state s' = b_state r'" using preservesD by metis+
  with I show ?thesis unfolding t by simp
qed

section \<open>Heartbeat threads\<close>

text \<open>
  What matters for the threads: a thread runs exactly when the flag is set, it is the one in the
  client, and the client is then active.
\<close>

type_synonym view = "(nat \<times> u64) list \<times> bool \<times> bool \<times> nat"

definition view :: "'m bot \<Rightarrow> view" where
  "view s = (b_threads s, ws_heartbeat_active (b_client s), ws_active (b_client s),
             ws_heartbeat_thread (b_client s))"

fun threads_ok :: "view \<Rightarrow> bool" where
  "threads_ok (ths, beat, active, h) \<longleftrightarrow> (if beat then active \<and> (\<exists>t. ths = [(h, t)]) else ths = [])"

definition thread_inv :: "'m bot \<Rightarrow> bool" where
  "thread_inv s \<longleftrightarrow> threads_ok (view s)"

lemma view_preserves [preserves_intros]: "preserves b_client c \<Longrightarrow> preserves b_threads c \<Longrightarrow> preserves view c"
  by (simp add: preserves_def view_def)

lemma set_client_view [preserves_intros]:
  "(\<And>c. ws_heartbeat_active (g c) = ws_heartbeat_active c \<and> ws_active (g c) = ws_active c \<and>
     ws_heartbeat_thread (g c) = ws_heartbeat_thread c) \<Longrightarrow> preserves view (set_client g)"
  by (simp add: preserves_def set_client_def view_def)

lemma preserves_view_run: "preserves view c \<Longrightarrow> view (snd (run_state c s)) = view s"
  by (simp add: preserves_def)

lemma in_bot_view [simp]: "view (snd (run_state (in_bot c) s)) = view s"
  by (rule preserves_view_run) (intro preserves_intros)

lemma effect_view [simp]: "view (snd (run_state (effect e) s)) = view s"
  by (rule preserves_view_run) (intro preserves_intros)

text \<open>Closing ends the thread, whatever has happened to the active flag.\<close>

lemma close_view:
  assumes "view s = (ths, beat, active, h)" and "if beat then \<exists>t. ths = [(h, t)] else ths = []"
  shows "view (snd (run_state websocket_close s)) = ([], False, active, h)"
  using assms
  by (auto simp: view_def websocket_close_def client_def set_client_def pthread_join_heartbeat_def effect_def
      bind_def State_Monad.return_def Let_def)

lemma identify_ok:
  assumes "threads_ok (view s)" and "ws_active (b_client s)"
  shows "threads_ok (view (snd (run_state gateway_handle_identify s)))"
proof -
  obtain u s1 where s1: "run_state gateway_send_heartbeat s = (u, s1)" by (rule prod.exhaust)
  have c1: "b_client s1 = b_client s" "b_threads s1 = b_threads s"
    using send_preserves(1,4) [THEN preservesD, OF s1] by simp_all
  let ?a = "case ev_session_id (b_state s1) of
      Ptr _ session_id \<Rightarrow> resume_text (ws_token (b_client s1)) session_id (b_seq s1)
    | Nul \<Rightarrow> identify_text (ws_token (b_client s1))"
  obtain r s2 where s2: "run_state (sprintf_buffer 256 ?a) s1 = (r, s2)" by (rule prod.exhaust)
  have c2: "b_client s2 = b_client s" "b_threads s2 = b_threads s"
    using sprintf_buffer_preserves(1,4) [THEN preservesD, OF s2] c1 by simp_all
  have "snd (run_state gateway_handle_identify s) = snd (run_state (do {
      _ \<leftarrow> websocket_send r;
      if \<not> ws_heartbeat_active (b_client s1)
      then do { _ \<leftarrow> set_client (ws_heartbeat_active_update (\<lambda>_. True)); pthread_create_heartbeat }
      else State_Monad.return () }) s2)"
    unfolding gateway_handle_identify_def using s2
    by (cases "ev_session_id (b_state s1)") (simp_all add: s1 bind_def client_def in_bot_def)
  then show ?thesis
    using assms
    by (simp add: c1 websocket_send_def effect_def set_client_def pthread_create_heartbeat_def bind_def
        State_Monad.return_def Let_def view_def c2)
qed

lemma tick_ok: "threads_ok (view s) \<Longrightarrow> threads_ok (view (snd (run_state (gateway_heartbeat_tick i) s)))"
proof -
  assume ok: "threads_ok (view s)"
  show ?thesis
  proof (cases "map_of (b_threads s) i")
    case None
    with ok show ?thesis by (simp add: gateway_heartbeat_tick_def)
  next
    case (Some t)
    have f: "ws_active (b_client s)" "ws_heartbeat_active (b_client s)" "b_threads s = [(ws_heartbeat_thread (b_client s), t)]"
      "i = ws_heartbeat_thread (b_client s)"
      using ok Some by (auto simp: view_def split: if_splits)
    obtain t' due where d: "heartbeat_due (b_interval s) t = (t', due)" by (rule prod.exhaust)
    let ?s = "s\<lparr>b_threads := [(ws_heartbeat_thread (b_client s), t')]\<rparr>"
    have "snd (run_state (gateway_heartbeat_tick i) s) =
        (if due then snd (run_state gateway_send_heartbeat ?s) else ?s)"
      using f d by (simp add: gateway_heartbeat_tick_def)
    moreover have "view (snd (run_state gateway_send_heartbeat ?s)) = view ?s"
      by (rule preserves_view_run) (intro preserves_intros)
    ultimately show ?thesis using f by (simp add: view_def)
  qed
qed

lemma close_ok: "threads_ok (view s) \<Longrightarrow> view (snd (run_state websocket_close s)) = ([], False, ws_active (b_client s), ws_heartbeat_thread (b_client s))"
  by (rule close_view [where ths = "b_threads s" and beat = "ws_heartbeat_active (b_client s)"])
    (auto simp: view_def split: if_splits)

lemma dispatch_view: "preserves view (gateway_handle_dispatch H L cb json)"
proof -
  have "preserves b_client (gateway_handle_dispatch H L cb json)"
    "preserves b_threads (gateway_handle_dispatch H L cb json)"
    unfolding gateway_handle_dispatch_def by (intro preserves_intros; simp add: preserves_def)+
  then show ?thesis by (rule view_preserves)
qed

lemma opcode_ok:
  fixes s :: "'m bot"
  assumes ok: "threads_ok (view s)" and act: "ws_active (b_client s)"
  shows "threads_ok (view (snd (run_state (handle_opcode H L cb json op) s)))"
proof -
  consider "op = DISCORD_DISPATCH" | "op = DISCORD_INVALID_SESSION" | "op = DISCORD_HELLO"
    | "op \<noteq> DISCORD_DISPATCH" "op \<noteq> DISCORD_INVALID_SESSION" "op \<noteq> DISCORD_HELLO" by blast
  then show ?thesis
  proof cases
    case 1
    have "preserves view (handle_opcode H L cb json op)"
      unfolding handle_opcode_def using 1 by (simp add: preserves_bind set_client_view dispatch_view)
    with ok show ?thesis by (simp add: preserves_view_run)
  next
    case 2
    have "view (s\<lparr>b_seq := - 1\<rparr>) = view s" by (simp add: view_def)
    then have "threads_ok (view (snd (run_state websocket_close (s\<lparr>b_seq := - 1\<rparr>))))"
      using close_ok [of "s\<lparr>b_seq := - 1\<rparr>"] ok by simp
    with 2 show ?thesis by (simp add: handle_opcode_def opcode_defs websocket_reconnect_def bind_def)
  next
    case 3
    have "preserves view (adjust_interval L json :: ('m bot, unit) state)"
      by (intro view_preserves interval_preserves)
    with 3 identify_ok [OF ok act] show ?thesis
      by (simp add: handle_opcode_def opcode_defs split_beta preserves_view_run)
  next
    case 4
    have ack: "preserves view (State (\<lambda>s. ((), s\<lparr>b_latency := l s\<rparr>)))" for l :: "'m bot \<Rightarrow> int"
      by (simp add: preserves_def view_def)
    have beat: "preserves view (gateway_send_heartbeat :: ('m bot, unit) state)"
      by (intro view_preserves send_preserves)
    have "preserves view (handle_opcode H L cb json op)"
      using 4 by (simp add: handle_opcode_def ack beat preserves_return)
    with ok show ?thesis by (simp add: preserves_view_run)
  qed
qed

lemma on_receive_ok:
  assumes "threads_ok (view s)" and "ws_active (b_client s)"
  shows "threads_ok (view (snd (run_state (gateway_on_receive H L cb data len) s)))"
  using assms opcode_ok [OF assms]
  by (auto simp: gateway_on_receive_payload State_Monad.return_def split: option.splits)

lemma append_content_view: "preserves view (append_content data)"
  unfolding append_content_def by (intro preserves_intros) simp

lemma append_content_active: "ws_active (b_client (snd (run_state (append_content data) s))) = ws_active (b_client s)"
  using preserves_view_run [OF append_content_view [of data], of s] by (simp add: view_def)

lemma view_active: "view t = view s \<Longrightarrow> ws_active (b_client t) = ws_active (b_client s)"
  by (simp add: view_def)

lemma receive_callback_ok:
  fixes s :: "'m bot"
  assumes ok: "threads_ok (view s)" and act: "ws_active (b_client s)"
  shows "threads_ok (view (snd (run_state (websocket_callback (Some (gateway_on_receive H L cb)) user (Receive data final)) s)))"
proof -
  have tail: "preserves view (do {
      _ \<leftarrow> set_client (ws_size_update (\<lambda>_. 0));
      c' \<leftarrow> client;
      _ \<leftarrow> in_mem (free_ptr (ws_content c'));
      set_client (ws_content_update (\<lambda>_. Nul)) } :: ('m bot, unit) state)"
    by (intro preserves_intros; simp)
  obtain u s1 where s1: "run_state (append_content data) s = (u, s1)" by (rule prod.exhaust)
  have v1: "view s1 = view s" by (rule preservesD [OF append_content_view s1])
  let ?d = "ptr_str (ws_content (b_client s1))"
  obtain w s2 where s2: "run_state (effect (On_Receive ?d)) s1 = (w, s2)" by (rule prod.exhaust)
  have v2: "view s2 = view s" using effect_view [of "On_Receive ?d" s1] by (simp add: s2 v1)
  have r: "threads_ok (view (snd (run_state (gateway_on_receive H L cb ?d (ws_size (b_client s1))) s2)))"
    by (rule on_receive_ok) (use ok act v2 in \<open>simp_all add: view_def\<close>)
  show ?thesis
  proof (cases "user \<and> final")
    case True
    then show ?thesis
      using r tail [THEN preserves_view_run]
      by (simp add: websocket_callback_def split_beta s1 s2 client_def State_Monad.return_def)
  next
    case False
    then show ?thesis
      using ok by (auto simp: websocket_callback_def split_beta s1 v1 State_Monad.return_def)
  qed
qed

lemma connect_ok: "threads_ok (view s) \<Longrightarrow> threads_ok (view (snd (run_state websocket_connect s)))"
  by (auto simp: websocket_connect_def split_beta client_def effect_def set_client_def in_bot_run view_def
      State_Monad.return_def split: if_splits)

text \<open>Closing after the client has been made inactive leaves no thread.\<close>

lemma deactivate_close_ok:
  assumes "threads_ok (view s)" and "b_threads t = b_threads s"
    and "ws_heartbeat_active (b_client t) = ws_heartbeat_active (b_client s)"
    and "ws_heartbeat_thread (b_client t) = ws_heartbeat_thread (b_client s)"
  shows "threads_ok (view (snd (run_state websocket_close t)))"
proof -
  have "view (snd (run_state websocket_close t)) =
      ([], False, ws_active (b_client t), ws_heartbeat_thread (b_client t))"
    by (rule close_view [where ths = "b_threads t" and beat = "ws_heartbeat_active (b_client t)"])
      (use assms in \<open>auto simp: view_def split: if_splits\<close>)
  then show ?thesis by simp
qed

lemma callback_ok:
  fixes s :: "'m bot"
  assumes ok: "threads_ok (view s)" and r: "delivered r (b_client s)"
  shows "threads_ok (view (snd (run_state (websocket_callback (Some (gateway_on_receive H L cb)) user r) s)))"
proof -
  have v: "view (s\<lparr>b_exited := x\<rparr>) = view s" for s :: "'m bot" and x by (simp add: view_def)
  have sc: "preserves view (set_client (\<lambda>c. c\<lparr>ws_connected := x, ws_success_login := y\<rparr>) :: ('m bot, unit) state)"
    "preserves view (set_client (ws_connected_update (\<lambda>_. x)) :: ('m bot, unit) state)" for x y
    by (intro set_client_view; simp)+
  note pv = sc [THEN preserves_view_run]
  show ?thesis
  proof (cases r)
    case (Receive data final)
    with receive_callback_ok [OF ok] r show ?thesis by (simp add: delivered_def)
  next
    case Connection_Error
    let ?t = "s\<lparr>b_client := (b_client s)\<lparr>ws_connected := False, ws_active := False\<rparr>\<rparr>"
    have "threads_ok (view (snd (run_state websocket_close ?t)))"
      by (rule deactivate_close_ok [OF ok]) simp_all
    with ok show ?thesis
      by (simp add: Connection_Error websocket_callback_def split_beta v State_Monad.return_def)
        (simp add: set_client_def)
  next
    case Established
    with ok pv show ?thesis by (simp add: websocket_callback_def split_beta State_Monad.return_def)
  next
    case Closed
    let ?c = "b_client s"
    let ?t = "s\<lparr>b_client := ?c\<lparr>ws_exit := True, ws_active := False\<rparr>\<rparr>"
    have t: "threads_ok (view (snd (run_state websocket_close ?t)))"
      by (rule deactivate_close_ok [OF ok]) simp_all
    let ?u = "s\<lparr>b_client := ?c\<lparr>ws_active := False\<rparr>\<rparr>"
    have u: "threads_ok (view (snd (run_state websocket_close ?u)))"
      by (rule deactivate_close_ok [OF ok]) simp_all
    consider "\<not> user" | "user" "ws_success_login ?c" "\<not> ws_exit ?c" | "user" "\<not> ws_success_login ?c"
      | "user" "ws_success_login ?c" "ws_exit ?c" by blast
    then show ?thesis
    proof cases
      case 1
      with ok Closed show ?thesis by (simp add: websocket_callback_def split_beta State_Monad.return_def)
    next
      case 2
      with connect_ok [OF ok] Closed show ?thesis
        by (simp add: websocket_callback_def split_beta client_def State_Monad.return_def)
    next
      case 3
      have "threads_ok (view (snd (run_state (websocket_callback (Some (gateway_on_receive H L cb)) user r) s))) =
          threads_ok (view (snd (run_state websocket_close ?t)))"
        using 3 pv by (simp add: Closed websocket_callback_def split_beta client_def State_Monad.return_def)
          (simp add: set_client_def)
      with t show ?thesis by simp
    next
      case 4
      have "threads_ok (view (snd (run_state (websocket_callback (Some (gateway_on_receive H L cb)) user r) s))) =
          threads_ok (view (snd (run_state websocket_close ?u)))"
        using 4 pv by (simp add: Closed websocket_callback_def split_beta client_def State_Monad.return_def)
          (simp add: set_client_def)
      with u show ?thesis by simp
    qed
  qed (use ok in \<open>simp_all add: websocket_callback_def split_beta State_Monad.return_def\<close>)
qed

lemma happens_ok: "threads_ok (view s) \<Longrightarrow> threads_ok (view (snd (run_state (happens H L cb h) s)))"
proof -
  assume ok: "threads_ok (view s)"
  have "view (s\<lparr>b_sigterm := x\<rparr>) = view s" "view (s\<lparr>b_now := y\<rparr>) = view s" for x y by (simp_all add: view_def)
  with ok tick_ok [OF ok] show ?thesis by (cases h) (simp_all add: happens_def callback_ok [OF ok])
qed

lemma all_happen_ok: "threads_ok (view s) \<Longrightarrow> threads_ok (view (snd (run_state (all_happen H L cb hs) s)))"
  by (induction hs arbitrary: s) (simp_all add: split_beta happens_ok State_Monad.return_def)

lemma exit_ok:
  assumes "threads_ok (view s)"
  shows "view (snd (run_state websocket_exit s)) = ([], False, ws_active (b_client s), ws_heartbeat_thread (b_client s))"
proof -
  let ?s = "s\<lparr>b_client := (b_client s)\<lparr>ws_exit := True\<rparr>\<rparr>"
  have "view ?s = view s" by (simp add: view_def)
  with close_ok [of ?s] assms show ?thesis by (simp add: websocket_exit_def set_client_def split_beta)
qed

lemma loop_run:
  "run_state (gateway_event_loop H L cb []) s = (\<not> b_exited s \<and> \<not> ws_active (b_client s), s)"
  "run_state (gateway_event_loop H L cb (hs # rounds)) s =
     (if b_exited s then (False, s) else if \<not> ws_active (b_client s) then (True, s)
      else (let t = snd (run_state (all_happen H L cb hs) s)
            in if b_sigterm t \<and> \<not> b_exited t then (True, snd (run_state websocket_exit t))
               else run_state (gateway_event_loop H L cb rounds) t))"
  by (simp_all add: gateway_event_loop.simps [of _ _ _ "[]"] gateway_event_loop.simps [of _ _ _ "hs # rounds"]
      split_beta Let_def State_Monad.return_def del: gateway_event_loop.simps)

declare gateway_event_loop.simps [simp del]

lemma loop_threads:
  assumes "thread_inv s" and "run_state (gateway_event_loop H L cb rounds) s = (returned, s')"
  shows "thread_inv s'" and "returned \<Longrightarrow> b_threads s' = [] \<and> \<not> ws_heartbeat_active (b_client s')"
proof -
  have none: "b_threads t = [] \<and> \<not> ws_heartbeat_active (b_client t)"
    if "threads_ok (view t)" "\<not> ws_active (b_client t)" for t :: "'a bot"
    using that by (auto simp: view_def split: if_splits)
  have "threads_ok (view s') \<and> (returned \<longrightarrow> b_threads s' = [] \<and> \<not> ws_heartbeat_active (b_client s'))"
    using assms unfolding thread_inv_def
  proof (induction rounds arbitrary: s)
    case Nil
    then show ?case using none [of s] by (auto simp: loop_run)
  next
    case (Cons hs rounds)
    obtain u t where t: "run_state (all_happen H L cb hs) s = (u, t)" by (rule prod.exhaust)
    have ok: "threads_ok (view t)" using all_happen_ok [OF Cons.prems(1), of H L cb hs] by (simp add: t)
    obtain w t' where t': "run_state websocket_exit t = (w, t')" by (rule prod.exhaust)
    have ex: "view t' = ([], False, ws_active (b_client t), ws_heartbeat_thread (b_client t))"
      using exit_ok [OF ok] by (simp add: t')
    consider "b_exited s \<or> \<not> ws_active (b_client s)" | "\<not> b_exited s" "ws_active (b_client s)" "b_sigterm t" "\<not> b_exited t"
      | "\<not> b_exited s" "ws_active (b_client s)" "\<not> (b_sigterm t \<and> \<not> b_exited t)" by blast
    then show ?case
    proof cases
      case 1
      with Cons.prems none [of s] show ?thesis by (auto simp: loop_run split: if_splits)
    next
      case 2
      then have "s' = t'" "returned" using Cons.prems(2) by (simp_all add: loop_run t t')
      then show ?thesis using ex by (simp add: view_def)
    next
      case 3
      then have "run_state (gateway_event_loop H L cb rounds) t = (returned, s')"
        using Cons.prems(2) by (auto simp: loop_run t)
      from Cons.IH [OF ok this] show ?thesis .
    qed
  qed
  then show "thread_inv s'" "returned \<Longrightarrow> b_threads s' = [] \<and> \<not> ws_heartbeat_active (b_client s')"
    by (simp_all add: thread_inv_def)
qed

text \<open>C23. However callbacks, rounds of threads and the signal are interleaved, there is at most one
  heartbeat thread, it is the one the client would join, and it runs exactly while the flag is set;
  when the event loop has returned no thread is running, so the client can be destroyed.\<close>

theorem heartbeat_thread_single:
  assumes "thread_inv s" and "run_state (gateway_event_loop H L cb rounds) s = (returned, s')"
  shows "thread_inv s' \<and> length (b_threads s') \<le> 1 \<and>
    (returned \<longrightarrow> b_threads s' = [] \<and> \<not> ws_heartbeat_active (b_client s'))"
  using loop_threads [OF assms] by (auto simp: thread_inv_def view_def split: if_splits)

section \<open>Heartbeats in time\<close>

text \<open>The number of rounds between two heartbeats.\<close>

definition beat_period :: "32 word \<Rightarrow> nat" where
  "beat_period interval = max 1 ((unat interval + 9) div 10)"

lemma beat_period_bounds:
  "0 < beat_period interval" "beat_period interval < 2 ^ 32" "unat interval \<le> 10 * beat_period interval"
  "0 < interval \<Longrightarrow> 10 * beat_period interval < unat interval + 10"
proof -
  have i: "unat interval < 2 ^ 32" using unsigned_less [of interval] by simp
  show "0 < beat_period interval" "unat interval \<le> 10 * beat_period interval" by (simp_all add: beat_period_def)
  show "beat_period interval < 2 ^ 32" using i by (simp add: beat_period_def)
  show "10 * beat_period interval < unat interval + 10" if "0 < interval"
  proof -
    have "0 < unat interval" using that by (simp add: word_less_nat_alt)
    then show ?thesis by (simp add: beat_period_def max_def) presburger
  qed
qed

lemma heartbeat_due_counts:
  assumes "unat t < beat_period interval"
  shows "heartbeat_due interval t =
    (if unat t + 1 = beat_period interval then (0, True) else (t + 1, False))"
proof -
  have t: "unat t + 1 < 2 ^ 32" using assms beat_period_bounds(2) [of interval] by linarith
  have 1: "unat (t + 1) = unat t + 1" using t by (simp add: unat_word_ariths)
  have 10: "unat ((t + 1) * 10) = (unat t + 1) * 10" using t by (simp add: unat_word_ariths 1)
  have "unat interval < 2 ^ 32" using unsigned_less [of interval] by simp
  then have "unat interval < 2 ^ 64" by simp
  then have u: "unat (ucast interval :: u64) = unat interval"
    by (simp add: unsigned_ucast_eq take_bit_nat_eq_self_iff)
  have "ucast interval \<le> (t + 1) * 10 \<longleftrightarrow> unat interval \<le> (unat t + 1) * 10"
    unfolding word_le_nat_alt 10 by (simp add: u)
  also have "\<dots> \<longleftrightarrow> unat t + 1 = beat_period interval" using assms by (auto simp: beat_period_def)
  finally show ?thesis by (simp add: heartbeat_due_def Let_def)
qed

fun ticks :: "nat \<Rightarrow> nat \<Rightarrow> ('m bot, unit) state" where
  "ticks i 0 = State_Monad.return ()"
| "ticks i (Suc n) = do { _ \<leftarrow> ticks i n; gateway_heartbeat_tick i }"

definition beating :: "'m bot \<Rightarrow> bool" where
  "beating s \<longleftrightarrow> ws_active (b_client s) \<and> ws_heartbeat_active (b_client s) \<and>
     - (2 ^ 31) \<le> b_seq s \<and> b_seq s < 2 ^ 31 \<and> b_threads s = [(ws_heartbeat_thread (b_client s), 0)]"

lemma ticks_run:
  assumes "beating s"
  shows "\<exists>l. snd (run_state (ticks (ws_heartbeat_thread (b_client s)) n) s) =
    s\<lparr>b_threads := [(ws_heartbeat_thread (b_client s), of_nat (n mod beat_period (b_interval s)))],
      b_effects := b_effects s @ replicate (n div beat_period (b_interval s)) (Write (heartbeat_text (b_seq s))),
      b_last_heartbeat := l\<rparr>"
proof (induction n)
  case 0
  show ?case
    using assms beat_period_bounds(1) [of "b_interval s"]
    by (intro exI [of _ "b_last_heartbeat s"], cases s) (simp add: State_Monad.return_def beating_def)
next
  case (Suc n)
  let ?p = "beat_period (b_interval s)" and ?h = "ws_heartbeat_thread (b_client s)"
  let ?t = "of_nat (n mod ?p) :: u64" and ?hb = "Write (heartbeat_text (b_seq s))"
  obtain l where l: "snd (run_state (ticks ?h n) s) = s\<lparr>b_threads := [(?h, ?t)],
      b_effects := b_effects s @ replicate (n div ?p) ?hb, b_last_heartbeat := l\<rparr>"
    using Suc.IH by blast
  let ?s = "s\<lparr>b_threads := [(?h, ?t)], b_effects := b_effects s @ replicate (n div ?p) ?hb, b_last_heartbeat := l\<rparr>"
  have lt: "n mod ?p < ?p" using beat_period_bounds(1) by simp
  then have "n mod ?p < 2 ^ 32" using beat_period_bounds(2) [of "b_interval s"] by linarith
  then have t: "unat ?t = n mod ?p" by (simp add: unsigned_of_nat take_bit_nat_eq_self_iff)
  have due: "heartbeat_due (b_interval s) ?t =
      (if Suc (n mod ?p) = ?p then (0, True) else (of_nat (Suc (n mod ?p)), False))"
    using heartbeat_due_counts [of ?t "b_interval s"] lt t by (simp add: add.commute)
  have tick: "snd (run_state (gateway_heartbeat_tick ?h) ?s) =
      (if Suc (n mod ?p) = ?p
       then snd (run_state gateway_send_heartbeat (?s\<lparr>b_threads := [(?h, 0)]\<rparr>))
       else ?s\<lparr>b_threads := [(?h, of_nat (Suc (n mod ?p)))]\<rparr>)"
    using assms due by (simp add: gateway_heartbeat_tick_def beating_def)
  have run: "snd (run_state (ticks ?h (Suc n)) s) = snd (run_state (gateway_heartbeat_tick ?h) ?s)"
    by (simp add: split_beta l)
  show ?case
  proof (cases "Suc (n mod ?p) = ?p")
    case True
    then have "Suc n mod ?p = 0" "Suc n div ?p = Suc (n div ?p)" by (simp_all add: mod_Suc div_Suc)
    then show ?thesis
      unfolding run tick using True assms
      by (intro exI [of _ "b_now s"]) (simp add: heartbeat_run beating_def replicate_append_same)
  next
    case False
    then have "Suc n mod ?p = Suc (n mod ?p)" "Suc n div ?p = n div ?p" by (simp_all add: mod_Suc div_Suc)
    then show ?thesis unfolding run tick using False by (intro exI [of _ l]) simp
  qed
qed

text \<open>C24. While the client is active a thread sends one heartbeat, with the last sequence number, every
  \<open>beat_period\<close> rounds of 10 ms, never more and never less: that period is the interval HELLO has
  asked for, rounded up to the next 10 ms, and one round when that is zero. The counter does not
  overflow.\<close>

theorem heartbeats_in_time:
  assumes "beating s"
  shows "b_effects (snd (run_state (ticks (ws_heartbeat_thread (b_client s)) n) s)) =
      b_effects s @ replicate (n div beat_period (b_interval s)) (Write (heartbeat_text (b_seq s))) \<and>
    unat (b_interval s) \<le> 10 * beat_period (b_interval s) \<and>
    (0 < b_interval s \<longrightarrow> 10 * beat_period (b_interval s) < unat (b_interval s) + 10)"
  using ticks_run [OF assms, of n] beat_period_bounds(3,4) [of "b_interval s"] by auto

section \<open>Fragments\<close>

text \<open>The messages made of fragments, when \<open>acc\<close> has been received before, and what is left.\<close>

fun reassemble :: "string \<Rightarrow> (string \<times> bool) list \<Rightarrow> string list" where
  "reassemble acc [] = []"
| "reassemble acc ((d, final) # fs) =
     (if final then (acc @ d) # reassemble [] fs else reassemble (acc @ d) fs)"

fun left_over :: "string \<Rightarrow> (string \<times> bool) list \<Rightarrow> string" where
  "left_over acc [] = acc"
| "left_over acc ((d, final) # fs) = (if final then left_over [] fs else left_over (acc @ d) fs)"

text \<open>The texts handed to \<open>on_receive\<close>, and what is in the buffer.\<close>

fun delivered_texts :: "effect list \<Rightarrow> string list" where
  "delivered_texts [] = []"
| "delivered_texts (On_Receive d # es) = d # delivered_texts es"
| "delivered_texts (_ # es) = delivered_texts es"

lemma delivered_texts_append [simp]: "delivered_texts (xs @ ys) = delivered_texts xs @ delivered_texts ys"
  by (induction xs rule: delivered_texts.induct) simp_all

definition buffered :: "'m bot \<Rightarrow> string" where
  "buffered s = take (ws_size (b_client s)) (ptr_str (ws_content (b_client s)))"

definition buffer_ok :: "'m bot \<Rightarrow> bool" where
  "buffer_ok s \<longleftrightarrow> length (ptr_str (ws_content (b_client s))) = ws_size (b_client s)"

text \<open>What the gateway leaves alone of this while it handles a message.\<close>

definition rview :: "'m bot \<Rightarrow> string list \<times> string ptr \<times> nat \<times> bool \<times> bool" where
  "rview s = (delivered_texts (b_effects s), ws_content (b_client s), ws_size (b_client s),
              ws_active (b_client s), b_exited s)"

lemma in_bot_rview [preserves_intros]: "preserves rview (in_bot c)"
  by (simp add: preserves_def rview_def in_bot_run)

lemma effect_rview [preserves_intros]: "delivered_texts [e] = [] \<Longrightarrow> preserves rview (effect e)"
  by (simp add: preserves_def rview_def effect_def)

lemma set_client_rview [preserves_intros]:
  "(\<And>c. ws_content (g c) = ws_content c \<and> ws_size (g c) = ws_size c \<and> ws_active (g c) = ws_active c) \<Longrightarrow>
   preserves rview (set_client g)"
  by (simp add: preserves_def set_client_def rview_def)

lemma rview_intros [preserves_intros]:
  "preserves rview pthread_create_heartbeat" "preserves rview pthread_join_heartbeat"
  "preserves rview (State (\<lambda>s. ((), s\<lparr>b_seq := g s\<rparr>)))"
  "preserves rview (State (\<lambda>s. ((), s\<lparr>b_latency := l s\<rparr>)))"
  "preserves rview (State (\<lambda>s. ((), s\<lparr>b_last_heartbeat := h s\<rparr>)))"
  "preserves rview (State (\<lambda>s. ((), s\<lparr>b_interval := i s\<rparr>)))"
  by (simp_all add: preserves_def rview_def pthread_create_heartbeat_def pthread_join_heartbeat_def Let_def)

lemma gateway_rview:
  "preserves rview websocket_close" "preserves rview gateway_send_heartbeat"
  "preserves rview gateway_handle_identify" "preserves rview (adjust_interval L json)"
  "preserves rview (gateway_handle_dispatch H L cb json)"
proof -
  show s: "preserves rview gateway_send_heartbeat"
    unfolding gateway_send_heartbeat_def websocket_send_def sprintf_buffer_def
    by (intro preserves_intros; simp)
  show "preserves rview websocket_close"
    unfolding websocket_close_def by (intro preserves_intros; simp)
  show "preserves rview gateway_handle_identify"
    unfolding gateway_handle_identify_def websocket_send_def sprintf_buffer_def
    by (intro preserves_intros s; simp)
  show "preserves rview (adjust_interval L json)"
    unfolding adjust_interval_def Let_def by (intro preserves_intros)
  show "preserves rview (gateway_handle_dispatch H L cb json)"
    unfolding gateway_handle_dispatch_def by (intro preserves_intros)
qed

lemma on_receive_rview: "preserves rview (gateway_on_receive H L cb data len)"
proof -
  have "preserves rview (handle_opcode H L cb json op)" for json op
    unfolding handle_opcode_def websocket_reconnect_def
    by (intro preserves_intros gateway_rview) simp
  then show ?thesis
    unfolding gateway_on_receive_payload
    by (cases "payload_of L data") (auto intro: preserves_return)
qed

lemma receive_fragment:
  fixes s :: "'m bot" and H :: "'m hashmap_api" and L :: "'j json_lib"
    and cb :: "discord_event_callbacks option" and d :: string and final :: bool
  assumes ok: "buffer_ok s"
  defines "t \<equiv> snd (run_state (websocket_callback (Some (gateway_on_receive H L cb)) True (Receive d final)) s)"
  shows "delivered_texts (b_effects t) = delivered_texts (b_effects s) @ (if final then [buffered s @ d] else [])"
    "buffered t = (if final then [] else buffered s @ d)" "buffer_ok t"
    "ws_active (b_client t) = ws_active (b_client s)" "b_exited t = b_exited s"
proof -
  let ?n = "ws_size (b_client s) + length d"
  obtain u s1 where s1: "run_state (append_content d) s = (u, s1)" by (rule prod.exhaust)
  have c1: "ptr_str (ws_content (b_client s1)) = buffered s @ d" "ws_size (b_client s1) = ?n"
      "delivered_texts (b_effects s1) = delivered_texts (b_effects s)" "b_exited s1 = b_exited s"
      "ws_active (b_client s1) = ws_active (b_client s)"
    using s1 by (auto simp: append_content_def split_beta client_def in_bot_run set_client_def buffered_def ptr_str_def
        State_Monad.return_def)
  have len: "length (buffered s @ d) = ?n" using ok by (simp add: buffered_def buffer_ok_def)
  show "delivered_texts (b_effects t) = delivered_texts (b_effects s) @ (if final then [buffered s @ d] else [])"
    "buffered t = (if final then [] else buffered s @ d)" "buffer_ok t"
    "ws_active (b_client t) = ws_active (b_client s)" "b_exited t = b_exited s"
  proof -
    let ?s2 = "s1\<lparr>b_effects := b_effects s1 @ [On_Receive (buffered s @ d)]\<rparr>"
    obtain w s3 where s3: "run_state (gateway_on_receive H L cb (buffered s @ d) ?n) ?s2 = (w, s3)" by (rule prod.exhaust)
    have "rview s3 = rview ?s2" by (rule preservesD [OF on_receive_rview s3])
    then have c3: "delivered_texts (b_effects s3) = delivered_texts (b_effects s) @ [buffered s @ d]"
        "ws_active (b_client s3) = ws_active (b_client s)" "b_exited s3 = b_exited s"
      using c1 by (simp_all add: rview_def)
    have t: "t = (if final
        then snd (run_state (do {
               _ \<leftarrow> set_client (ws_size_update (\<lambda>_. 0));
               c' \<leftarrow> client;
               _ \<leftarrow> in_mem (free_ptr (ws_content c'));
               _ \<leftarrow> set_client (ws_content_update (\<lambda>_. Nul));
               effect On_Writable }) s3)
        else s1\<lparr>b_effects := b_effects s1 @ [On_Writable]\<rparr>)"
      using s3 c1 by (simp add: t_def websocket_callback_def split_beta s1 client_def effect_def State_Monad.return_def)
    show "delivered_texts (b_effects t) = delivered_texts (b_effects s) @ (if final then [buffered s @ d] else [])"
      "ws_active (b_client t) = ws_active (b_client s)" "b_exited t = b_exited s"
      using c1 c3 by (simp_all add: t split_beta set_client_def in_bot_run effect_def client_def)
    have bt: "ptr_str (ws_content (b_client t)) = (if final then [] else buffered s @ d)"
        "ws_size (b_client t) = (if final then 0 else ?n)"
      using c1 by (simp_all add: t split_beta set_client_def in_bot_run effect_def client_def)
        (simp_all add: ptr_str_def)
    show "buffered t = (if final then [] else buffered s @ d)" "buffer_ok t"
      using len by (simp_all add: buffered_def [of t] buffer_ok_def bt)
  qed
qed

text \<open>C25. Any sequence of fragments is put together: \<open>on_receive\<close> is called once for every final
  fragment, in order, with exactly the fragments since the final one before it, and the buffer holds
  the fragments since the last final one; handling a message disturbs none of it.\<close>

theorem fragments_reassembled:
  assumes "buffer_ok s" and "ws_active (b_client s)" and "\<not> b_exited s"
    and "run_state (all_happen H L cb (map (\<lambda>f. Callback True (Receive (fst f) (snd f))) fs)) s = (u, s')"
  shows "delivered_texts (b_effects s') = delivered_texts (b_effects s) @ reassemble (buffered s) fs \<and>
    buffered s' = left_over (buffered s) fs \<and> buffer_ok s'"
  using assms
proof (induction fs arbitrary: s)
  case Nil
  then show ?case by (simp add: State_Monad.return_def)
next
  case (Cons f fs)
  obtain d final where f: "f = (d, final)" by (cases f)
  let ?t = "snd (run_state (websocket_callback (Some (gateway_on_receive H L cb)) True (Receive d final)) s)"
  note t = receive_fragment [OF Cons.prems(1), of H L cb d final]
  have "run_state (all_happen H L cb (map (\<lambda>f. Callback True (Receive (fst f) (snd f))) fs)) ?t = (u, s')"
    using Cons.prems(2-4) by (simp add: f happens_def delivered_def split_beta)
  from Cons.IH [OF t(3) _ _ this] Cons.prems(2,3) t show ?case by (simp add: f)
qed

section \<open>A bot for the witnesses\<close>

definition session_doc :: "string \<Rightarrow> jval" where
  "session_doc i = JObj [(''op'', JNum 0), (''t'', JStr ''READY''), (''s'', JNum 1),
     (''d'', JObj [(''session_id'', JStr i)])]"

text \<open>A library that parses three texts.\<close>

definition three_docs :: "string \<Rightarrow> jval option" where
  "three_docs = map_of [(''ready'', session_doc ''abc''), (''invalid'', JObj [(''op'', JNum 9)]),
     (''hello'', JObj [(''op'', JNum 10), (''d'', JObj [(''heartbeat_interval'', JNum 41250)])])]"

definition three_lib :: "jval json_lib" where
  "three_lib =
     \<lparr>parse_json = three_docs,
      is_array = (\<lambda>d. case d of Some (JArr _) \<Rightarrow> True | _ \<Rightarrow> False),
      is_object = (\<lambda>d. case d of Some (JObj _) \<Rightarrow> True | _ \<Rightarrow> False),
      item_cs = get_object_item small_json,
      access = small_json\<lparr>valueint := (\<lambda>j. case j of JNum q \<Rightarrow> min (max \<lfloor>q\<rfloor> (- (2 ^ 31))) (2 ^ 31 - 1) | _ \<Rightarrow> 0)\<rparr>\<rparr>"

definition three_bot :: "(u64 \<Rightarrow> addr) bot" where
  "three_bot = \<lparr>b_state = one_bot,
     b_client = \<lparr>ws_callbacks = Nul, ws_context = True, ws_content = Nul, ws_size = 0, ws_connected = True,
       ws_success_login = False, ws_active = True, ws_heartbeat_active = False, ws_exit = False,
       ws_heartbeat_thread = 0, ws_token = ''tok''\<rparr>,
     b_threads = [], b_next_thread = 0, b_seq = - 1, b_interval = 10000, b_now = secs 0,
     b_last_heartbeat = secs 0, b_latency = 0, b_sigterm = False, b_exited = False, b_effects = []\<rparr>"

definition no_callbacks :: discord_event_callbacks where
  "no_callbacks = \<lparr>on_ready = False, on_message = False, on_message_edit = False, on_message_delete = False,
     on_channel_create = False, on_channel_update = False, on_channel_delete = False,
     on_interaction_create = False\<rparr>"

lemma three_lib_range: "int_range three_lib"
  by (auto simp: int_range_def three_lib_def split: jval.splits)

lemma three_payloads:
  "payload_of three_lib ''ready'' = Some (0, session_doc ''abc'')"
  "payload_of three_lib ''invalid'' = Some (9, JObj [(''op'', JNum 9)])"
  "payload_of three_lib ''hello'' =
     Some (10, JObj [(''op'', JNum 10), (''d'', JObj [(''heartbeat_interval'', JNum 41250)])])"
  by (simp_all add: payload_of_def three_lib_def three_docs_def session_doc_def c_str_def small_json_def)

lemma three_steps:
  "fold (seq_step three_lib) [''ready'', ''invalid''] (- 1) = - 1"
  "fold (session_step three_lib) [''ready'', ''invalid''] None = Some ''abc''"
  by (simp_all add: seq_step_def session_step_def three_payloads opcode_defs)
    (simp add: event_of_def ready_session_def session_doc_def three_lib_def small_json_def strndup_def)

lemma three_bot_ok: "thread_inv three_bot" "buffer_ok three_bot"
  by (simp_all add: three_bot_def thread_inv_def view_def buffer_ok_def ptr_str_def)

theorem hello_identifies_or_resumes_witness:
  "\<exists>t s'. run_state (receive_all fun_map three_lib (Some no_callbacks) [''ready'', ''invalid'']) three_bot = ((), t) \<and>
     run_state (gateway_on_receive fun_map three_lib (Some no_callbacks) ''hello'' 5) t = ((), s') \<and>
     Write (resume_text ''tok'' ''abc'' (- 1)) \<in> set (b_effects s')"
proof -
  obtain u t where t: "run_state (receive_all fun_map three_lib (Some no_callbacks) [''ready'', ''invalid'']) three_bot = (u, t)"
    by (rule prod.exhaust)
  obtain v s' where s': "run_state (gateway_on_receive fun_map three_lib (Some no_callbacks) ''hello'' 5) t = (v, s')"
    by (rule prod.exhaust)
  have bot: "length (token three_bot) \<le> 80" "ev_session_id (b_state three_bot) = Nul" "b_seq three_bot = - 1"
      "token three_bot = ''tok''"
    by (simp_all add: three_bot_def one_bot_def)
  note hello = three_payloads(3) [folded DISCORD_HELLO_def]
  from hello_identifies_or_resumes [OF three_lib_range bot(1-3) t hello s'] show ?thesis
    using t s' unfolding three_steps bot(4) by (simp add: answer_to_hello_def)
qed

theorem heartbeat_thread_single_witness:
  "\<exists>s'. run_state (gateway_event_loop fun_map three_lib (Some no_callbacks)
       [[Callback True Established, Callback True (Receive ''hello'' True), Sigterm]]) three_bot = (True, s') \<and>
     b_threads s' = []"
proof -
  let ?run = "run_state (gateway_event_loop fun_map three_lib (Some no_callbacks)
       [[Callback True Established, Callback True (Receive ''hello'' True), Sigterm]]) three_bot"
  obtain r s' where r: "?run = (r, s')" by (rule prod.exhaust)
  let ?s1 = "three_bot\<lparr>b_effects := [On_Writable]\<rparr>"
  let ?s2 = "snd (run_state (websocket_callback (Some (gateway_on_receive fun_map three_lib (Some no_callbacks))) True
      (Receive ''hello'' True)) ?s1)"
  have f: "\<not> b_exited three_bot" "ws_active (b_client three_bot)" "delivered r (b_client three_bot)" "buffer_ok ?s1" for r
    using three_bot_ok(2)
    by (simp_all add: three_bot_def delivered_def buffer_ok_def split: reason.split)
  have established: "snd (run_state (happens fun_map three_lib (Some no_callbacks) (Callback True Established)) three_bot) = ?s1"
    using f(1,3) by (simp add: happens_def websocket_callback_def split_beta State_Monad.return_def)
      (simp add: set_client_def effect_def three_bot_def)
  have received: "snd (run_state (happens fun_map three_lib (Some no_callbacks) (Callback True (Receive ''hello'' True))) ?s1) = ?s2"
    using f(1,3) by (simp add: happens_def split_beta)
  have "\<not> b_exited ?s2" using receive_fragment(5) [OF f(4)] f(1) by simp
  then have "snd (run_state (all_happen fun_map three_lib (Some no_callbacks)
      [Callback True Established, Callback True (Receive ''hello'' True), Sigterm]) three_bot) = ?s2\<lparr>b_sigterm := True\<rparr>"
    by (simp add: split_beta established received State_Monad.return_def) (simp add: happens_def)
  then have "r" using r f(1,2) \<open>\<not> b_exited ?s2\<close> by (simp add: loop_run del: all_happen.simps)
  with heartbeat_thread_single [OF three_bot_ok(1) r] r show ?thesis by simp
qed

theorem heartbeats_in_time_witness:
  "b_effects (snd (run_state (ticks 0 4125) (three_bot\<lparr>b_threads := [(0, 0)], b_interval := 41250,
       b_client := (b_client three_bot)\<lparr>ws_heartbeat_active := True\<rparr>\<rparr>))) =
     [Write ''{\"op\":1, \"d\":null}'']"
proof -
  let ?s = "three_bot\<lparr>b_threads := [(0, 0)], b_interval := 41250,
       b_client := (b_client three_bot)\<lparr>ws_heartbeat_active := True\<rparr>\<rparr>"
  have "beating ?s" by (simp add: beating_def three_bot_def)
  from heartbeats_in_time [OF this, of 4125] show ?thesis
    by (simp add: three_bot_def beat_period_def heartbeat_text_def)
qed

theorem fragments_reassembled_witness:
  "delivered_texts (b_effects (snd (run_state (all_happen fun_map three_lib (Some no_callbacks)
     [Callback True (Receive ''he'' False), Callback True (Receive ''llo'' True), Callback True (Receive ''x'' False)])
     three_bot))) = [''hello'']"
proof -
  let ?fs = "[(''he'', False), (''llo'', True), (''x'', False)]"
  obtain u s' where s': "run_state (all_happen fun_map three_lib (Some no_callbacks)
      (map (\<lambda>f. Callback True (Receive (fst f) (snd f))) ?fs)) three_bot = (u, s')"
    by (rule prod.exhaust)
  have "ws_active (b_client three_bot)" "\<not> b_exited three_bot" "buffered three_bot = []" "b_effects three_bot = []"
    by (simp_all add: three_bot_def buffered_def ptr_str_def)
  with fragments_reassembled [OF three_bot_ok(2) _ _ s'] s' show ?thesis by simp
qed

end
