(* ===== verification/Start.thy ===== *)
theory Start
  imports Gateway_Safety
begin

text \<open>
  Starting and stopping the bot (\<open>discord_start_bot\<close> of \<open>disco.c\<close>): the caches, the web socket, the
  event loop, and the cleaning up after it. The thread pool, which is started before and destroyed
  after the loop, is the subject of \<open>Thread_Pool\<close>.
\<close>

record discord_config =
  message_cache_size :: int
  channel_cache_size :: int
  guild_cache_size :: int
  cache_callback :: "destroy_fn option"

text \<open>\<open>if (config->...) size = config->...\<close>, with 1000 before it.\<close>

definition or_default :: "int \<Rightarrow> int" where
  "or_default n = (if n \<noteq> 0 then n else 1000)"

definition cache_sizes :: "discord_config option \<Rightarrow> int \<times> int \<times> int" where
  "cache_sizes config =
     (case config of
        None \<Rightarrow> (1000, 1000, 1000)
      | Some c \<Rightarrow> (or_default (message_cache_size c), or_default (channel_cache_size c), or_default (guild_cache_size c)))"

text \<open>\<open>bot\<close> and \<open>client\<close> as they are declared, and the variables of \<open>gateway.c\<close>.\<close>

definition declared_bot :: "'m caches \<Rightarrow> string \<Rightarrow> 'm bot" where
  "declared_bot cs tok =
     \<lparr>b_state = \<lparr>ev_mem = \<lparr>next_blk = 0, freed = [], bad = False\<rparr>, ev_caches = cs, ev_message = (\<lambda>_. Nul),
        ev_channel = (\<lambda>_. Nul), ev_user = Nul, ev_session_id = Nul, ev_calls = []\<rparr>,
      b_client = \<lparr>ws_callbacks = Nul, ws_context = False, ws_content = Nul, ws_size = 0, ws_connected = False,
        ws_success_login = False, ws_active = False, ws_heartbeat_active = False, ws_exit = False,
        ws_heartbeat_thread = 0, ws_token = tok\<rparr>,
      b_threads = [], b_next_thread = 0, b_seq = - 1, b_interval = 10000, b_now = secs 0,
      b_last_heartbeat = secs 0, b_latency = 0, b_sigterm = False, b_exited = False, b_effects = []\<rparr>"

definition destroy_caches :: "('m bot_state, unit) state" where
  "destroy_caches = State (\<lambda>s.
     case discord_cache_destroy (ev_caches s) of
       None \<Rightarrow> run_state (in_memory fault) s
     | Some cs \<Rightarrow>
         run_state (in_memory (destroy_evicted (ev_message s) (ev_channel s)
           (drop (length (destroyed (ev_caches s))) (destroyed cs)))) (s\<lparr>ev_caches := cs\<rparr>))"

text \<open>
  \<open>created\<close> tells whether \<open>lws_create_context\<close> succeeds, \<open>rounds\<close> is what happens during the event
  loop and \<open>during\<close> what happens while the context is destroyed. The result of \<open>websocket_create\<close> and
  the callback of the configuration are not used.
\<close>

definition discord_start_bot ::
  "'m hashmap_api \<Rightarrow> 'j json_lib \<Rightarrow> discord_event_callbacks option \<Rightarrow> string \<Rightarrow> discord_config option \<Rightarrow>
   'm caches \<Rightarrow> bool \<Rightarrow> happening list list \<Rightarrow> happening list \<Rightarrow> bool \<times> 'm bot" where
  "discord_start_bot H L cb tok config cs0 created rounds during =
     (let (m, c, g) = cache_sizes config;
          (rc, cs) = discord_cache_init H m c g None cs0
      in if rc \<noteq> 0 then (False, (declared_bot cs tok)\<lparr>b_exited := True, b_effects := [Exit_Process]\<rparr>)
         else run_state (do {
           _ \<leftarrow> websocket_create created;
           _ \<leftarrow> websocket_connect;
           finished \<leftarrow> gateway_event_loop H L cb rounds;
           if \<not> finished then State_Monad.return False
           else do {
             _ \<leftarrow> websocket_destroy_client (all_happen H L cb during);
             user \<leftarrow> in_bot (State (\<lambda>s. (ev_user s, s)));
             _ \<leftarrow> in_mem (when_ptr destroy_user user);
             _ \<leftarrow> in_bot destroy_caches;
             State_Monad.return True } }) (declared_bot cs tok))"

section \<open>What is left when it returns\<close>

lemma declared_threads: "thread_inv (declared_bot cs tok)"
  by (simp add: thread_inv_def view_def declared_bot_def)

lemma create_ok: "thread_inv s \<Longrightarrow> b_threads s = [] \<Longrightarrow> thread_inv (snd (run_state (websocket_create created) s))"
  by (auto simp: websocket_create_def thread_inv_def view_def split_beta effect_def set_client_def in_bot_run
      State_Monad.return_def split: if_splits)

lemma closed_callback:
  fixes s :: "'m bot"
  assumes "threads_ok (view s)" and "b_threads s = []"
  shows "b_threads (snd (run_state (happens H L cb (Callback True Closed)) s)) = []"
proof -
  have n: "\<not> ws_heartbeat_active (b_client s)" using assms by (auto simp: view_def split: if_splits)
  have "b_threads (snd (run_state (websocket_callback (Some (gateway_on_receive H L cb)) True Closed) s)) = []"
    using assms(2) n
    by (simp add: websocket_callback_def split_beta client_def State_Monad.return_def websocket_connect_def
        websocket_close_def set_client_def effect_def in_bot_run)
  with assms(2) show ?thesis by (simp add: happens_def delivered_def)
qed

lemma closed_callbacks:
  "threads_ok (view s) \<Longrightarrow> b_threads s = [] \<Longrightarrow> set during \<subseteq> {Callback True Closed} \<Longrightarrow>
   threads_ok (view (snd (run_state (all_happen H L cb during) s))) \<and>
   b_threads (snd (run_state (all_happen H L cb during) s)) = []"
proof (induction during arbitrary: s)
  case Nil
  then show ?case by (simp add: State_Monad.return_def)
next
  case (Cons h hs)
  let ?t = "snd (run_state (happens H L cb h) s)"
  have h: "h = Callback True Closed" using Cons.prems(3) by simp
  have "threads_ok (view ?t)" by (rule happens_ok [OF Cons.prems(1)])
  moreover have "b_threads ?t = []" unfolding h by (rule closed_callback [OF Cons.prems(1,2)])
  ultimately show ?case using Cons.IH [of ?t] Cons.prems(3) by (simp add: split_beta)
qed

text \<open>C26. Whatever happens before, when \<open>discord_start_bot\<close> returns, no heartbeat thread is left that
  could use the client, which lives on its stack; the client is inactive. The caches were created with
  the configured sizes, 1000 for 0 or without a configuration, at least 2, and with the default
  callback whatever the configuration says.\<close>

theorem start_bot_leaves_no_thread:
  assumes "discord_start_bot H L cb tok config cs0 created rounds during = (True, s')"
    and "set during \<subseteq> {Callback True Closed}"
  shows "b_threads s' = [] \<and> \<not> ws_active (b_client s') \<and> \<not> ws_heartbeat_active (b_client s') \<and>
    (\<exists>m c g cs. cache_sizes config = (m, c, g) \<and> discord_cache_init H m c g None cs0 = (0, cs) \<and>
      c_max (messages cs) = max 2 m \<and> c_max (channels cs) = max 2 c \<and> c_max (guilds cs) = max 2 g \<and>
      destroy_item_callback cs = default_destroy_callback)"
proof -
  obtain m c g where sizes: "cache_sizes config = (m, c, g)" by (metis prod_cases3)
  obtain rc cs where init: "discord_cache_init H m c g None cs0 = (rc, cs)" by (rule prod.exhaust)
  have rc: "rc = 0" using assms(1) by (auto simp: discord_start_bot_def sizes init split: if_splits)
  let ?s0 = "declared_bot cs tok"
  obtain u s1 where s1: "run_state (websocket_create created) ?s0 = (u, s1)" by (rule prod.exhaust)
  obtain v s2 where s2: "run_state websocket_connect s1 = (v, s2)" by (rule prod.exhaust)
  obtain finished s3 where s3: "run_state (gateway_event_loop H L cb rounds) s2 = (finished, s3)" by (rule prod.exhaust)
  obtain w s4 where s4: "run_state (websocket_destroy_client (all_happen H L cb during)) s3 = (w, s4)" by (rule prod.exhaust)
  have "thread_inv s1"
    using create_ok [OF declared_threads, of cs tok created] s1 by (simp add: declared_bot_def)
  then have "thread_inv s2" using connect_ok [of s1] s2 by (simp add: thread_inv_def)
  note loop = loop_threads [OF this s3]
  have fin: "finished" "b_client s' = b_client s4" "b_threads s' = b_threads s4"
    using assms(1) by (auto simp: discord_start_bot_def sizes init rc s1 s2 s3 s4 split_beta in_bot_run
        State_Monad.return_def split: if_splits)
  let ?t = "s3\<lparr>b_effects := b_effects s3 @ (if ws_connected (b_client s3) then [Set_Timeout] else []) @ [Destroy_Context]\<rparr>"
  have t: "threads_ok (view ?t)" "b_threads ?t = []"
    using loop fin(1) by (simp_all add: thread_inv_def view_def)
  note d = closed_callbacks [OF t assms(2), of H L cb]
  have "b_threads s4 = b_threads (snd (run_state (all_happen H L cb during) ?t)) \<and>
      \<not> ws_active (b_client s4) \<and> \<not> ws_heartbeat_active (b_client s4)"
    using s4 by (auto simp: websocket_destroy_client_def split_beta client_def effect_def set_client_def in_bot_run
        State_Monad.return_def split: if_splits)
  moreover have "c_max (messages cs) = max 2 m \<and> c_max (channels cs) = max 2 c \<and> c_max (guilds cs) = max 2 g \<and>
      destroy_item_callback cs = default_destroy_callback"
    using init rc by (auto simp: discord_cache_init_def init_buffer_def clamp_size_def Let_def split: option.splits)
  ultimately show ?thesis using d fin sizes init rc by auto
qed

theorem start_bot_leaves_no_thread_witness:
  "\<exists>s'. discord_start_bot fun_map three_lib (Some no_callbacks) ''tok'' None (demo_caches []) True
     [[Callback True Established, Callback True Closed]] [] = (True, s') \<and> b_threads s' = []"
proof -
  let ?run = "discord_start_bot fun_map three_lib (Some no_callbacks) ''tok'' None (demo_caches []) True
     [[Callback True Established, Callback True Closed]] []"
  obtain r s' where r: "?run = (r, s')" by (rule prod.exhaust)
  have "r"
    using r
    by (simp add: discord_start_bot_def cache_sizes_def discord_cache_init_def init_buffer_def Let_def fun_map_def
        split_beta State_Monad.return_def websocket_create_def websocket_connect_def in_bot_run effect_def set_client_def
        client_def loop_run happens_def delivered_def websocket_callback_def websocket_close_def declared_bot_def)
  with start_bot_leaves_no_thread [of fun_map three_lib] r show ?thesis by fastforce
qed

end
