(* ===== verification/Json_Build.thy ===== *)
theory Json_Build
  imports Structs2
begin

text \<open>
  Building JSON. The functions of cJSON that build and print documents are the parameter \<open>B\<close>, a record
  of functions on the same abstract documents as the accessors; adding an item gives the document it
  is added to. \<open>builder_laws\<close> states what cJSON documents: what has been added is found again. Names
  are compared without regard to case, so the laws are about lower-case names, as the code uses.
\<close>

record 'j json_builder =
  create_object :: 'j
  create_array :: 'j
  create_string :: "string option \<Rightarrow> 'j option"
  create_number :: "rat \<Rightarrow> 'j"
  create_bool :: "bool \<Rightarrow> 'j"
  add_item_to_object :: "'j \<Rightarrow> string \<Rightarrow> 'j option \<Rightarrow> 'j"
  add_item_to_array :: "'j \<Rightarrow> 'j option \<Rightarrow> 'j"
  print_json :: "'j \<Rightarrow> string"

definition lower_name :: "string \<Rightarrow> bool" where
  "lower_name s \<longleftrightarrow> list_all (\<lambda>c. c = CHR ''_'' \<or> (97 \<le> (of_char c :: nat) \<and> (of_char c :: nat) \<le> 122)) s"

text \<open>The objects the code builds: from an empty one, item by item.\<close>

inductive built_object :: "'j json_builder \<Rightarrow> 'j \<Rightarrow> bool" for B where
  built_create: "built_object B (create_object B)"
| built_add: "built_object B j \<Longrightarrow> built_object B (add_item_to_object B j n v)"

definition builder_laws :: "'j cjson \<Rightarrow> 'j json_builder \<Rightarrow> bool" where
  "builder_laws J B \<longleftrightarrow>
     (\<forall>name. get_object_item J (Some (create_object B)) name = None) \<and>
     (\<forall>j n m v. built_object B j \<longrightarrow> lower_name n \<longrightarrow> lower_name m \<longrightarrow>
        get_object_item J (Some (add_item_to_object B j n (Some v))) m =
          (case get_object_item J (Some j) m of Some w \<Rightarrow> Some w | None \<Rightarrow> if m = n then Some v else None)) \<and>
     (\<forall>j n. add_item_to_object B j n None = j) \<and>
     json_children J (create_array B) = [] \<and>
     (\<forall>j v. json_children J (add_item_to_array B j (Some v)) = json_children J j @ [v]) \<and>
     (\<forall>j. add_item_to_array B j None = j) \<and>
     (\<forall>s. \<exists>j. create_string B (Some s) = Some j \<and> is_string J (Some j) \<and> valuestring J j = Some s) \<and>
     (\<forall>i. - (2 ^ 31) \<le> i \<and> i < 2 ^ 31 \<longrightarrow> is_number J (Some (create_number B (of_int i))) \<and>
        valueint J (create_number B (of_int i)) = i) \<and>
     (\<forall>b. is_bool J (Some (create_bool B b)))"

section \<open>The patterns of the code\<close>

definition to_str :: "string ptr \<Rightarrow> string option" where
  "to_str p = (case p of Nul \<Rightarrow> None | Ptr _ s \<Rightarrow> Some s)"

definition add_string :: "'j json_builder \<Rightarrow> string \<Rightarrow> string ptr \<Rightarrow> 'j \<Rightarrow> 'j" where
  "add_string B name p j = add_item_to_object B j name (create_string B (to_str p))"

text \<open>\<open>if (p) cJSON_AddItemToObject(json, name, cJSON_CreateString(p))\<close>.\<close>

definition add_string_if :: "'j json_builder \<Rightarrow> string \<Rightarrow> string ptr \<Rightarrow> 'j \<Rightarrow> 'j" where
  "add_string_if B name p j = (if p = Nul then j else add_string B name p j)"

definition add_number :: "'j json_builder \<Rightarrow> string \<Rightarrow> rat \<Rightarrow> 'j \<Rightarrow> 'j" where
  "add_number B name q j = add_item_to_object B j name (Some (create_number B q))"

definition add_bool :: "'j json_builder \<Rightarrow> string \<Rightarrow> bool \<Rightarrow> 'j \<Rightarrow> 'j" where
  "add_bool B name b j = add_item_to_object B j name (Some (create_bool B b))"

text \<open>\<open>char tmp[20]; sprintf(tmp, "%ju", id)\<close>.\<close>

definition print_id :: "u64 \<Rightarrow> (mem, string) state" where
  "print_id i = do {
     _ \<leftarrow> (if 20 \<le> length (show_u64 i) then fault else State_Monad.return ());
     State_Monad.return (show_u64 i) }"

text \<open>A loop that adds an item to an array for every element.\<close>

fun add_each :: "'j json_builder \<Rightarrow> ('a \<Rightarrow> (mem, 'j option) state) \<Rightarrow> 'a list \<Rightarrow> 'j \<Rightarrow> (mem, 'j) state" where
  "add_each B f [] arr = State_Monad.return arr"
| "add_each B f (x # xs) arr = do { v \<leftarrow> f x; add_each B f xs (add_item_to_array B arr v) }"

definition id_item :: "'j json_builder \<Rightarrow> u64 \<Rightarrow> (mem, 'j option) state" where
  "id_item B i = do { t \<leftarrow> print_id i; State_Monad.return (create_string B (Some t)) }"

definition elems :: "'a list ptr \<Rightarrow> 'a list" where
  "elems p = (case p of Nul \<Rightarrow> [] | Ptr _ xs \<Rightarrow> xs)"

section \<open>Reading what was built\<close>

lemma print_id_fits: "unat i < 10 ^ 19 \<Longrightarrow> print_id i = State_Monad.return (show_u64 i)"
proof -
  assume "unat i < 10 ^ 19"
  then have "length (show_u64 i) \<le> 19" by (simp only: show_u64_def length_show_nat_le_iff zero_less_numeral)
  then show ?thesis by (simp add: print_id_def)
qed

lemma print_id_overflows: "10 ^ 19 \<le> unat i \<Longrightarrow> print_id i = do { _ \<leftarrow> fault; State_Monad.return (show_u64 i) }"
proof -
  assume "10 ^ 19 \<le> unat i"
  then have "\<not> length (show_u64 i) \<le> 19" by (simp only: show_u64_def length_show_nat_le_iff zero_less_numeral not_le)
  then show ?thesis by (simp add: print_id_def)
qed

definition str_item :: "'j json_builder \<Rightarrow> string \<Rightarrow> 'j" where
  "str_item B s = the (create_string B (Some s))"

lemma create_string_item:
  assumes "builder_laws J B"
  shows "create_string B (Some s) = Some (str_item B s)" and "is_string J (Some (str_item B s))"
    and "valuestring J (str_item B s) = Some s"
proof -
  have "\<exists>j. create_string B (Some s) = Some j \<and> is_string J (Some j) \<and> valuestring J j = Some s"
    using assms unfolding builder_laws_def by blast
  then show "create_string B (Some s) = Some (str_item B s)" "is_string J (Some (str_item B s))"
    "valuestring J (str_item B s) = Some s"
    by (auto simp: str_item_def)
qed

abbreviation found :: "'j cjson \<Rightarrow> 'j \<Rightarrow> string \<Rightarrow> 'j option" where
  "found J j name \<equiv> get_object_item J (Some j) name"

text \<open>An item found in the document, otherwise the one added under the name.\<close>

definition orelse :: "'a option \<Rightarrow> 'a option \<Rightarrow> 'a option" where
  "orelse x y = (case x of None \<Rightarrow> y | Some v \<Rightarrow> Some v)"

lemma orelse_simps [simp]: "orelse None y = y" "orelse (Some v) y = Some v" "orelse x None = x"
  by (auto simp: orelse_def split: option.splits)

named_theorems json_found \<open>what is found in a document that has been built\<close>

lemma built_parts [json_found]:
  "built_object B (create_object B)"
  "built_object B j \<Longrightarrow> built_object B (add_item_to_object B j n v)"
  "built_object B j \<Longrightarrow> built_object B (add_string B n p j)"
  "built_object B j \<Longrightarrow> built_object B (add_string_if B n p j)"
  "built_object B j \<Longrightarrow> built_object B (add_number B n q j)"
  "built_object B j \<Longrightarrow> built_object B (add_bool B n b j)"
  "built_object B x \<Longrightarrow> built_object B y \<Longrightarrow> built_object B (if c then x else y)"
  by (simp_all add: built_object.intros add_string_def add_string_if_def add_number_def add_bool_def)

lemma found_object [json_found]: "builder_laws J B \<Longrightarrow> found J (create_object B) m = None"
  by (simp add: builder_laws_def)

lemma found_add [json_found]:
  "builder_laws J B \<Longrightarrow> built_object B j \<Longrightarrow> lower_name n \<Longrightarrow> lower_name m \<Longrightarrow>
   found J (add_item_to_object B j n v) m = orelse (found J j m) (if m = n then v else None)"
  by (cases v) (auto simp: builder_laws_def orelse_def split: option.splits)

lemma found_add_string [json_found]:
  "builder_laws J B \<Longrightarrow> built_object B j \<Longrightarrow> lower_name n \<Longrightarrow> lower_name m \<Longrightarrow>
   found J (add_string B n (Ptr b s) j) m = orelse (found J j m) (if m = n then Some (str_item B s) else None)"
  by (simp add: add_string_def to_str_def found_add create_string_item(1))

lemma found_add_string_if [json_found]:
  "builder_laws J B \<Longrightarrow> built_object B j \<Longrightarrow> lower_name n \<Longrightarrow> lower_name m \<Longrightarrow>
   found J (add_string_if B n p j) m =
     orelse (found J j m) (if m = n then map_option (str_item B) (to_str p) else None)"
  by (cases p) (simp_all add: add_string_if_def found_add_string to_str_def)

lemma found_add_number [json_found]:
  "builder_laws J B \<Longrightarrow> built_object B j \<Longrightarrow> lower_name n \<Longrightarrow> lower_name m \<Longrightarrow>
   found J (add_number B n q j) m = orelse (found J j m) (if m = n then Some (create_number B q) else None)"
  by (simp add: add_number_def found_add)

lemma found_add_bool [json_found]:
  "builder_laws J B \<Longrightarrow> built_object B j \<Longrightarrow> lower_name n \<Longrightarrow> lower_name m \<Longrightarrow>
   found J (add_bool B n b j) m = orelse (found J j m) (if m = n then Some (create_bool B b) else None)"
  by (simp add: add_bool_def found_add)

lemma found_if [json_found]: "found J (if b then x else y) m = (if b then found J x m else found J y m)"
  by simp

lemma add_each_ids:
  assumes "builder_laws J B" and "list_all (\<lambda>i. unat i < 10 ^ 19) is"
  obtains j where "add_each B (id_item B) is arr = State_Monad.return j"
    "json_children J j = json_children J arr @ map (\<lambda>i. str_item B (show_u64 i)) is"
  using assms(2)
proof (induction "is" arbitrary: arr thesis)
  case (Cons i "is")
  have c: "json_children J (add_item_to_array B arr (Some v)) = json_children J arr @ [v]" for v
    using assms(1) by (simp add: builder_laws_def)
  have i: "id_item B i = State_Monad.return (Some (str_item B (show_u64 i)))"
    using Cons.prems(2) create_string_item(1) [OF assms(1)] by (simp add: id_item_def print_id_fits)
  obtain j where "add_each B (id_item B) is (add_item_to_array B arr (Some (str_item B (show_u64 i)))) = State_Monad.return j"
      "json_children J j = json_children J (add_item_to_array B arr (Some (str_item B (show_u64 i)))) @
        map (\<lambda>i. str_item B (show_u64 i)) is"
    using Cons.IH Cons.prems(2) by auto
  then show ?case using Cons.prems(1) by (simp add: i c)
qed simp

lemma ids_of_items:
  assumes "builder_laws J B"
  shows "State_Monad.traverse_list (id_of_item J) (map (\<lambda>i. str_item B (show_u64 i)) is) = State_Monad.return is"
  by (induction "is") (simp_all add: id_of_item_def create_string_item(3) [OF assms])

section \<open>A small instance\<close>

definition small_builder :: "jval json_builder" where
  "small_builder =
     \<lparr>create_object = JObj [], create_array = JArr [], create_string = map_option JStr,
      create_number = JNum, create_bool = JBool,
      add_item_to_object = (\<lambda>j n v. case (j, v) of (JObj kvs, Some w) \<Rightarrow> JObj (kvs @ [(n, w)]) | _ \<Rightarrow> j),
      add_item_to_array = (\<lambda>j v. case v of None \<Rightarrow> j | Some w \<Rightarrow> JArr (json_children small_json j @ [w])),
      print_json = (\<lambda>_. ''{}'')\<rparr>"

lemma small_built: "built_object small_builder j \<Longrightarrow> \<exists>kvs. j = JObj kvs"
  by (induction rule: built_object.induct) (auto simp: small_builder_def split: option.splits)

lemma small_builder_laws: "builder_laws small_json small_builder"
proof -
  have found: "found small_json (add_item_to_object small_builder j n (Some v)) m =
      (case found small_json j m of Some w \<Rightarrow> Some w | None \<Rightarrow> if m = n then Some v else None)"
    if "built_object small_builder j" for j n m v
    using small_built [OF that] by (auto simp: small_builder_def map_add_def split: option.splits)
  have add: "add_item_to_object small_builder j n None = j" for j n
    by (cases j) (simp_all add: small_builder_def)
  show ?thesis
    unfolding builder_laws_def using found add
    by (auto simp: small_builder_def small_json_def)
qed

end
