(* ===== verification/Message_Json.thy ===== *)
theory Message_Json
  imports Json_Build Websocket Request
begin

text \<open>
  The messages the application sends (the second half of \<open>message.c\<close>): the JSON of embeds, allowed
  mentions, references and whole messages, and the requests that send, edit and fetch messages. What
  is printed into a buffer that is too small is a fault, after which the code goes on.
\<close>

section \<open>Embeds\<close>

definition embed_add_footer :: "'j json_builder \<Rightarrow> discord_embed_footer \<Rightarrow> 'j \<Rightarrow> 'j" where
  "embed_add_footer B footer emb =
     (let footer_obj = create_object B;
          footer_obj = add_string_if B ''text'' (ef_text footer) footer_obj;
          footer_obj = add_string_if B ''icon_url'' (ef_icon_url footer) footer_obj;
          footer_obj = add_string_if B ''proxy_icon_url'' (ef_proxy_icon_url footer) footer_obj
      in add_item_to_object B emb ''footer'' (Some footer_obj))"

definition embed_add_media :: "'j json_builder \<Rightarrow> discord_embed_media \<Rightarrow> string \<Rightarrow> 'j \<Rightarrow> 'j" where
  "embed_add_media B media media_type emb =
     (let media_obj = create_object B;
          media_obj = add_string_if B ''url'' (em_url media) media_obj;
          media_obj = add_string_if B ''proxy_url'' (em_proxy_url media) media_obj;
          media_obj = add_number B ''height'' (of_int (em_height media)) media_obj;
          media_obj = add_number B ''width'' (of_int (em_width media)) media_obj
      in add_item_to_object B emb media_type (Some media_obj))"

definition embed_add_author :: "'j json_builder \<Rightarrow> discord_embed_author \<Rightarrow> 'j \<Rightarrow> 'j" where
  "embed_add_author B author emb =
     (let author_obj = create_object B;
          author_obj = add_string_if B ''name'' (ea_name author) author_obj;
          author_obj = add_string_if B ''url'' (ea_url author) author_obj;
          author_obj = add_string_if B ''icon_url'' (ea_icon_url author) author_obj;
          author_obj = add_string_if B ''proxy_icon_url'' (ea_proxy_icon_url author) author_obj
      in add_item_to_object B emb ''author'' (Some author_obj))"

definition embed_field_json :: "'j json_builder \<Rightarrow> discord_embed_field \<Rightarrow> 'j" where
  "embed_field_json B field =
     (let field_obj = create_object B;
          field_obj = add_string_if B ''name'' (ed_name field) field_obj;
          field_obj = add_string_if B ''value'' (ed_value field) field_obj
      in add_bool B ''inline'' (ed_inline field) field_obj)"

text \<open>An element of an array is dereferenced without a test.\<close>

definition embed_add_field :: "'j json_builder \<Rightarrow> discord_embed_field ptr \<Rightarrow> (mem, 'j option) state" where
  "embed_add_field B field =
     (case field of
        Nul \<Rightarrow> do { _ \<leftarrow> fault; State_Monad.return None }
      | Ptr _ f \<Rightarrow> State_Monad.return (Some (embed_field_json B f)))"

definition add_if :: "('a \<Rightarrow> 'j \<Rightarrow> 'j) \<Rightarrow> 'a ptr \<Rightarrow> 'j \<Rightarrow> 'j" where
  "add_if f p j = (case p of Nul \<Rightarrow> j | Ptr _ x \<Rightarrow> f x j)"

definition embed_add_provider :: "'j json_builder \<Rightarrow> discord_embed_provider \<Rightarrow> 'j \<Rightarrow> 'j" where
  "embed_add_provider B provider emb =
     (let provider_obj = create_object B;
          provider_obj = add_string_if B ''name'' (ep_name provider) provider_obj;
          provider_obj = (if ep_name provider = Nul then provider_obj
                          else add_string B ''url'' (ep_url provider) provider_obj)
      in add_item_to_object B emb ''provider'' (Some provider_obj))"

definition create_embed_json :: "'j json_builder \<Rightarrow> discord_embed ptr \<Rightarrow> (mem, 'j option) state" where
  "create_embed_json B p =
     (case p of
        Nul \<Rightarrow> do { _ \<leftarrow> fault; State_Monad.return None }
      | Ptr _ emb \<Rightarrow>
          let embed_obj = create_object B;
              embed_obj = add_string_if B ''title'' (eb_title emb) embed_obj;
              embed_obj = add_string_if B ''description'' (eb_description emb) embed_obj;
              embed_obj = add_string B ''type'' (eb_type emb) embed_obj;
              embed_obj = add_string_if B ''url'' (eb_url emb) embed_obj;
              embed_obj = add_string_if B ''timestamp'' (eb_timestamp emb) embed_obj;
              embed_obj = add_number B ''color'' (of_int (eb_color emb)) embed_obj;
              embed_obj = add_if (embed_add_footer B) (eb_footer emb) embed_obj;
              embed_obj = add_if (\<lambda>m. embed_add_media B m ''image'') (eb_image emb) embed_obj;
              embed_obj = add_if (\<lambda>m. embed_add_media B m ''thumbnail'') (eb_thumbnail emb) embed_obj;
              embed_obj = add_if (\<lambda>m. embed_add_media B m ''video'') (eb_video emb) embed_obj;
              embed_obj = add_if (embed_add_provider B) (eb_provider emb) embed_obj;
              embed_obj = add_if (embed_add_author B) (eb_author emb) embed_obj
          in if elems (eb_fields emb) = [] then State_Monad.return (Some embed_obj)
             else do {
               fields \<leftarrow> add_each B (embed_add_field B) (elems (eb_fields emb)) (create_array B);
               State_Monad.return (Some (add_item_to_object B embed_obj ''fields'' (Some fields))) })"

section \<open>Allowed mentions and references\<close>

record discord_allowed_mentions =
  am_parse_role_mentions :: int
  am_parse_user_mentions :: int
  am_parse_everyone_mentions :: int
  am_roles :: "u64 list ptr"
  am_users :: "u64 list ptr"
  am_replied_user :: bool

definition add_text_if :: "'j json_builder \<Rightarrow> int \<Rightarrow> string \<Rightarrow> 'j \<Rightarrow> 'j" where
  "add_text_if B flag text arr = (if flag \<noteq> 0 then add_item_to_array B arr (create_string B (Some text)) else arr)"

text \<open>\<open>if (count > 0)\<close> an array of printed IDs is added under the name.\<close>

definition add_ids :: "'j json_builder \<Rightarrow> string \<Rightarrow> u64 list ptr \<Rightarrow> 'j \<Rightarrow> (mem, 'j) state" where
  "add_ids B name ids j =
     (if elems ids = [] then State_Monad.return j
      else do {
        arr \<leftarrow> add_each B (id_item B) (elems ids) (create_array B);
        State_Monad.return (add_item_to_object B j name (Some arr)) })"

definition create_allowed_mentions :: "'j json_builder \<Rightarrow> discord_allowed_mentions \<Rightarrow> (mem, 'j) state" where
  "create_allowed_mentions B am = do {
     let parse = create_array B;
     let parse = add_text_if B (am_parse_role_mentions am) ''roles'' parse;
     let parse = add_text_if B (am_parse_user_mentions am) ''users'' parse;
     let parse = add_text_if B (am_parse_everyone_mentions am) ''everyone'' parse;
     let obj = add_item_to_object B (create_object B) ''parse'' (Some parse);
     obj \<leftarrow> add_ids B ''roles'' (am_roles am) obj;
     obj \<leftarrow> add_ids B ''users'' (am_users am) obj;
     State_Monad.return (add_bool B ''replied_user'' (am_replied_user am) obj) }"

definition add_id_if :: "'j json_builder \<Rightarrow> string \<Rightarrow> u64 \<Rightarrow> 'j \<Rightarrow> (mem, 'j) state" where
  "add_id_if B name i j =
     (if i = 0 then State_Monad.return j
      else do { v \<leftarrow> id_item B i; State_Monad.return (add_item_to_object B j name v) })"

definition create_message_reference :: "'j json_builder \<Rightarrow> discord_message_reference \<Rightarrow> (mem, 'j) state" where
  "create_message_reference B ref = do {
     let obj = create_object B;
     obj \<leftarrow> add_id_if B ''message_id'' (mr_message_id ref) obj;
     obj \<leftarrow> add_id_if B ''channel_id'' (mr_channel_id ref) obj;
     obj \<leftarrow> add_id_if B ''guild_id'' (mr_guild_id ref) obj;
     State_Monad.return (add_bool B ''fail_if_not_exists'' (mr_fail_if_not_exists ref) obj) }"

section \<open>Messages\<close>

record discord_create_message =
  cm_tts :: bool
  cm_embed :: "discord_embed ptr"
  cm_embeds :: "discord_embed ptr list ptr"
  cm_allowed_mentions :: "discord_allowed_mentions ptr"
  cm_message_reference :: "discord_message_reference ptr"
  cm_components :: "discord_component ptr list ptr"
  cm_sticker_ids :: "u64 list ptr"
  cm_attachments :: "discord_attachment ptr list ptr"
  cm_flags :: int

definition add_content :: "'j json_builder \<Rightarrow> string ptr \<Rightarrow> 'j \<Rightarrow> 'j" where
  "add_content B content json = (if ptr_str content = [] then json else add_string B ''content'' content json)"

definition add_embeds :: "'j json_builder \<Rightarrow> discord_create_message \<Rightarrow> 'j \<Rightarrow> (mem, 'j) state" where
  "add_embeds B message json =
     (if elems (cm_embeds message) = [] \<and> cm_embed message = Nul then State_Monad.return json
      else do {
        embeds \<leftarrow> (if cm_embed message = Nul then State_Monad.return (create_array B)
                    else do { e \<leftarrow> create_embed_json B (cm_embed message);
                              State_Monad.return (add_item_to_array B (create_array B) e) });
        embeds \<leftarrow> add_each B (create_embed_json B) (elems (cm_embeds message)) embeds;
        State_Monad.return (add_item_to_object B json ''embeds'' (Some embeds)) })"

definition add_allowed_mentions :: "'j json_builder \<Rightarrow> discord_create_message \<Rightarrow> 'j \<Rightarrow> (mem, 'j) state" where
  "add_allowed_mentions B message json =
     (case cm_allowed_mentions message of
        Nul \<Rightarrow> State_Monad.return json
      | Ptr _ am \<Rightarrow> do {
          v \<leftarrow> create_allowed_mentions B am;
          State_Monad.return (add_item_to_object B json ''allowed_mentions'' (Some v)) })"

definition add_reference :: "'j json_builder \<Rightarrow> discord_create_message \<Rightarrow> 'j \<Rightarrow> (mem, 'j) state" where
  "add_reference B message json =
     (case cm_message_reference message of
        Nul \<Rightarrow> State_Monad.return json
      | Ptr _ r \<Rightarrow> do {
          v \<leftarrow> create_message_reference B r;
          State_Monad.return (add_item_to_object B json ''message_reference'' (Some v)) })"

definition attachment_json :: "'j json_builder \<Rightarrow> nat \<times> discord_attachment ptr \<Rightarrow> (mem, 'j option) state" where
  "attachment_json B a =
     (case a of
        (_, Nul) \<Rightarrow> do { _ \<leftarrow> fault; State_Monad.return None }
      | (i, Ptr _ x) \<Rightarrow>
          let att = create_object B;
              att = add_number B ''id'' (of_nat i) att;
              att = add_string B ''description'' (at_description x) att;
              att = add_string B ''filename'' (at_filename x) att
          in State_Monad.return (Some att))"

definition add_attachments :: "'j json_builder \<Rightarrow> discord_create_message \<Rightarrow> 'j \<Rightarrow> (mem, 'j) state" where
  "add_attachments B message json =
     (if elems (cm_attachments message) = [] then State_Monad.return json
      else do {
        arr \<leftarrow> add_each B (attachment_json B) (enumerate 0 (elems (cm_attachments message))) (create_array B);
        State_Monad.return (add_item_to_object B json ''attachments'' (Some arr)) })"

definition add_flags :: "'j json_builder \<Rightarrow> discord_create_message \<Rightarrow> 'j \<Rightarrow> 'j" where
  "add_flags B message json =
     (if cm_flags message = 0 then json else add_number B ''flags'' (of_int (cm_flags message)) json)"

definition create_message_to_json ::
  "'j json_builder \<Rightarrow> 'j \<Rightarrow> string ptr \<Rightarrow> discord_create_message ptr \<Rightarrow> (mem, 'j) state" where
  "create_message_to_json B json content p = do {
     let json = add_content B content json;
     case p of
       Nul \<Rightarrow> State_Monad.return json
     | Ptr _ message \<Rightarrow> do {
         json \<leftarrow> add_embeds B message json;
         json \<leftarrow> add_allowed_mentions B message json;
         json \<leftarrow> add_reference B message json;
         json \<leftarrow> add_ids B ''sticker_ids'' (cm_sticker_ids message) json;
         json \<leftarrow> add_attachments B message json;
         State_Monad.return (add_flags B message json) } }"

section \<open>Requests\<close>

text \<open>\<open>sprintf\<close> into a buffer of \<open>n\<close> bytes.\<close>

definition print_into :: "nat \<Rightarrow> string \<Rightarrow> (mem, string) state" where
  "print_into n s = do {
     _ \<leftarrow> (if n \<le> length s then fault else State_Monad.return ());
     State_Monad.return s }"

definition channel_url :: "u64 \<Rightarrow> string" where
  "channel_url cid = ''https://discord.com/api/v10/channels/'' @ show_u64 cid @ ''/messages''"

definition message_url :: "u64 \<Rightarrow> u64 \<Rightarrow> string" where
  "message_url cid mid = channel_url cid @ ''/'' @ show_u64 mid"

definition file_name :: "discord_attachment ptr \<Rightarrow> (mem, string) state" where
  "file_name a =
     (case a of
        Nul \<Rightarrow> do { _ \<leftarrow> fault; State_Monad.return [] }
      | Ptr _ x \<Rightarrow>
          (case at_filename x of
             Nul \<Rightarrow> do { _ \<leftarrow> fault; State_Monad.return [] }
           | Ptr _ f \<Rightarrow> State_Monad.return (strndup f 256)))"

definition file_names :: "discord_create_message ptr \<Rightarrow> (mem, string list) state" where
  "file_names p =
     (case p of
        Nul \<Rightarrow> State_Monad.return []
      | Ptr _ message \<Rightarrow> State_Monad.traverse_list file_name (elems (cm_attachments message)))"

type_synonym queued_request = "(request_work_node \<times> timeval) option"

text \<open>\<open>tok\<close> is the token of the bot, which is not NULL here; \<open>cb\<close> tells that there is a callback.\<close>

definition discord_channel_send_message ::
  "'j json_builder \<Rightarrow> string \<Rightarrow> string ptr \<Rightarrow> u64 \<Rightarrow> discord_create_message ptr \<Rightarrow> bool \<Rightarrow> (mem, queued_request) state" where
  "discord_channel_send_message B tok content cid message cb = do {
     json \<leftarrow> create_message_to_json B (create_object B) content message;
     url \<leftarrow> print_into 80 (channel_url cid);
     files \<leftarrow> file_names message;
     State_Monad.return (request url (Some (print_json B json)) REQUEST_POST tok True
       (if cb then Some DISCORD_MESSAGE_CALLBACK else None) files) }"

text \<open>The attachments are looked up in the message without the test for NULL before it.\<close>

definition discord_channel_edit_message ::
  "'j json_builder \<Rightarrow> string \<Rightarrow> string ptr \<Rightarrow> u64 \<Rightarrow> u64 \<Rightarrow> discord_create_message ptr \<Rightarrow> (mem, queued_request) state" where
  "discord_channel_edit_message B tok content cid mid p = do {
     let json = add_content B content (create_object B);
     json \<leftarrow> (case p of
                Nul \<Rightarrow> State_Monad.return json
              | Ptr _ message \<Rightarrow> do {
                  json \<leftarrow> add_embeds B message json;
                  json \<leftarrow> add_allowed_mentions B message json;
                  State_Monad.return (add_flags B message json) });
     files \<leftarrow> (case p of
                 Nul \<Rightarrow> do { _ \<leftarrow> fault; State_Monad.return [] }
               | Ptr _ _ \<Rightarrow> file_names p);
     uri \<leftarrow> print_into 100 (message_url cid mid);
     State_Monad.return (request uri (Some (print_json B json)) REQUEST_PATCH tok True None files) }"

text \<open>The first of \<open>around\<close>, \<open>before\<close> and \<open>after\<close> that is not 0 is used.\<close>

definition id_field :: "u64 \<Rightarrow> u64 \<Rightarrow> u64 \<Rightarrow> string" where
  "id_field around before after =
     (if around \<noteq> 0 then ''around='' @ show_u64 around
      else if before \<noteq> 0 then ''before='' @ show_u64 before
      else if after \<noteq> 0 then ''after='' @ show_u64 after
      else [])"

definition discord_get_messages ::
  "string \<Rightarrow> u64 \<Rightarrow> int \<Rightarrow> u64 \<Rightarrow> u64 \<Rightarrow> u64 \<Rightarrow> (mem, queued_request) state" where
  "discord_get_messages tok cid limit around before after = do {
     url \<leftarrow> print_into 200 (channel_url cid @ ''?'');
     field \<leftarrow> print_into 35 (id_field around before after);
     let url = url @ strndup field 35;
     url \<leftarrow> (if limit = 0 then State_Monad.return url
             else do {
               lim \<leftarrow> print_into 15 ((if field = [] then [] else ''&'') @ ''limit='' @ show_int limit);
               State_Monad.return (url @ strndup lim 15) });
     State_Monad.return (request url None REQUEST_GET tok True (Some DISCORD_MULTIPLE_MESSAGE_CALLBACK) []) }"

definition discord_fetch_message :: "string \<Rightarrow> u64 \<Rightarrow> u64 \<Rightarrow> bool \<Rightarrow> (mem, queued_request) state" where
  "discord_fetch_message tok cid mid cb =
     (if \<not> cb then State_Monad.return None
      else do {
        url \<leftarrow> print_into 100 (message_url cid mid);
        State_Monad.return (request url None REQUEST_GET tok True (Some DISCORD_MESSAGE_CALLBACK) []) })"

text \<open>What \<open>cb\<close> is called with, and the request that is made as well.\<close>

definition discord_get_message ::
  "'m hashmap_api \<Rightarrow> string \<Rightarrow> u64 \<Rightarrow> u64 \<Rightarrow> bool \<Rightarrow> ('m bot_state, discord_message ptr list \<times> queued_request) state" where
  "discord_get_message H tok cid mid cb =
     (if \<not> cb then State_Monad.return ([], None)
      else do {
        msg \<leftarrow> discord_cache_get_message H mid;
        fetched \<leftarrow> in_memory (discord_fetch_message tok cid mid cb);
        State_Monad.return (if msg = Nul then [] else [msg], fetched) })"

section \<open>The JSON of a message read back\<close>

lemma message_names:
  "lower_name ''content''" "lower_name ''embeds''" "lower_name ''allowed_mentions''"
  "lower_name ''message_reference''" "lower_name ''sticker_ids''" "lower_name ''attachments''"
  "lower_name ''flags''" "lower_name ''message_id''" "lower_name ''channel_id''" "lower_name ''guild_id''"
  "lower_name ''fail_if_not_exists''" "lower_name ''parse''" "lower_name ''roles''" "lower_name ''users''"
  "lower_name ''replied_user''"
  by (simp_all add: lower_name_def)

text \<open>What a part adds: nothing, or one item under its name.\<close>

definition adds :: "(mem, 'j) state \<Rightarrow> 'j json_builder \<Rightarrow> 'j \<Rightarrow> string \<Rightarrow> ('j option \<Rightarrow> bool) \<Rightarrow> bool" where
  "adds c B json name P \<longleftrightarrow> (\<exists>v. c = State_Monad.return (add_item_to_object B json name v) \<and> P v)"

lemma add_None: "builder_laws J B \<Longrightarrow> add_item_to_object B j n None = j"
  by (simp add: builder_laws_def)

lemma addsE:
  assumes "adds c B json name P"
  obtains v where "c = State_Monad.return (add_item_to_object B json name v)" "P v"
  using assms unfolding adds_def by blast

lemma ids_added:
  assumes "builder_laws J B" and "list_all (\<lambda>i. unat i < 10 ^ 19) (elems ids)"
  shows "adds (add_ids B name ids json) B json name
    (\<lambda>v. json_items J v = map (\<lambda>i. str_item B (show_u64 i)) (elems ids))"
proof (cases "elems ids = []")
  case True
  then show ?thesis
    unfolding adds_def by (intro exI [of _ None]) (simp add: add_ids_def add_None [OF assms(1)] json_items_def)
next
  case False
  obtain j where j: "add_each B (id_item B) (elems ids) (create_array B) = State_Monad.return j"
      "json_children J j = json_children J (create_array B) @ map (\<lambda>i. str_item B (show_u64 i)) (elems ids)"
    by (rule add_each_ids [OF assms])
  have "json_children J (create_array B) = []" using assms(1) by (simp add: builder_laws_def)
  then show ?thesis
    unfolding adds_def using False j by (intro exI [of _ "Some j"]) (simp add: add_ids_def json_items_def)
qed

text \<open>The IDs are read back by the reader of ID arrays.\<close>

lemma ids_read_back:
  assumes "builder_laws J B" and "json_items J (get_object_item J data name) = map (\<lambda>i. str_item B (show_u64 i)) ids"
  shows "fst (run_state (get_ids_from_json J data name) m) = (if ids = [] then Nul else Ptr (next_blk m) ids)"
  using ids_of_items [OF assms(1), of ids]
  by (simp add: get_ids_from_json_def assms(2) fresh_blk_def)

lemma add_each_total:
  assumes "builder_laws J B" and "\<And>x. x \<in> set xs \<Longrightarrow> \<exists>v. f x = State_Monad.return (Some v)"
  shows "\<exists>j. add_each B f xs arr = State_Monad.return j \<and>
    length (json_children J j) = length (json_children J arr) + length xs"
  using assms(2)
proof (induction xs arbitrary: arr)
  case (Cons x xs)
  obtain v where v: "f x = State_Monad.return (Some v)" using Cons.prems [of x] by auto
  have "json_children J (add_item_to_array B arr (Some v)) = json_children J arr @ [v]"
    using assms(1) by (simp add: builder_laws_def)
  moreover have "\<exists>j. add_each B f xs (add_item_to_array B arr (Some v)) = State_Monad.return j \<and>
      length (json_children J j) = length (json_children J (add_item_to_array B arr (Some v))) + length xs"
    by (rule Cons.IH) (use Cons.prems in auto)
  ultimately show ?case by (auto simp: v)
qed auto

definition embed_sendable :: "discord_embed ptr \<Rightarrow> bool" where
  "embed_sendable p \<longleftrightarrow> (case p of Nul \<Rightarrow> False | Ptr _ e \<Rightarrow> list_all (\<lambda>f. f \<noteq> Nul) (elems (eb_fields e)))"

lemma embed_total:
  assumes "builder_laws J B" and "embed_sendable p"
  shows "\<exists>j. create_embed_json B p = State_Monad.return (Some j)"
proof -
  obtain b e where p: "p = Ptr b e" "list_all (\<lambda>f. f \<noteq> Nul) (elems (eb_fields e))"
    using assms(2) by (cases p) (auto simp: embed_sendable_def)
  have f: "\<exists>v. embed_add_field B x = State_Monad.return (Some v)" if "x \<in> set (elems (eb_fields e))" for x
  proof -
    have "x \<noteq> Nul" using that p(2) unfolding list_all_iff by blast
    then show ?thesis by (cases x) (auto simp: embed_add_field_def)
  qed
  obtain j where "add_each B (embed_add_field B) (elems (eb_fields e)) (create_array B) = State_Monad.return j"
    using add_each_total [OF assms(1), of "elems (eb_fields e)" "embed_add_field B" "create_array B"] f by blast
  then show ?thesis by (auto simp: p(1) create_embed_json_def Let_def)
qed

lemma no_children: "builder_laws J B \<Longrightarrow> json_children J (create_array B) = []"
  by (simp add: builder_laws_def)

lemma embeds_added:
  assumes "builder_laws J B" and "cm_embed m \<noteq> Nul \<longrightarrow> embed_sendable (cm_embed m)"
    and "list_all embed_sendable (elems (cm_embeds m))"
  shows "adds (add_embeds B m json) B json ''embeds'' (\<lambda>v. length (json_items J v) =
    (if cm_embed m = Nul then 0 else 1) + length (elems (cm_embeds m)))"
proof (cases "elems (cm_embeds m) = [] \<and> cm_embed m = Nul")
  case True
  then show ?thesis
    unfolding adds_def by (intro exI [of _ None]) (simp add: add_embeds_def add_None [OF assms(1)] json_items_def)
next
  case False
  have e: "\<exists>v. create_embed_json B x = State_Monad.return (Some v)" if "x \<in> set (elems (cm_embeds m))" for x
    using embed_total [OF assms(1), of x] assms(3) that by (simp add: list_all_iff)
  let ?first = "if cm_embed m = Nul then State_Monad.return (create_array B)
      else do { e \<leftarrow> create_embed_json B (cm_embed m);
                State_Monad.return (add_item_to_array B (create_array B) e) }"
  obtain arr where arr: "?first = State_Monad.return arr"
      "length (json_children J arr) = (if cm_embed m = Nul then 0 else 1)"
  proof (cases "cm_embed m = Nul")
    case False
    then obtain v where "create_embed_json B (cm_embed m) = State_Monad.return (Some v)"
      using embed_total [OF assms(1)] assms(2) by blast
    moreover have "json_children J (add_item_to_array B (create_array B) (Some v)) = [v]"
      using assms(1) by (simp add: builder_laws_def)
    ultimately show thesis using False by (intro that) auto
  qed (intro that, auto simp: no_children [OF assms(1)])
  obtain j where j: "add_each B (create_embed_json B) (elems (cm_embeds m)) arr = State_Monad.return j"
      "length (json_children J j) = length (json_children J arr) + length (elems (cm_embeds m))"
    using add_each_total [OF assms(1), of "elems (cm_embeds m)" "create_embed_json B" arr] e by blast
  have "add_embeds B m json = State_Monad.return (add_item_to_object B json ''embeds'' (Some j))"
    unfolding add_embeds_def if_not_P [OF False] arr(1) by (simp add: j(1))
  then show ?thesis
    unfolding adds_def using j(2) arr(2) by (intro exI [of _ "Some j"]) (simp add: json_items_def)
qed

lemma attachments_added:
  assumes "builder_laws J B" and "list_all (\<lambda>a. a \<noteq> Nul) (elems (cm_attachments m))"
  shows "adds (add_attachments B m json) B json ''attachments'' (\<lambda>v. length (json_items J v) = length (elems (cm_attachments m)))"
proof (cases "elems (cm_attachments m) = []")
  case True
  then show ?thesis
    unfolding adds_def by (intro exI [of _ None]) (simp add: add_attachments_def add_None [OF assms(1)] json_items_def)
next
  case False
  let ?xs = "enumerate 0 (elems (cm_attachments m))"
  have "\<exists>v. attachment_json B x = State_Monad.return (Some v)" if "x \<in> set ?xs" for x
  proof -
    have "snd x \<in> set (elems (cm_attachments m))" using that by (auto simp: in_set_enumerate_eq) (metis nth_mem)
    then have "snd x \<noteq> Nul" using assms(2) unfolding list_all_iff by blast
    then show ?thesis by (cases x; cases "snd x") (auto simp: attachment_json_def Let_def)
  qed
  then obtain j where "add_each B (attachment_json B) ?xs (create_array B) = State_Monad.return j"
      "length (json_children J j) = length (json_children J (create_array B)) + length ?xs"
    using add_each_total [OF assms(1), of ?xs "attachment_json B" "create_array B"] by blast
  moreover have "length ?xs = length (elems (cm_attachments m))" by simp
  ultimately have "add_each B (attachment_json B) ?xs (create_array B) = State_Monad.return j"
    "length (json_children J j) = length (elems (cm_attachments m))"
    by (simp_all add: no_children [OF assms(1)])
  then show ?thesis
    unfolding adds_def using False by (intro exI [of _ "Some j"]) (simp add: add_attachments_def json_items_def)
qed

definition ids_fit :: "u64 list \<Rightarrow> bool" where
  "ids_fit is \<longleftrightarrow> list_all (\<lambda>i. unat i < 10 ^ 19) is"

lemma mentions_built:
  assumes L: "builder_laws J B" and fit: "ids_fit (elems (am_roles am))" "ids_fit (elems (am_users am))"
  obtains j where "create_allowed_mentions B am = State_Monad.return j"
    "json_items J (found J j ''roles'') = map (\<lambda>i. str_item B (show_u64 i)) (elems (am_roles am))"
    "json_items J (found J j ''users'') = map (\<lambda>i. str_item B (show_u64 i)) (elems (am_users am))"
proof -
  let ?p = "add_text_if B (am_parse_everyone_mentions am) ''everyone''
      (add_text_if B (am_parse_user_mentions am) ''users''
        (add_text_if B (am_parse_role_mentions am) ''roles'' (create_array B)))"
  let ?o = "add_item_to_object B (create_object B) ''parse'' (Some ?p)"
  obtain r where r: "add_ids B ''roles'' (am_roles am) ?o = State_Monad.return (add_item_to_object B ?o ''roles'' r)"
      "json_items J r = map (\<lambda>i. str_item B (show_u64 i)) (elems (am_roles am))"
    using ids_added [OF L fit(1) [unfolded ids_fit_def], of "''roles''" ?o] by (rule addsE)
  let ?o2 = "add_item_to_object B ?o ''roles'' r"
  obtain u where u: "add_ids B ''users'' (am_users am) ?o2 = State_Monad.return (add_item_to_object B ?o2 ''users'' u)"
      "json_items J u = map (\<lambda>i. str_item B (show_u64 i)) (elems (am_users am))"
    using ids_added [OF L fit(2) [unfolded ids_fit_def], of "''users''" ?o2] by (rule addsE)
  show thesis
  proof (rule that)
    show "create_allowed_mentions B am =
        State_Monad.return (add_bool B ''replied_user'' (am_replied_user am) (add_item_to_object B ?o2 ''users'' u))"
      by (simp add: create_allowed_mentions_def Let_def r(1) u(1))
  qed (simp_all add: json_found L message_names r(2) u(2))
qed

lemma reference_built:
  assumes J: "json_laws J" and L: "builder_laws J B"
    and fit: "ids_fit [mr_message_id r, mr_channel_id r, mr_guild_id r]"
  obtains j where "create_message_reference B r = State_Monad.return j"
    "get_long_from_string_json J (Some j) ''message_id'' 0 = mr_message_id r"
    "get_long_from_string_json J (Some j) ''channel_id'' 0 = mr_channel_id r"
    "get_long_from_string_json J (Some j) ''guild_id'' 0 = mr_guild_id r"
proof -
  have add: "add_id_if B n i j = State_Monad.return (if i = 0 then j else add_item_to_object B j n (Some (str_item B (show_u64 i))))"
    if "unat i < 10 ^ 19" for n i j
    using that by (simp add: add_id_if_def id_item_def print_id_fits create_string_item(1) [OF L])
  have reads: "get_long_from_string_json J d n 0 = i"
    if "get_object_item J d n = (if i = 0 then None else Some (str_item B (show_u64 i)))" for d n i
    using that get_long_of_shown_id [OF J, of d n "str_item B (show_u64 i)" i 0] create_string_item(2,3) [OF L]
    by (cases "i = 0") (simp_all add: get_long_from_string_json_def)
  let ?a = "\<lambda>n i j. if i = 0 then j else add_item_to_object B j n (Some (str_item B (show_u64 i)))"
  let ?j = "add_bool B ''fail_if_not_exists'' (mr_fail_if_not_exists r)
      (?a ''guild_id'' (mr_guild_id r) (?a ''channel_id'' (mr_channel_id r)
        (?a ''message_id'' (mr_message_id r) (create_object B))))"
  show thesis
  proof (rule that)
    show "create_message_reference B r = State_Monad.return ?j"
      using fit by (simp add: create_message_reference_def ids_fit_def add)
    show "get_long_from_string_json J (Some ?j) ''message_id'' 0 = mr_message_id r"
      "get_long_from_string_json J (Some ?j) ''channel_id'' 0 = mr_channel_id r"
      "get_long_from_string_json J (Some ?j) ''guild_id'' 0 = mr_guild_id r"
      by (rule reads; simp add: json_found L message_names)+
  qed
qed

text \<open>
  What the application must respect: IDs below \<open>10 ^ 19\<close>, as all of Discord are, and no NULL in the
  arrays.
\<close>

definition sendable :: "discord_create_message \<Rightarrow> bool" where
  "sendable m \<longleftrightarrow>
     (cm_embed m \<noteq> Nul \<longrightarrow> embed_sendable (cm_embed m)) \<and> list_all embed_sendable (elems (cm_embeds m)) \<and>
     list_all (\<lambda>a. a \<noteq> Nul) (elems (cm_attachments m)) \<and> ids_fit (elems (cm_sticker_ids m)) \<and>
     (case cm_allowed_mentions m of Nul \<Rightarrow> True
      | Ptr _ am \<Rightarrow> ids_fit (elems (am_roles am)) \<and> ids_fit (elems (am_users am))) \<and>
     (case cm_message_reference m of Nul \<Rightarrow> True
      | Ptr _ r \<Rightarrow> ids_fit [mr_message_id r, mr_channel_id r, mr_guild_id r]) \<and>
     - (2 ^ 31) \<le> cm_flags m \<and> cm_flags m < 2 ^ 31"

definition ids_read :: "'j cjson \<Rightarrow> 'j option \<Rightarrow> string \<Rightarrow> u64 list \<Rightarrow> bool" where
  "ids_read J data name ids \<longleftrightarrow>
     (\<forall>m. fst (run_state (get_ids_from_json J data name) m) = (if ids = [] then Nul else Ptr (next_blk m) ids))"

lemma mentions_added:
  assumes "builder_laws J B" and "sendable m"
  shows "adds (add_allowed_mentions B m json) B json ''allowed_mentions''
    (\<lambda>v. case cm_allowed_mentions m of Nul \<Rightarrow> v = None
       | Ptr _ am \<Rightarrow> ids_read J v ''roles'' (elems (am_roles am)) \<and> ids_read J v ''users'' (elems (am_users am)))"
proof (cases "cm_allowed_mentions m")
  case Nul
  then show ?thesis
    unfolding adds_def by (intro exI [of _ None]) (simp add: add_allowed_mentions_def add_None [OF assms(1)])
next
  case (Ptr b am)
  then have "ids_fit (elems (am_roles am))" "ids_fit (elems (am_users am))" using assms(2) by (simp_all add: sendable_def)
  from mentions_built [OF assms(1) this] obtain j where j: "create_allowed_mentions B am = State_Monad.return j"
    "json_items J (found J j ''roles'') = map (\<lambda>i. str_item B (show_u64 i)) (elems (am_roles am))"
    "json_items J (found J j ''users'') = map (\<lambda>i. str_item B (show_u64 i)) (elems (am_users am))" .
  then show ?thesis
    unfolding adds_def using Ptr ids_read_back [OF assms(1) j(2)] ids_read_back [OF assms(1) j(3)]
    by (intro exI [of _ "Some j"]) (simp add: add_allowed_mentions_def ids_read_def)
qed

lemma reference_added:
  assumes "json_laws J" and "builder_laws J B" and "sendable m"
  shows "adds (add_reference B m json) B json ''message_reference''
    (\<lambda>v. case cm_message_reference m of Nul \<Rightarrow> v = None
       | Ptr _ r \<Rightarrow> \<forall>s. fst (run_state (json_to_message_reference J v) s) =
           Ptr (next_blk s) (r\<lparr>mr_fail_if_not_exists := False\<rparr>))"
proof (cases "cm_message_reference m")
  case Nul
  then show ?thesis
    unfolding adds_def by (intro exI [of _ None]) (simp add: add_reference_def add_None [OF assms(2)])
next
  case (Ptr b r)
  then have "ids_fit [mr_message_id r, mr_channel_id r, mr_guild_id r]" using assms(3) by (simp add: sendable_def)
  from reference_built [OF assms(1,2) this] obtain j where j: "create_message_reference B r = State_Monad.return j"
    "get_long_from_string_json J (Some j) ''message_id'' 0 = mr_message_id r"
    "get_long_from_string_json J (Some j) ''channel_id'' 0 = mr_channel_id r"
    "get_long_from_string_json J (Some j) ''guild_id'' 0 = mr_guild_id r" .
  then show ?thesis
    unfolding adds_def using Ptr
    by (intro exI [of _ "Some j"]) (simp add: add_reference_def json_to_message_reference_def fresh_blk_def)
qed

text \<open>The document of a message, part by part.\<close>

lemma message_parts:
  assumes "json_laws J" and L: "builder_laws J B" and "sendable m"
  obtains e am r st av where
    "create_message_to_json B (create_object B) content (Ptr b m) = State_Monad.return (add_flags B m
       (add_item_to_object B (add_item_to_object B (add_item_to_object B (add_item_to_object B (add_item_to_object B
         (add_content B content (create_object B)) ''embeds'' e) ''allowed_mentions'' am) ''message_reference'' r)
         ''sticker_ids'' st) ''attachments'' av))"
    "length (json_items J e) = (if cm_embed m = Nul then 0 else 1) + length (elems (cm_embeds m))"
    "case cm_allowed_mentions m of Nul \<Rightarrow> am = None
     | Ptr _ x \<Rightarrow> ids_read J am ''roles'' (elems (am_roles x)) \<and> ids_read J am ''users'' (elems (am_users x))"
    "case cm_message_reference m of Nul \<Rightarrow> r = None
     | Ptr _ x \<Rightarrow> \<forall>t. fst (run_state (json_to_message_reference J r) t) =
         Ptr (next_blk t) (x\<lparr>mr_fail_if_not_exists := False\<rparr>)"
    "json_items J st = map (\<lambda>i. str_item B (show_u64 i)) (elems (cm_sticker_ids m))"
    "length (json_items J av) = length (elems (cm_attachments m))"
proof -
  have m: "cm_embed m \<noteq> Nul \<longrightarrow> embed_sendable (cm_embed m)" "list_all embed_sendable (elems (cm_embeds m))"
    "list_all (\<lambda>a. a \<noteq> Nul) (elems (cm_attachments m))" "list_all (\<lambda>i. unat i < 10 ^ 19) (elems (cm_sticker_ids m))"
    using assms(3) by (simp_all add: sendable_def ids_fit_def)
  let ?j0 = "add_content B content (create_object B)"
  obtain e where e: "add_embeds B m ?j0 = State_Monad.return (add_item_to_object B ?j0 ''embeds'' e)"
      "length (json_items J e) = (if cm_embed m = Nul then 0 else 1) + length (elems (cm_embeds m))"
    using embeds_added [OF L m(1,2), of ?j0] by (rule addsE)
  let ?j1 = "add_item_to_object B ?j0 ''embeds'' e"
  obtain am where am: "add_allowed_mentions B m ?j1 = State_Monad.return (add_item_to_object B ?j1 ''allowed_mentions'' am)"
      "case cm_allowed_mentions m of Nul \<Rightarrow> am = None
       | Ptr _ x \<Rightarrow> ids_read J am ''roles'' (elems (am_roles x)) \<and> ids_read J am ''users'' (elems (am_users x))"
    using mentions_added [OF L assms(3), of ?j1] by (rule addsE)
  let ?j2 = "add_item_to_object B ?j1 ''allowed_mentions'' am"
  obtain r where r: "add_reference B m ?j2 = State_Monad.return (add_item_to_object B ?j2 ''message_reference'' r)"
      "case cm_message_reference m of Nul \<Rightarrow> r = None
       | Ptr _ x \<Rightarrow> \<forall>t. fst (run_state (json_to_message_reference J r) t) =
           Ptr (next_blk t) (x\<lparr>mr_fail_if_not_exists := False\<rparr>)"
    using reference_added [OF assms(1) L assms(3), of ?j2] by (rule addsE)
  let ?j3 = "add_item_to_object B ?j2 ''message_reference'' r"
  obtain st where st: "add_ids B ''sticker_ids'' (cm_sticker_ids m) ?j3 =
        State_Monad.return (add_item_to_object B ?j3 ''sticker_ids'' st)"
      "json_items J st = map (\<lambda>i. str_item B (show_u64 i)) (elems (cm_sticker_ids m))"
    using ids_added [OF L m(4), of "''sticker_ids''" ?j3] by (rule addsE)
  let ?j4 = "add_item_to_object B ?j3 ''sticker_ids'' st"
  obtain av where at: "add_attachments B m ?j4 = State_Monad.return (add_item_to_object B ?j4 ''attachments'' av)"
      "length (json_items J av) = length (elems (cm_attachments m))"
    using attachments_added [OF L m(3), of ?j4] by (rule addsE)
  have "create_message_to_json B (create_object B) content (Ptr b m) =
      State_Monad.return (add_flags B m (add_item_to_object B ?j4 ''attachments'' av))"
    by (simp add: create_message_to_json_def Let_def e(1) am(1) r(1) st(1) at(1))
  then show thesis using e(2) am(2) r(2) st(2) at(2) by (rule that)
qed


definition sample_send :: discord_create_message where
  "sample_send = \<lparr>cm_tts = False, cm_embed = Nul, cm_embeds = Nul,
     cm_allowed_mentions = Ptr 0 \<lparr>am_parse_role_mentions = 1, am_parse_user_mentions = 0, am_parse_everyone_mentions = 0,
       am_roles = Ptr 1 [7, 8], am_users = Nul, am_replied_user = True\<rparr>,
     cm_message_reference = Nul, cm_components = Nul, cm_sticker_ids = Ptr 2 [9], cm_attachments = Nul, cm_flags = 4\<rparr>"


end
