(* ===== verification/Command.thy ===== *)
theory Command
  imports Message_Json
begin

text \<open>
  Application commands (\<open>command.c\<close>): the JSON of a command with its options and choices, and the
  requests that register, update and delete it. The array of ordered options is a variable of the
  code that is written slot by slot; a slot that has not been written is \<open>None\<close>.
\<close>

section \<open>Locales\<close>

record discord_language_locales =
  lc_da :: "string ptr"
  lc_de :: "string ptr"
  lc_en_GB :: "string ptr"
  lc_en_US :: "string ptr"
  lc_es_ES :: "string ptr"
  lc_fr :: "string ptr"
  lc_hr :: "string ptr"
  lc_it :: "string ptr"
  lc_lt :: "string ptr"
  lc_hu :: "string ptr"
  lc_nl :: "string ptr"
  lc_no :: "string ptr"
  lc_pl :: "string ptr"
  lc_pt_BR :: "string ptr"
  lc_ro :: "string ptr"
  lc_fi :: "string ptr"
  lc_sv_SE :: "string ptr"
  lc_vi :: "string ptr"
  lc_tr :: "string ptr"
  lc_cs :: "string ptr"
  lc_el :: "string ptr"
  lc_bg :: "string ptr"
  lc_ru :: "string ptr"
  lc_uk :: "string ptr"
  lc_hi :: "string ptr"
  lc_th :: "string ptr"
  lc_zh_CN :: "string ptr"
  lc_ja :: "string ptr"
  lc_zh_TW :: "string ptr"
  lc_ko :: "string ptr"

text \<open>The tests of the code in their order, each with the name it adds.\<close>

definition locale_table :: "(string \<times> (discord_language_locales \<Rightarrow> string ptr)) list" where
  "locale_table =
     [(''da'', lc_da), (''de'', lc_de), (''en_GB'', lc_en_GB), (''en_US'', lc_en_US), (''es_ES'', lc_es_ES),
      (''fr'', lc_fr), (''hr'', lc_hr), (''it'', lc_it), (''lt'', lc_lt), (''hu'', lc_hu), (''nl'', lc_nl),
      (''no'', lc_no), (''pl'', lc_pl), (''pt_BR'', lc_pt_BR), (''ro'', lc_ro), (''fi'', lc_fi),
      (''sv_SE'', lc_sv_SE), (''vi'', lc_vi), (''tr'', lc_tr), (''cs'', lc_cs), (''el'', lc_el),
      (''bg'', lc_bg), (''ru'', lc_ru), (''uk'', lc_uk), (''hi'', lc_hi), (''th'', lc_th),
      (''zh_CN'', lc_zh_CN), (''ja'', lc_ja), (''zh_TW'', lc_zh_TW), (''ko'', lc_ko)]"

definition discord_fill_json_with_locales :: "'j json_builder \<Rightarrow> discord_language_locales \<Rightarrow> 'j \<Rightarrow> 'j" where
  "discord_fill_json_with_locales B locales json =
     fold (\<lambda>(name, get). add_string_if B name (get locales)) locale_table json"

text \<open>\<open>if (p) fill(cJSON_AddObjectToObject(json, name), p)\<close>.\<close>

definition add_locales :: "'j json_builder \<Rightarrow> string \<Rightarrow> discord_language_locales ptr \<Rightarrow> 'j \<Rightarrow> 'j" where
  "add_locales B name p json =
     (case p of
        Nul \<Rightarrow> json
      | Ptr _ l \<Rightarrow> add_item_to_object B json name (Some (discord_fill_json_with_locales B l (create_object B))))"

section \<open>Choices\<close>

datatype choice_value = Choice_Str "string ptr" | Choice_Number rat

record discord_command_option_choice =
  ch_name :: "string ptr"
  ch_name_localizations :: "discord_language_locales ptr"
  ch_value :: choice_value

definition COMMAND_OPTION_STRING :: int where "COMMAND_OPTION_STRING = 3"
definition COMMAND_OPTION_INTEGER :: int where "COMMAND_OPTION_INTEGER = 4"
definition COMMAND_OPTION_NUMBER :: int where "COMMAND_OPTION_NUMBER = 10"

text \<open>The number of a value that holds a string is the bits of the pointer.\<close>

definition choice_number :: "choice_value \<Rightarrow> (mem, rat) state" where
  "choice_number v =
     (case v of Choice_Number q \<Rightarrow> State_Monad.return q
      | Choice_Str _ \<Rightarrow> do { _ \<leftarrow> fault; State_Monad.return 0 })"

definition choice_json :: "'j json_builder \<Rightarrow> int \<Rightarrow> discord_command_option_choice ptr \<Rightarrow> (mem, 'j option) state" where
  "choice_json B ty p =
     (case p of
        Nul \<Rightarrow> do { _ \<leftarrow> fault; State_Monad.return None }
      | Ptr _ choice \<Rightarrow> do {
          let json = add_string B ''name'' (ch_name choice) (create_object B);
          let json = add_locales B ''name_localizations'' (ch_name_localizations choice) json;
          if ty = COMMAND_OPTION_INTEGER \<or> ty = COMMAND_OPTION_NUMBER
          then do { q \<leftarrow> choice_number (ch_value choice);
                    State_Monad.return (Some (add_number B ''value'' q json)) }
          else State_Monad.return (Some json) })"

section \<open>Options\<close>

record command_option_fields =
  co_type :: int
  co_name :: "string ptr"
  co_name_localizations :: "discord_language_locales ptr"
  co_description :: "string ptr"
  co_description_localizations :: "discord_language_locales ptr"
  co_required :: bool
  co_choices :: "discord_command_option_choice ptr list ptr"
  co_channel_types :: "int list ptr"
  co_min_value :: rat
  co_max_value :: rat
  co_min_length :: int
  co_max_length :: int
  co_autocomplete :: bool

datatype discord_command_option = Command_Option command_option_fields "discord_command_option ptr list ptr"

definition option_required :: "discord_command_option ptr \<Rightarrow> bool" where
  "option_required p = (case p of Ptr _ (Command_Option x _) \<Rightarrow> co_required x | Nul \<Rightarrow> False)"

text \<open>
  One loop over the options: those that pass the test are written to the next slot. The test reads
  every option, also a NULL.
\<close>

fun place_options ::
  "(discord_command_option ptr \<Rightarrow> bool) \<Rightarrow> discord_command_option ptr list \<Rightarrow>
   discord_command_option ptr option list \<times> nat \<Rightarrow> discord_command_option ptr option list \<times> nat" where
  "place_options test [] (ordered, cur) = (ordered, cur)"
| "place_options test (p # ps) (ordered, cur) =
     place_options test ps (if test p then (ordered[cur := Some p], cur + 1) else (ordered, cur))"

definition ordered_options :: "discord_command_option ptr list \<Rightarrow> discord_command_option ptr option list" where
  "ordered_options ps =
     fst (place_options (\<lambda>p. \<not> option_required p) ps
       (place_options option_required ps (replicate (length ps) None, 0)))"

text \<open>The two loops are a stable partition, and every slot is written.\<close>

lemma place_options_fills:
  "length (filter test ps) \<le> k \<Longrightarrow>
   place_options test ps (map Some xs @ replicate k None, length xs) =
     (map Some (xs @ filter test ps) @ replicate (k - length (filter test ps)) None, length xs + length (filter test ps))"
proof (induction ps arbitrary: xs k)
  case (Cons p ps)
  show ?case
  proof (cases "test p")
    case True
    then obtain l where k: "k = Suc l" using Cons.prems by (cases k) auto
    have "(map Some xs @ replicate k None)[length xs := Some p] = map Some (xs @ [p]) @ replicate l None"
      by (simp add: k list_update_append)
    then show ?thesis using Cons.IH [of l "xs @ [p]"] Cons.prems True k by simp
  next
    case False
    then show ?thesis using Cons.IH [of k xs] Cons.prems by simp
  qed
qed simp

lemma ordered_options_partition:
  "ordered_options ps = map Some (filter option_required ps @ filter (\<lambda>p. \<not> option_required p) ps)"
proof -
  let ?r = "filter option_required ps" and ?o = "filter (\<lambda>p. \<not> option_required p) ps"
  have len: "length ps = length ?r + length ?o" by (simp add: sum_length_filter_compl)
  have "place_options option_required ps (replicate (length ps) None, 0) =
      (map Some ?r @ replicate (length ?o) None, length ?r)"
    using place_options_fills [of option_required ps "length ps" "[]"] len by simp
  then show ?thesis
    using place_options_fills [of "\<lambda>p. \<not> option_required p" ps "length ?o" ?r] by (simp add: ordered_options_def)
qed

lemma ordered_options_set: "Some p \<in> set (ordered_options ps) \<Longrightarrow> p \<in> set ps"
  by (auto simp: ordered_options_partition)

lemma add_each_cong [fundef_cong]:
  "xs = ys \<Longrightarrow> arr = arr' \<Longrightarrow> (\<And>x. x \<in> set ys \<Longrightarrow> f x = g x) \<Longrightarrow> add_each B f xs arr = add_each B g ys arr'"
proof -
  assume a: "xs = ys" "arr = arr'" "\<And>x. x \<in> set ys \<Longrightarrow> f x = g x"
  have "add_each B f ys arr = add_each B g ys arr" for arr
    using a(3) by (induction ys arbitrary: arr) simp_all
  then show ?thesis by (simp add: a(1,2))
qed

definition null_option :: "discord_command_option ptr list \<Rightarrow> (mem, unit) state" where
  "null_option ps = (if Nul \<in> set ps then fault else State_Monad.return ())"

text \<open>The parts of an option before and after the options below it.\<close>

definition option_head :: "'j json_builder \<Rightarrow> command_option_fields \<Rightarrow> (mem, 'j) state" where
  "option_head B x = do {
     let json = add_string B ''name'' (co_name x) (create_object B);
     let json = add_string B ''description'' (co_description x) json;
     let json = add_locales B ''name_localizations'' (co_name_localizations x) json;
     let json = add_locales B ''description_localizations'' (co_description_localizations x) json;
     let json = add_bool B ''required'' (co_required x) json;
     if elems (co_choices x) = [] then State_Monad.return json
     else do {
       choices \<leftarrow> add_each B (choice_json B (co_type x)) (elems (co_choices x)) (create_array B);
       State_Monad.return (add_item_to_object B json ''choices'' (Some choices)) } }"

definition option_tail :: "'j json_builder \<Rightarrow> command_option_fields \<Rightarrow> 'j \<Rightarrow> 'j" where
  "option_tail B x json =
     (let json = (if elems (co_channel_types x) = [] then json
                  else add_item_to_object B json ''channel_types''
                    (Some (fold (\<lambda>t arr. add_item_to_array B arr (Some (create_number B (of_int t))))
                       (elems (co_channel_types x)) (create_array B))));
          json = (if co_type x = COMMAND_OPTION_INTEGER \<or> co_type x = COMMAND_OPTION_NUMBER
                  then add_number B ''max_value'' (co_max_value x) (add_number B ''min_value'' (co_min_value x) json)
                  else json);
          json = (if co_type x = COMMAND_OPTION_STRING
                  then add_number B ''max_length'' (of_int (co_max_length x))
                         (add_number B ''min_length'' (of_int (co_min_length x)) json)
                  else json)
      in add_bool B ''autocomplete'' (co_autocomplete x) json)"

text \<open>\<open>option_json\<close> is \<open>add_option\<close> on a new object.\<close>

function (sequential) option_json ::
  "'j json_builder \<Rightarrow> discord_command_option ptr option \<Rightarrow> (mem, 'j option) state" where
  "option_json B None = do { _ \<leftarrow> fault; State_Monad.return None }"
| "option_json B (Some Nul) = do { _ \<leftarrow> fault; State_Monad.return None }"
| "option_json B (Some (Ptr _ (Command_Option x options))) = do {
     json \<leftarrow> option_head B x;
     json \<leftarrow> (if elems options = [] then State_Monad.return json
             else do {
               _ \<leftarrow> null_option (elems options);
               arr \<leftarrow> add_each B (option_json B) (ordered_options (elems options)) (create_array B);
               State_Monad.return (add_item_to_object B json ''options'' (Some arr)) });
     State_Monad.return (Some (option_tail B x json)) }"
  by pat_completeness auto
termination
proof (relation "measure (\<lambda>(_, p). case p of None \<Rightarrow> 0 | Some q \<Rightarrow> size_ptr size q)", goal_cases)
  case (2 B b x options json u o1)
  then show ?case
    by (cases options; cases o1)
      (auto simp: elems_def dest!: ordered_options_set component_smaller intro: less_trans)
qed simp

section \<open>Commands\<close>

record discord_application_command =
  ac_id :: "u64 ptr"
  ac_type :: int
  ac_guild_id :: u64
  ac_name :: "string ptr"
  ac_name_localizations :: "discord_language_locales ptr"
  ac_description :: "string ptr"
  ac_description_localizations :: "discord_language_locales ptr"
  ac_options :: "discord_command_option ptr list ptr"
  ac_default_member_permissions :: "string ptr"
  ac_dm_permission :: bool
  ac_default_permission :: bool
  ac_version :: u64

text \<open>The result is 1 and the document unchanged when the command has no name.\<close>

definition format_json :: "'j json_builder \<Rightarrow> 'j \<Rightarrow> discord_application_command \<Rightarrow> (mem, int \<times> 'j) state" where
  "format_json B json command =
     (if ac_name command = Nul then State_Monad.return (1, json)
      else do {
        let json = add_string B ''name'' (ac_name command) json;
        let json = (if ac_type command = 0 then json else add_number B ''type'' (of_int (ac_type command)) json);
        let json = add_string B ''description'' (ac_description command) json;
        let json = add_locales B ''name_localizations'' (ac_name_localizations command) json;
        let json = add_locales B ''description_localizations'' (ac_description_localizations command) json;
        json \<leftarrow> (if elems (ac_options command) = [] then State_Monad.return json
                else do {
                  _ \<leftarrow> null_option (elems (ac_options command));
                  arr \<leftarrow> add_each B (option_json B) (ordered_options (elems (ac_options command))) (create_array B);
                  State_Monad.return (add_item_to_object B json ''options'' (Some arr)) });
        let json = add_string_if B ''default_member_permissions'' (ac_default_member_permissions command) json;
        let json = add_bool B ''dm_permission'' (ac_dm_permission command) json;
        json \<leftarrow> (if ac_version command = 0 then State_Monad.return json
                else do { v \<leftarrow> id_item B (ac_version command);
                          State_Monad.return (add_item_to_object B json ''version'' v) });
        State_Monad.return (0, json) })"

text \<open>The URLs of the commands of an application, in a guild or everywhere.\<close>

definition commands_url :: "string \<Rightarrow> u64 \<Rightarrow> string" where
  "commands_url app guild =
     (if guild = 0 then ''https://discord.com/api/v10/applications/'' @ app @ ''/commands''
      else ''https://discord.com/api/v10/applications/'' @ app @ ''/guilds/'' @ show_u64 guild @ ''/commands'')"

definition command_url :: "string \<Rightarrow> u64 \<Rightarrow> u64 \<Rightarrow> string" where
  "command_url app guild command = commands_url app guild @ ''/'' @ show_u64 command"

text \<open>The bot that is handed to \<open>request\<close> is NULL, and the result of \<open>format_json\<close> is not used.\<close>

definition discord_command_register ::
  "'j json_builder \<Rightarrow> discord_application_command \<Rightarrow> string \<Rightarrow> string \<Rightarrow> (mem, queued_request) state" where
  "discord_command_register B command tok app = do {
     (_, json) \<leftarrow> format_json B (create_object B) command;
     url \<leftarrow> print_into 120 (commands_url app (ac_guild_id command));
     State_Monad.return (request url (Some (print_json B json)) REQUEST_POST tok False None []) }"

definition discord_command_update ::
  "'j json_builder \<Rightarrow> discord_application_command \<Rightarrow> u64 \<Rightarrow> string \<Rightarrow> string \<Rightarrow> (mem, queued_request) state" where
  "discord_command_update B command command_id tok app = do {
     (_, json) \<leftarrow> format_json B (create_object B) command;
     url \<leftarrow> print_into 120 (command_url app (ac_guild_id command) command_id);
     State_Monad.return (request url (Some (print_json B json)) REQUEST_PATCH tok False None []) }"

definition discord_command_delete_global :: "u64 \<Rightarrow> string \<Rightarrow> string \<Rightarrow> (mem, queued_request) state" where
  "discord_command_delete_global command_id tok app = do {
     url \<leftarrow> print_into 120 (command_url app 0 command_id);
     State_Monad.return (request url None REQUEST_DELETE tok False None []) }"

definition discord_command_delete_guild :: "u64 \<Rightarrow> u64 \<Rightarrow> string \<Rightarrow> string \<Rightarrow> (mem, queued_request) state" where
  "discord_command_delete_guild guild_id command_id tok app = do {
     url \<leftarrow> print_into 120 (''https://discord.com/api/v10/applications/'' @ app @ ''/guilds/'' @ show_u64 guild_id @
       ''/commands/'' @ show_u64 command_id);
     State_Monad.return (request url None REQUEST_DELETE tok False None []) }"

end
