(* ===== verification/Command_Safety.thy ===== *)
theory Command_Safety
  imports Command
begin

text \<open>
  What the JSON of a command says: the options of every level are a stable sort by whether they are
  required, and no option carries the type it was given.
\<close>

section \<open>What is read back\<close>

definition required_key :: "discord_command_option ptr \<Rightarrow> nat" where
  "required_key p = (if option_required p then 0 else 1)"

definition required_first :: "discord_command_option ptr list \<Rightarrow> discord_command_option ptr list" where
  "required_first ps = sort_key required_key ps"

lemma sorted_same_key: "list_all (\<lambda>x. f x = c) xs \<Longrightarrow> sorted (map f xs)" for f :: "'a \<Rightarrow> nat"
  by (induction xs) (auto simp: list_all_iff)

lemma required_first_partition:
  "required_first ps = filter option_required ps @ filter (\<lambda>p. \<not> option_required p) ps"
  unfolding required_first_def
proof (rule properties_for_sort_key)
  show "filter (\<lambda>x. required_key k = required_key x) (filter option_required ps @ filter (\<lambda>p. \<not> option_required p) ps) =
      filter (\<lambda>x. required_key k = required_key x) ps" for k
    by (cases "option_required k") (simp_all add: required_key_def filter_empty_conv cong: conj_cong)
  show "sorted (map required_key (filter option_required ps @ filter (\<lambda>p. \<not> option_required p) ps))"
    using sorted_same_key [of required_key 0] sorted_same_key [of required_key 1]
    by (auto simp: sorted_append required_key_def list_all_iff)
qed simp

lemma ordered_options_sorted: "ordered_options ps = map Some (required_first ps)"
  by (simp add: ordered_options_partition required_first_partition)

lemma required_first_set [simp]: "set (required_first ps) = set ps"
  by (simp add: required_first_def)

definition choice_complete :: "int \<Rightarrow> discord_command_option_choice ptr \<Rightarrow> bool" where
  "choice_complete ty p =
     (case p of Nul \<Rightarrow> False
      | Ptr _ c \<Rightarrow> ty \<in> {COMMAND_OPTION_INTEGER, COMMAND_OPTION_NUMBER} \<longrightarrow> (\<exists>q. ch_value c = Choice_Number q))"

text \<open>No NULL in the arrays, a name, and numbers where numbers are asked for.\<close>

inductive complete_option :: "discord_command_option ptr \<Rightarrow> bool" where
  "co_name x \<noteq> Nul \<Longrightarrow> list_all (choice_complete (co_type x)) (elems (co_choices x)) \<Longrightarrow>
   list_all complete_option (elems options) \<Longrightarrow> complete_option (Ptr b (Command_Option x options))"

inductive_simps complete_option_simps [simp]:
  "complete_option Nul" "complete_option (Ptr b (Command_Option x options))"

inductive option_read :: "'j cjson \<Rightarrow> 'j \<Rightarrow> discord_command_option ptr \<Rightarrow> bool" for J where
  "found J j ''name'' = Some v \<Longrightarrow> valuestring J v = Some n \<Longrightarrow> co_name x = Ptr c n \<Longrightarrow>
   length (json_items J (found J j ''choices'')) = length (elems (co_choices x)) \<Longrightarrow>
   found J j ''type'' = None \<Longrightarrow>
   list_all2 (option_read J) (json_items J (found J j ''options'')) (required_first (elems options)) \<Longrightarrow>
   option_read J j (Ptr b (Command_Option x options))"

section \<open>The parts\<close>

lemma command_names:
  "lower_name ''name''" "lower_name ''description''" "lower_name ''name_localizations''"
  "lower_name ''description_localizations''" "lower_name ''required''" "lower_name ''choices''"
  "lower_name ''options''" "lower_name ''channel_types''" "lower_name ''max_value''" "lower_name ''min_value''"
  "lower_name ''max_length''" "lower_name ''min_length''" "lower_name ''autocomplete''" "lower_name ''type''"
  "lower_name ''default_member_permissions''" "lower_name ''dm_permission''" "lower_name ''version''"
  by (simp_all add: lower_name_def)

lemma found_add_locales [json_found]:
  "builder_laws J B \<Longrightarrow> built_object B j \<Longrightarrow> lower_name n \<Longrightarrow> lower_name m \<Longrightarrow> m \<noteq> n \<Longrightarrow>
   found J (add_locales B n p j) m = found J j m"
  by (cases p) (simp_all add: add_locales_def found_add)

lemma built_add_locales [json_found]: "built_object B j \<Longrightarrow> built_object B (add_locales B n p j)"
  by (cases p) (simp_all add: add_locales_def built_object.intros)

lemma add_each_items:
  assumes "builder_laws J B" and "\<And>x. x \<in> set xs \<Longrightarrow> \<exists>v. f x = State_Monad.return (Some v) \<and> P v x"
  shows "\<exists>j vs. add_each B f xs arr = State_Monad.return j \<and>
    json_children J j = json_children J arr @ vs \<and> list_all2 P vs xs"
  using assms(2)
proof (induction xs arbitrary: arr)
  case (Cons x xs)
  obtain v where v: "f x = State_Monad.return (Some v)" "P v x" using Cons.prems [of x] by auto
  have c: "json_children J (add_item_to_array B arr (Some v)) = json_children J arr @ [v]"
    using assms(1) by (simp add: builder_laws_def)
  obtain j vs where "add_each B f xs (add_item_to_array B arr (Some v)) = State_Monad.return j"
      "json_children J j = json_children J (add_item_to_array B arr (Some v)) @ vs" "list_all2 P vs xs"
    using Cons.IH [of "add_item_to_array B arr (Some v)"] Cons.prems by auto
  then show ?case using v c by (intro exI [of _ j] exI [of _ "v # vs"]) simp
qed auto

text \<open>The array of the options of a level, which an option and a command add in the same way.\<close>

lemma options_added:
  assumes L: "builder_laws J B" and ps: "list_all complete_option ps"
    and ih: "\<And>p. p \<in> set ps \<Longrightarrow> \<exists>v. option_json B (Some p) = State_Monad.return (Some v) \<and> option_read J v p"
  obtains v where "(if ps = [] then State_Monad.return json
      else do {
        _ \<leftarrow> null_option ps;
        arr \<leftarrow> add_each B (option_json B) (ordered_options ps) (create_array B);
        State_Monad.return (add_item_to_object B json ''options'' (Some arr)) }) =
      State_Monad.return (add_item_to_object B json ''options'' v)"
    "list_all2 (option_read J) (json_items J v) (required_first ps)"
proof (cases "ps = []")
  case True
  then show thesis
    using that [of None] by (simp add: add_None [OF L] json_items_def required_first_def)
next
  case False
  have "Nul \<notin> set ps" using ps by (auto simp: list_all_iff)
  then have n: "null_option ps = State_Monad.return ()" by (simp add: null_option_def)
  have "\<exists>v. option_json B x = State_Monad.return (Some v) \<and> option_read J v (the x)"
    if "x \<in> set (ordered_options ps)" for x
    using that ih by (auto simp: ordered_options_sorted)
  then obtain j vs where j: "add_each B (option_json B) (ordered_options ps) (create_array B) = State_Monad.return j"
      "json_children J j = json_children J (create_array B) @ vs"
      "list_all2 (\<lambda>v x. option_read J v (the x)) vs (ordered_options ps)"
    using add_each_items [OF L, of "ordered_options ps" "option_json B" "\<lambda>v x. option_read J v (the x)" "create_array B"]
    by blast
  show thesis
    using False j by (intro that [of "Some j"])
      (simp_all add: n json_items_def no_children [OF L] ordered_options_sorted list.rel_map)
qed

lemma choice_built:
  assumes "choice_complete ty p"
  shows "\<exists>v. choice_json B ty p = State_Monad.return (Some v)"
  using assms by (cases p) (auto simp: choice_complete_def choice_json_def choice_number_def Let_def)

lemma head_built:
  assumes L: "builder_laws J B" and x: "co_name x = Ptr c n"
    and choices: "list_all (choice_complete (co_type x)) (elems (co_choices x))"
  obtains j where "option_head B x = State_Monad.return j" "built_object B j"
    "found J j ''name'' = Some (str_item B n)" "found J j ''options'' = None" "found J j ''type'' = None"
    "length (json_items J (found J j ''choices'')) = length (elems (co_choices x))"
proof -
  let ?j = "add_bool B ''required'' (co_required x)
      (add_locales B ''description_localizations'' (co_description_localizations x)
        (add_locales B ''name_localizations'' (co_name_localizations x)
          (add_string B ''description'' (co_description x) (add_string B ''name'' (co_name x) (create_object B)))))"
  have b: "built_object B ?j" by (simp add: json_found)
  have d: "found J (add_string B ''description'' p j) m = found J j m"
    if "built_object B j" "lower_name m" "m \<noteq> ''description''" for p j m
    using that by (simp add: add_string_def found_add [OF L] command_names)
  have f: "found J ?j m = (if m = ''name'' then Some (str_item B n) else None)"
    if "m \<in> {''name'', ''options'', ''type'', ''choices''}" for m
    using that by (elim insertE) (simp_all add: json_found L d x command_names)
  show thesis
  proof (cases "elems (co_choices x) = []")
    case True
    then show thesis
      using b f by (intro that [of ?j]) (simp_all add: option_head_def Let_def json_items_def)
  next
    case False
    have "\<exists>v. choice_json B (co_type x) p = State_Monad.return (Some v)" if "p \<in> set (elems (co_choices x))" for p
      by (rule choice_built) (use that choices in \<open>simp add: list_all_iff\<close>)
    then obtain a where a: "add_each B (choice_json B (co_type x)) (elems (co_choices x)) (create_array B) = State_Monad.return a"
        "length (json_children J a) = length (json_children J (create_array B)) + length (elems (co_choices x))"
      using add_each_total [OF L, of "elems (co_choices x)" "choice_json B (co_type x)" "create_array B"] by blast
    show thesis
      using b f a False
      by (intro that [of "add_item_to_object B ?j ''choices'' (Some a)"])
        (simp_all add: option_head_def Let_def json_items_def found_add [OF L b] command_names
          no_children [OF L] built_object.intros)
  qed
qed

lemma tail_found:
  assumes "builder_laws J B" and "built_object B j"
  shows "m \<in> {''name'', ''options'', ''type'', ''choices''} \<Longrightarrow> found J (option_tail B x j) m = found J j m"
  using assms by (elim insertE) (simp_all add: option_tail_def Let_def json_found command_names)

lemma option_built:
  assumes L: "builder_laws J B"
  shows "complete_option p \<Longrightarrow> \<exists>v. option_json B (Some p) = State_Monad.return (Some v) \<and> option_read J v p"
proof (induction rule: complete_option.induct)
  case (1 x options b)
  obtain c n where x: "co_name x = Ptr c n" using 1(1) by (cases "co_name x") auto
  obtain j where j: "option_head B x = State_Monad.return j" "built_object B j"
      "found J j ''name'' = Some (str_item B n)" "found J j ''options'' = None" "found J j ''type'' = None"
      "length (json_items J (found J j ''choices'')) = length (elems (co_choices x))"
    by (rule head_built [OF L x 1(2)])
  have ps: "list_all complete_option (elems options)" using 1(3) by (auto simp: list_all_iff)
  obtain v where v: "(if elems options = [] then State_Monad.return j
      else do {
        _ \<leftarrow> null_option (elems options);
        arr \<leftarrow> add_each B (option_json B) (ordered_options (elems options)) (create_array B);
        State_Monad.return (add_item_to_object B j ''options'' (Some arr)) }) =
      State_Monad.return (add_item_to_object B j ''options'' v)"
    "list_all2 (option_read J) (json_items J v) (required_first (elems options))"
    using 1(3) by (elim options_added [OF L ps, rotated]) (auto simp: list_all_iff)
  let ?j = "add_item_to_object B j ''options'' v"
  have "built_object B ?j" using j(2) by (rule built_add)
  note t = tail_found [OF L this]
  have "option_json B (Some (Ptr b (Command_Option x options))) = State_Monad.return (Some (option_tail B x ?j))"
    by (simp add: j(1) v(1))
  moreover have "option_read J (option_tail B x ?j) (Ptr b (Command_Option x options))"
    by (rule option_read.intros [of _ _ "str_item B n" n x c])
      (use j v(2) in \<open>simp_all add: t x found_add [OF L j(2)] command_names create_string_item(3) [OF L]\<close>)
  ultimately show ?case by blast
qed

section \<open>The properties\<close>

lemma type_found:
  assumes "builder_laws J B" and "built_object B j" and "lower_name m" and "m \<noteq> ''type''"
  shows "found J (if c = 0 then j else add_number B ''type'' q j) m = found J j m"
  using assms by (simp add: found_add_number command_names)

lemma if_built: "built_object B x \<Longrightarrow> built_object B y \<Longrightarrow> built_object B (if c then x else y)"
  by simp

text \<open>The document of a command before its options and what follows them.\<close>

definition command_start :: "'j json_builder \<Rightarrow> discord_application_command \<Rightarrow> 'j" where
  "command_start B command =
     (let json = add_string B ''name'' (ac_name command) (create_object B);
          json = (if ac_type command = 0 then json else add_number B ''type'' (of_int (ac_type command)) json);
          json = add_string B ''description'' (ac_description command) json;
          json = add_locales B ''name_localizations'' (ac_name_localizations command) json
      in add_locales B ''description_localizations'' (ac_description_localizations command) json)"

definition command_end :: "'j json_builder \<Rightarrow> discord_application_command \<Rightarrow> 'j \<Rightarrow> 'j" where
  "command_end B command json =
     (let json = add_string_if B ''default_member_permissions'' (ac_default_member_permissions command) json;
          json = add_bool B ''dm_permission'' (ac_dm_permission command) json
      in if ac_version command = 0 then json
         else add_item_to_object B json ''version'' (Some (str_item B (show_u64 (ac_version command)))))"

lemma format_json_parts:
  assumes "builder_laws J B" and "ac_name command \<noteq> Nul" and "unat (ac_version command) < 10 ^ 19"
  shows "format_json B (create_object B) command = do {
    json \<leftarrow> (if elems (ac_options command) = [] then State_Monad.return (command_start B command)
            else do {
              _ \<leftarrow> null_option (elems (ac_options command));
              arr \<leftarrow> add_each B (option_json B) (ordered_options (elems (ac_options command))) (create_array B);
              State_Monad.return (add_item_to_object B (command_start B command) ''options'' (Some arr)) });
    State_Monad.return (0, command_end B command json) }"
  using assms
  by (simp add: format_json_def command_start_def command_end_def Let_def id_item_def print_id_fits
      create_string_item(1) [OF assms(1)] if_distrib [of "\<lambda>x. State_Monad.bind x f" for f]
      if_distrib [of State_Monad.return] if_distrib [of "Pair 0"] cong: if_cong)

lemma command_start_found:
  assumes L: "builder_laws J B" and name: "ac_name command = Ptr c n"
  shows "built_object B (command_start B command)"
    and "m \<in> {''name'', ''options'', ''version''} \<Longrightarrow>
      found J (command_start B command) m = (if m = ''name'' then Some (str_item B n) else None)"
proof -
  let ?n = "add_string B ''name'' (ac_name command) (create_object B)"
  let ?t = "if ac_type command = 0 then ?n else add_number B ''type'' (of_int (ac_type command)) ?n"
  have n: "built_object B ?n" by (simp add: json_found)
  have t: "built_object B ?t" by (rule if_built) (simp_all add: json_found)
  show "built_object B (command_start B command)"
    unfolding command_start_def Let_def by (intro built_add_locales built_parts(3) t)
  show "found J (command_start B command) m = (if m = ''name'' then Some (str_item B n) else None)"
    if m: "m \<in> {''name'', ''options'', ''version''}"
  proof -
    have "found J (command_start B command) m = found J ?t m"
      using m unfolding command_start_def Let_def
      by (elim insertE) (simp_all add: found_add_locales [OF L] built_add_locales built_parts(3)
        t command_names add_string_def [of _ "''description''"] found_add [OF L t] built_add)
    also have "\<dots> = found J ?n m"
      using m by (intro type_found [OF L n]) (auto simp: command_names)
    also have "\<dots> = (if m = ''name'' then Some (str_item B n) else None)"
      using m by (elim insertE) (simp_all add: json_found L name command_names)
    finally show ?thesis .
  qed
qed

lemma command_end_found:
  assumes L: "builder_laws J B" and b: "built_object B json"
  shows "m \<in> {''name'', ''options'', ''version''} \<Longrightarrow> found J (command_end B command json) m =
    orelse (found J json m)
      (if m = ''version'' \<and> ac_version command \<noteq> 0 then Some (str_item B (show_u64 (ac_version command))) else None)"
  unfolding command_end_def Let_def
  by (elim insertE) (simp_all add: found_add_bool [OF L] found_add_string_if [OF L] found_add [OF L]
      built_parts(2,4,6) b command_names)

text \<open>C28. A command is described with its options in the right order: for a complete command (a name, no
  NULL in the arrays, numbers where numbers are asked for, a version below \<open>10 ^ 19\<close>) the JSON is built
  without a fault or any memory, has the name and the version, and its options, like those below any
  option, are those of the command stably sorted by whether they are required, with their names and as
  many choices. No option has a \<open>type\<close>, which the service requires of every option.\<close>

theorem command_options_required_first:
  assumes "json_laws J" and "builder_laws J B" and "ac_name command = Ptr c n"
    and "list_all complete_option (elems (ac_options command))" and "unat (ac_version command) < 10 ^ 19"
    and "run_state (format_json B (create_object B) command) s = ((code, j), s')"
  shows "s' = s \<and> code = 0 \<and>
    (\<exists>v. found J j ''name'' = Some v \<and> valuestring J v = Some n) \<and>
    get_long_from_string_json J (Some j) ''version'' 0 = ac_version command \<and>
    list_all2 (option_read J) (json_items J (found J j ''options'')) (required_first (elems (ac_options command)))"
proof -
  note L = assms(2)
  let ?start = "command_start B command"
  note start = command_start_found [OF L assms(3)]
  obtain v where v: "(if elems (ac_options command) = [] then State_Monad.return ?start
      else do {
        _ \<leftarrow> null_option (elems (ac_options command));
        arr \<leftarrow> add_each B (option_json B) (ordered_options (elems (ac_options command))) (create_array B);
        State_Monad.return (add_item_to_object B ?start ''options'' (Some arr)) }) =
      State_Monad.return (add_item_to_object B ?start ''options'' v)"
    "list_all2 (option_read J) (json_items J v) (required_first (elems (ac_options command)))"
    by (rule options_added [OF L assms(4), where json = ?start]) (use option_built [OF L] assms(4) in \<open>auto simp: list_all_iff\<close>)
  let ?all = "add_item_to_object B ?start ''options'' v"
  have j: "j = command_end B command ?all" "code = 0" "s' = s"
    using assms(3,6) unfolding format_json_parts [OF L _ assms(5)] v(1)
    by (simp_all add: format_json_parts [OF L _ assms(5)] v(1) State_Monad.return_def)
  have all: "built_object B ?all" using start(1) by (rule built_add)
  have "found J j ''name'' = Some (str_item B n)" "found J j ''options'' = v"
    "found J j ''version'' = (if ac_version command = 0 then None else Some (str_item B (show_u64 (ac_version command))))"
    by (simp_all add: j(1) command_end_found [OF L all] found_add [OF L start(1)] start(2) command_names)
  moreover from this(3) have "get_long_from_string_json J (Some j) ''version'' 0 = ac_version command"
    using get_long_of_shown_id [OF assms(1), of "Some j" "''version''" "str_item B (show_u64 (ac_version command))" "ac_version command" 0]
      create_string_item(2,3) [OF L]
    by (cases "ac_version command = 0") (simp_all add: get_long_from_string_json_def)
  ultimately show ?thesis using v(2) j(2,3) create_string_item(3) [OF L] by simp
qed

definition sample_option :: "nat \<Rightarrow> string \<Rightarrow> bool \<Rightarrow> discord_command_option ptr" where
  "sample_option b name req = Ptr b (Command_Option
     \<lparr>co_type = COMMAND_OPTION_STRING, co_name = Ptr (b + 1) name, co_name_localizations = Nul,
      co_description = Nul, co_description_localizations = Nul, co_required = req, co_choices = Nul,
      co_channel_types = Nul, co_min_value = 0, co_max_value = 0, co_min_length = 1, co_max_length = 9,
      co_autocomplete = False\<rparr> Nul)"

definition sample_command :: discord_application_command where
  "sample_command = \<lparr>ac_id = Nul, ac_type = 1, ac_guild_id = 5, ac_name = Ptr 0 ''roll'', ac_name_localizations = Nul,
     ac_description = Nul, ac_description_localizations = Nul,
     ac_options = Ptr 1 [sample_option 2 ''times'' False, sample_option 4 ''dice'' True, sample_option 6 ''secret'' False],
     ac_default_member_permissions = Nul, ac_dm_permission = True, ac_default_permission = False, ac_version = 77\<rparr>"

theorem command_options_required_first_witness:
  "\<exists>j s'. run_state (format_json small_builder (create_object small_builder) sample_command)
       \<lparr>next_blk = 9, freed = [], bad = False\<rparr> = ((0, j), s') \<and> \<not> bad s' \<and>
     list_all2 (option_read small_json) (json_items small_json (found small_json j ''options''))
       [sample_option 4 ''dice'' True, sample_option 2 ''times'' False, sample_option 6 ''secret'' False] \<and>
     get_long_from_string_json small_json (Some j) ''version'' 0 = 77"
proof -
  obtain code j s' where r: "run_state (format_json small_builder (create_object small_builder) sample_command)
      \<lparr>next_blk = 9, freed = [], bad = False\<rparr> = ((code, j), s')" by (metis prod.exhaust)
  have "ac_name sample_command = Ptr 0 ''roll''" "unat (ac_version sample_command) < 10 ^ 19"
    "list_all complete_option (elems (ac_options sample_command))"
    by (simp_all add: sample_command_def sample_option_def elems_def)
  note t = command_options_required_first [OF small_json_laws small_builder_laws this(1,3,2) r]
  have "required_first (elems (ac_options sample_command)) =
      [sample_option 4 ''dice'' True, sample_option 2 ''times'' False, sample_option 6 ''secret'' False]"
    unfolding required_first_partition
    by (simp add: sample_command_def elems_def sample_option_def option_required_def)
  then show ?thesis using t r by (auto simp: sample_command_def)
qed

end
