(* ===== verification/Interaction_Reply.thy ===== *)
theory Interaction_Reply
  imports Command
begin

text \<open>
  Answering an interaction (\<open>discord_send_interaction\<close> in \<open>interaction.c\<close>): the JSON of a callback,
  whose data is a union that is read by the type of the callback, and the request that sends it.
\<close>

section \<open>Callbacks\<close>

record reply_message =
  rm_tts :: bool
  rm_content :: "string ptr"
  rm_embeds :: "discord_embed ptr list ptr"
  rm_allowed_mentions :: "discord_allowed_mentions ptr"
  rm_flags :: int
  rm_components :: "discord_component ptr list ptr"
  rm_attachments :: "discord_attachment ptr list ptr"

record reply_modal =
  rd_custom_id :: "string ptr"
  rd_title :: "string ptr"
  rd_components :: "discord_component ptr list ptr"

datatype callback_data =
    Reply_Message reply_message
  | Reply_Autocomplete "discord_command_option_choice ptr list ptr"
  | Reply_Modal reply_modal

record discord_interaction_callback =
  ic_type :: int
  ic_data :: callback_data

definition DISCORD_CALLBACK_CHANNEL_MESSAGE_WITH_SOURCE :: int where
  "DISCORD_CALLBACK_CHANNEL_MESSAGE_WITH_SOURCE = 4"
definition DISCORD_CALLBACK_DEFERRED_CHANNEL_MESSAGE_WITH_SOURCE :: int where
  "DISCORD_CALLBACK_DEFERRED_CHANNEL_MESSAGE_WITH_SOURCE = 5"
definition DISCORD_CALLBACK_DEFERRED_UPDATE_MESSAGE :: int where
  "DISCORD_CALLBACK_DEFERRED_UPDATE_MESSAGE = 6"
definition DISCORD_CALLBACK_UPDATE_MESSAGE :: int where
  "DISCORD_CALLBACK_UPDATE_MESSAGE = 7"
definition DISCORD_CALLBACK_APPLICATION_COMMAND_AUTOCOMPLETE_RESULT :: int where
  "DISCORD_CALLBACK_APPLICATION_COMMAND_AUTOCOMPLETE_RESULT = 8"
definition DISCORD_CALLBACK_MODAL :: int where
  "DISCORD_CALLBACK_MODAL = 9"

lemmas callback_types =
  DISCORD_CALLBACK_CHANNEL_MESSAGE_WITH_SOURCE_def DISCORD_CALLBACK_DEFERRED_CHANNEL_MESSAGE_WITH_SOURCE_def
  DISCORD_CALLBACK_DEFERRED_UPDATE_MESSAGE_def DISCORD_CALLBACK_UPDATE_MESSAGE_def
  DISCORD_CALLBACK_APPLICATION_COMMAND_AUTOCOMPLETE_RESULT_def DISCORD_CALLBACK_MODAL_def

text \<open>The answer as a message to be created; what it does not have is zero.\<close>

definition reply_as_message :: "reply_message \<Rightarrow> discord_create_message" where
  "reply_as_message r =
     \<lparr>cm_tts = rm_tts r, cm_embed = Nul, cm_embeds = rm_embeds r, cm_allowed_mentions = rm_allowed_mentions r,
      cm_message_reference = Nul, cm_components = rm_components r, cm_sticker_ids = Nul,
      cm_attachments = rm_attachments r, cm_flags = rm_flags r\<rparr>"

section \<open>Autocompletion\<close>

text \<open>The string of a value that holds a number is a pointer made of its bits.\<close>

definition choice_string :: "choice_value \<Rightarrow> (mem, string ptr) state" where
  "choice_string v =
     (case v of Choice_Str p \<Rightarrow> State_Monad.return p
      | Choice_Number q \<Rightarrow>
          if q = 0 then State_Monad.return Nul else do { _ \<leftarrow> fault; State_Monad.return Nul })"

text \<open>\<open>recv->data->options[i]->type\<close>, where nothing is tested.\<close>

definition option_type_at :: "discord_interaction_data ptr \<Rightarrow> nat \<Rightarrow> (mem, int) state" where
  "option_type_at d i =
     (case d of
        Nul \<Rightarrow> do { _ \<leftarrow> fault; State_Monad.return 0 }
      | Ptr _ x \<Rightarrow>
          if length (elems (id_options x)) \<le> i then do { _ \<leftarrow> fault; State_Monad.return 0 }
          else (case elems (id_options x) ! i of
                  Nul \<Rightarrow> do { _ \<leftarrow> fault; State_Monad.return 0 }
                | Ptr _ (Data_Option f _) \<Rightarrow> State_Monad.return (do_type f)))"

definition autocomplete_choice ::
  "'j json_builder \<Rightarrow> discord_interaction_data ptr \<Rightarrow> nat \<times> discord_command_option_choice ptr \<Rightarrow> (mem, 'j option) state" where
  "autocomplete_choice B d ic =
     (case ic of
        (_, Nul) \<Rightarrow> do { _ \<leftarrow> fault; State_Monad.return None }
      | (i, Ptr _ c) \<Rightarrow> do {
          let choice = add_string B ''name'' (ch_name c) (create_object B);
          let choice = add_locales B ''name_localizations'' (ch_name_localizations c) choice;
          ty \<leftarrow> option_type_at d i;
          if ty = COMMAND_OPTION_INTEGER \<or> ty = COMMAND_OPTION_NUMBER
          then do { q \<leftarrow> choice_number (ch_value c);
                    State_Monad.return (Some (add_number B ''value'' q choice)) }
          else if ty = COMMAND_OPTION_STRING
          then do { p \<leftarrow> choice_string (ch_value c);
                    State_Monad.return (Some (add_string B ''value'' p choice)) }
          else State_Monad.return (Some choice) })"

definition autocomplete_json ::
  "'j json_builder \<Rightarrow> discord_interaction_data ptr \<Rightarrow> discord_command_option_choice ptr list \<Rightarrow> 'j \<Rightarrow> (mem, 'j) state" where
  "autocomplete_json B d choices json =
     (if choices = [] then State_Monad.return json
      else do {
        arr \<leftarrow> add_each B (autocomplete_choice B d) (enumerate 0 choices) (create_array B);
        State_Monad.return (add_item_to_object B json ''choices'' (Some arr)) })"

section \<open>Modals\<close>

text \<open>The body of \<open>_d_component_to_json\<close> is empty.\<close>

definition component_to_json :: "'j \<Rightarrow> discord_component ptr \<Rightarrow> 'j" where
  "component_to_json json c = json"

definition modal_json :: "'j json_builder \<Rightarrow> reply_modal \<Rightarrow> 'j \<Rightarrow> 'j" where
  "modal_json B r json =
     (let json = add_string B ''custom_id'' (rd_custom_id r) json;
          json = add_string B ''title'' (rd_title r) json
      in if elems (rd_components r) = [] then json
         else add_item_to_object B json ''components''
           (Some (fold (\<lambda>c arr. add_item_to_array B arr (Some (component_to_json (create_object B) c)))
              (elems (rd_components r)) (create_array B))))"

section \<open>The answer\<close>

text \<open>The data of the callback; a member of the union that is not the one that was set is a fault.\<close>

definition callback_json ::
  "'j json_builder \<Rightarrow> discord_interaction_callback \<Rightarrow> discord_interaction_data ptr \<Rightarrow> 'j \<Rightarrow> (mem, 'j) state" where
  "callback_json B cb d json =
     (if ic_type cb \<in> {DISCORD_CALLBACK_CHANNEL_MESSAGE_WITH_SOURCE, DISCORD_CALLBACK_DEFERRED_CHANNEL_MESSAGE_WITH_SOURCE,
           DISCORD_CALLBACK_DEFERRED_UPDATE_MESSAGE, DISCORD_CALLBACK_UPDATE_MESSAGE}
      then (case ic_data cb of
              Reply_Message r \<Rightarrow> create_message_to_json B json (rm_content r) (Ptr 0 (reply_as_message r))
            | _ \<Rightarrow> do { _ \<leftarrow> fault; State_Monad.return json })
      else if ic_type cb = DISCORD_CALLBACK_APPLICATION_COMMAND_AUTOCOMPLETE_RESULT
      then (case ic_data cb of
              Reply_Autocomplete choices \<Rightarrow> autocomplete_json B d (elems choices) json
            | _ \<Rightarrow> do { _ \<leftarrow> fault; State_Monad.return json })
      else if ic_type cb = DISCORD_CALLBACK_MODAL
      then (case ic_data cb of
              Reply_Modal r \<Rightarrow> State_Monad.return (modal_json B r json)
            | _ \<Rightarrow> do { _ \<leftarrow> fault; State_Monad.return json })
      else State_Monad.return json)"

definition callback_url :: "u64 \<Rightarrow> string \<Rightarrow> string" where
  "callback_url i tok = ''https://discord.com/api/v10/interactions/'' @ show_u64 i @ ''/'' @ tok @ ''/callback''"

text \<open>\<open>bot_token\<close> is the token of the bot; the bot that is handed to \<open>request\<close> is NULL.\<close>

definition discord_send_interaction ::
  "'j json_builder \<Rightarrow> string \<Rightarrow> discord_interaction_callback \<Rightarrow> interaction_fields \<Rightarrow> (mem, queued_request) state" where
  "discord_send_interaction B bot_token cb recv = do {
     data \<leftarrow> callback_json B cb (in_data recv) (create_object B);
     let json = add_item_to_object B (add_number B ''type'' (of_int (ic_type cb)) (create_object B)) ''data'' (Some data);
     _ \<leftarrow> (if in_token recv = Nul then fault else State_Monad.return ());
     let tok = ptr_str (in_token recv);
     uri \<leftarrow> print_into (80 + min 500 (length tok)) (callback_url (in_id recv) tok);
     State_Monad.return (request uri (Some (print_json B json)) REQUEST_POST bot_token False None []) }"

section \<open>When an answer stays within its bounds\<close>

text \<open>A computation that allocates nothing and faults exactly if \<open>b\<close>.\<close>

definition faults_if :: "bool \<Rightarrow> 'a \<Rightarrow> (mem, 'a) state" where
  "faults_if b v = do { _ \<leftarrow> (if b then fault else State_Monad.return ()); State_Monad.return v }"

lemma run_faults_if: "run_state (faults_if b v) m = (v, if b then m\<lparr>bad := True\<rparr> else m)"
  by (simp add: faults_if_def fault_def State_Monad.return_def)

lemma faults_if_bind: "State_Monad.bind (faults_if a v) (\<lambda>x. faults_if (b x) (w x)) = faults_if (a \<or> b v) (w v)"
  by (simp add: faults_if_def fault_def State_Monad.bind_def State_Monad.return_def)

lemma faults_if_False [simp]: "faults_if False v = State_Monad.return v"
  by (simp add: faults_if_def)

lemma faults_if_bind_return: "State_Monad.bind (faults_if a v) (\<lambda>x. State_Monad.return (w x)) = faults_if a (w v)"
  using faults_if_bind [of a v "\<lambda>_. False" w] by simp

lemma add_each_faults:
  "(\<And>x. x \<in> set xs \<Longrightarrow> \<exists>v. f x = faults_if (P x) v) \<Longrightarrow>
   \<exists>j. add_each B f xs arr = faults_if (\<exists>x \<in> set xs. P x) j"
proof (induction xs arbitrary: arr)
  case (Cons x xs)
  obtain v where v: "f x = faults_if (P x) v" using Cons.prems by auto
  obtain j where "add_each B f xs (add_item_to_array B arr v) = faults_if (\<exists>x \<in> set xs. P x) j"
    using Cons.IH Cons.prems by (metis list.set_intros(2))
  then have "add_each B f (x # xs) arr = faults_if (P x \<or> (\<exists>x \<in> set xs. P x)) j"
    by (simp add: v faults_if_def fault_def State_Monad.bind_def State_Monad.return_def)
  then show ?case by auto
qed auto

text \<open>A choice that is there and holds what the option of its index is read as.\<close>

definition choice_fits :: "discord_data_option ptr \<Rightarrow> discord_command_option_choice ptr \<Rightarrow> bool" where
  "choice_fits p ch =
     (case (p, ch) of
        (Ptr _ (Data_Option f _), Ptr _ c) \<Rightarrow>
          (do_type f \<in> {COMMAND_OPTION_INTEGER, COMMAND_OPTION_NUMBER} \<longrightarrow> (\<exists>q. ch_value c = Choice_Number q)) \<and>
          (do_type f = COMMAND_OPTION_STRING \<longrightarrow> (\<exists>q. ch_value c = Choice_Str q))
      | _ \<Rightarrow> False)"

lemma autocomplete_choice_faults:
  assumes "i < length choices" and "Nul \<notin> set choices"
    and "i < length (elems (id_options x)) \<Longrightarrow> choice_fits (elems (id_options x) ! i) (choices ! i)"
  shows "\<exists>v. autocomplete_choice B (Ptr b x) (i, choices ! i) = faults_if (length (elems (id_options x)) \<le> i) v"
proof -
  obtain p c where c: "choices ! i = Ptr p c" using assms(1,2) by (cases "choices ! i") (auto dest: nth_mem)
  show ?thesis
  proof (cases "length (elems (id_options x)) \<le> i")
    case True
    then show ?thesis
      by (simp add: autocomplete_choice_def c option_type_at_def Let_def faults_if_def COMMAND_OPTION_INTEGER_def
          COMMAND_OPTION_NUMBER_def COMMAND_OPTION_STRING_def fault_def State_Monad.bind_def State_Monad.return_def)
        blast
  next
    case False
    then have fits: "choice_fits (elems (id_options x) ! i) (choices ! i)" using assms(3) by simp
    then obtain o1 f os where o1: "elems (id_options x) ! i = Ptr o1 (Data_Option f os)"
      by (auto simp: choice_fits_def split: ptr.splits discord_data_option.splits)
    show ?thesis
      using fits False
      by (auto simp: autocomplete_choice_def c o1 option_type_at_def Let_def choice_fits_def choice_number_def
          choice_string_def split: choice_value.splits)
  qed
qed

lemma autocomplete_faults:
  assumes "Nul \<notin> set choices"
    and "\<forall>i < min (length choices) (length (elems (id_options x))). choice_fits (elems (id_options x) ! i) (choices ! i)"
  shows "\<exists>j. autocomplete_json B (Ptr b x) choices json = faults_if (length (elems (id_options x)) < length choices) j"
proof (cases "choices = []")
  case False
  let ?n = "length (elems (id_options x))"
  have "\<exists>v. autocomplete_choice B (Ptr b x) ic = faults_if (?n \<le> fst ic) v"
    if "ic \<in> set (enumerate 0 choices)" for ic
  proof -
    have "fst ic < length choices" "ic = (fst ic, choices ! fst ic)"
      using that by (auto simp: in_set_enumerate_eq prod_eq_iff)
    then show ?thesis using autocomplete_choice_faults [of "fst ic" choices x B b] assms by auto
  qed
  then obtain j where "add_each B (autocomplete_choice B (Ptr b x)) (enumerate 0 choices) (create_array B) =
      faults_if (\<exists>ic \<in> set (enumerate 0 choices). ?n \<le> fst ic) j"
    using add_each_faults [of "enumerate 0 choices" "autocomplete_choice B (Ptr b x)" "\<lambda>ic. ?n \<le> fst ic" B "create_array B"]
    by blast
  moreover have "(\<exists>ic \<in> set (enumerate 0 choices). ?n \<le> fst ic) \<longleftrightarrow> ?n < length choices"
  proof
    show "?n < length choices" if "\<exists>ic \<in> set (enumerate 0 choices). ?n \<le> fst ic"
      using that by (auto simp: in_set_enumerate_eq)
    show "\<exists>ic \<in> set (enumerate 0 choices). ?n \<le> fst ic" if "?n < length choices"
      using that by (intro bexI [of _ "(?n, choices ! ?n)"]) (auto simp: in_set_enumerate_eq)
  qed
  ultimately show ?thesis
    using False by (simp add: autocomplete_json_def faults_if_bind_return) (rule exI, rule refl)
qed (auto simp: autocomplete_json_def)

lemma callback_url_length: "length (callback_url i tok) = 51 + length (show_u64 i) + length tok"
  by (simp add: callback_url_def)

lemma callback_url_overflows:
  "80 + min 500 (length tok) \<le> length (callback_url i tok) \<longleftrightarrow> 529 \<le> length (show_u64 i) + length tok"
  using length_show_u64 [of i] by (simp add: callback_url_length min_def)


definition sample_data :: discord_interaction_data where
  "sample_data = \<lparr>id_id = 1, id_name = Nul, id_type = 1,
     id_options = Ptr 3 [Ptr 4 (Data_Option \<lparr>do_name = Nul, do_type = 3, do_value_type = 0, do_value = V_Zero, do_focused = True\<rparr> Nul)],
     id_guild_id = 0, id_target_id = 0, id_custom_id = Nul, id_values = Nul, id_components = Nul\<rparr>"

definition sample_interaction :: interaction_fields where
  "sample_interaction = \<lparr>in_id = 7, in_application_id = 0, in_type = 4, in_data = Ptr 2 sample_data, in_guild_id = 0,
     in_channel_id = 0, in_member = Nul, in_user = Nul, in_token = Ptr 5 ''tok'', in_version = 1,
     in_app_permissions = Nul, in_locale = Nul, in_guild_locale = Nul\<rparr>"

definition sample_choice :: "string \<Rightarrow> discord_command_option_choice ptr" where
  "sample_choice name = Ptr 8 \<lparr>ch_name = Ptr 9 name, ch_name_localizations = Nul, ch_value = Choice_Str (Ptr 9 name)\<rparr>"


end
