(* ===== verification/Reading_Ends.thy ===== *)
theory Reading_Ends
  imports Messages
begin

text \<open>
  The recursive readers end. Their fuel stands for the nesting of the document: a document nested less
  than \<open>k\<close> levels deep is read in the same way with any fuel from \<open>k\<close> on, so what a reader returns is
  what the recursion of the code returns.
\<close>

lemma read_item_cong:
  "(\<And>f. get_object_item J data name = Some f \<Longrightarrow> rd (Some f) = rd' (Some f)) \<Longrightarrow>
   read_item J data name rd = read_item J data name rd'"
  by (simp add: read_item_def split: option.splits)

lemma get_array_cong:
  assumes "\<And>x. x \<in> set (json_items J (get_object_item J data name)) \<Longrightarrow> rd (Some x) = rd' (Some x)"
  shows "get_array_from_json J data name rd = get_array_from_json J data name rd'"
proof -
  let ?items = "json_items J (get_object_item J data name)"
  have "State_Monad.traverse_list (\<lambda>j. rd (Some j)) ?items = State_Monad.traverse_list (\<lambda>j. rd' (Some j)) ?items"
    by (rule traverse_list_cong [OF refl]) (rule assms)
  then show ?thesis by (simp add: get_array_from_json_def Let_def)
qed

text \<open>The items of a document nested less than \<open>k + 1\<close> levels deep, read with at least the fuel \<open>k\<close>.\<close>

lemma fuel_array:
  assumes "json_laws J" and "json_depth J (Suc k) j"
    and "\<And>x. json_depth J k x \<Longrightarrow> rd (Some x) = rd' (Some x)"
  shows "get_array_from_json J (Some j) name rd = get_array_from_json J (Some j) name rd'"
  by (rule get_array_cong) (use assms json_depth_items in metis)

lemma fuel_item:
  assumes "json_laws J" and "json_depth J (Suc k) j"
    and "\<And>x. json_depth J k x \<Longrightarrow> rd (Some x) = rd' (Some x)"
  shows "read_item J (Some j) name rd = read_item J (Some j) name rd'"
  by (rule read_item_cong) (use assms json_depth_item in metis)

lemma component_reading_ends:
  assumes "json_laws J"
  shows "json_depth J k j \<Longrightarrow> k \<le> l \<Longrightarrow> json_to_component J l (Some j) = json_to_component J k (Some j)"
proof (induction k arbitrary: j l)
  case (Suc k)
  then obtain l' where l: "l = Suc l'" "k \<le> l'" by (cases l) auto
  have "get_array_from_json J (Some j) n (json_to_component J l') = get_array_from_json J (Some j) n (json_to_component J k)" for n
    by (rule fuel_array [OF assms Suc.prems(1)]) (rule Suc.IH [OF _ l(2)])
  note this [simp]
  show ?case by (simp add: l(1) cong: if_cong)
qed simp

lemma data_option_reading_ends:
  assumes "json_laws J"
  shows "json_depth J k j \<Longrightarrow> k \<le> l \<Longrightarrow> json_to_data_option J l (Some j) = json_to_data_option J k (Some j)"
proof (induction k arbitrary: j l)
  case (Suc k)
  then obtain l' where l: "l = Suc l'" "k \<le> l'" by (cases l) auto
  have "get_array_from_json J (Some j) n (json_to_data_option J l') = get_array_from_json J (Some j) n (json_to_data_option J k)" for n
    by (rule fuel_array [OF assms Suc.prems(1)]) (rule Suc.IH [OF _ l(2)])
  note this [simp]
  show ?case by (simp add: l(1) cong: if_cong)
qed simp

lemma interaction_data_reading_ends:
  assumes "json_laws J" and "json_depth J k j" and "k \<le> l"
  shows "json_to_interaction_data J l (Some j) = json_to_interaction_data J k (Some j)"
proof -
  have d: "json_depth J (Suc k) j" by (rule json_depth_Suc [OF assms(2)])
  have "get_array_from_json J (Some j) n (json_to_component J l) = get_array_from_json J (Some j) n (json_to_component J k)"
    "get_array_from_json J (Some j) n (json_to_data_option J l) = get_array_from_json J (Some j) n (json_to_data_option J k)" for n
    by (rule fuel_array [OF assms(1) d], rule component_reading_ends data_option_reading_ends, rule assms(1), assumption, rule assms(3))+
  note this [simp]
  show ?thesis by (simp add: json_to_interaction_data_def)
qed

lemma reading_ends:
  assumes "json_laws J" and "json_depth J k j" and "k \<le> l"
  shows "json_to_message J l (Some j) = json_to_message J k (Some j) \<and>
    json_to_interaction J l (Some j) = json_to_interaction J k (Some j)"
  using assms(2,3)
proof (induction k arbitrary: j l)
  case (Suc k)
  then obtain l' where l: "l = Suc l'" "k \<le> l'" by (cases l) auto
  note d = Suc.prems(1)
  have items: "read_item J (Some j) n (json_to_message J l') = read_item J (Some j) n (json_to_message J k)"
    "read_item J (Some j) n (json_to_interaction J l') = read_item J (Some j) n (json_to_interaction J k)"
    "read_item J (Some j) n (json_to_interaction_data J l') = read_item J (Some j) n (json_to_interaction_data J k)" for n
    using Suc.IH l(2) interaction_data_reading_ends [OF assms(1) _ l(2)]
    by (auto intro!: fuel_item [OF assms(1) d])
  have "get_array_from_json J (Some j) n (json_to_component J l') = get_array_from_json J (Some j) n (json_to_component J k)" for n
    by (rule fuel_array [OF assms(1) d]) (rule component_reading_ends [OF assms(1) _ l(2)])
  note this [simp] items [simp]
  show ?case by (simp add: l(1) read_message_def read_interaction_def cong: if_cong)
qed simp

lemma message_not_null: "fst (run_state (json_to_message J (Suc k) data) m) \<noteq> Nul"
  by (simp add: read_message_def split_beta Let_def)

lemma interaction_not_null: "fst (run_state (json_to_interaction J (Suc k) data) m) \<noteq> Nul"
  by (simp add: read_interaction_def split_beta Let_def)

text \<open>C30. Reading a message or an interaction ends: for a document nested less than \<open>k\<close> levels deep the
  recursion never asks for more than \<open>k\<close> levels, so any more fuel gives the same structure and the same
  memory, and neither result is NULL. As the parser refuses documents nested deeper than
  \<open>nesting_limit\<close>, that fuel is enough for every document.\<close>

theorem message_reading_ends:
  assumes "json_laws J" and "json_depth J k j" and "k \<le> l"
  shows "json_to_message J l (Some j) = json_to_message J k (Some j) \<and>
    json_to_interaction J l (Some j) = json_to_interaction J k (Some j) \<and>
    fst (run_state (json_to_message J l (Some j)) m) \<noteq> Nul \<and>
    fst (run_state (json_to_interaction J l (Some j)) m) \<noteq> Nul"
proof -
  have "k \<noteq> 0" using assms(2) by (cases k) auto
  then obtain l' where "l = Suc l'" using assms(3) by (cases l) auto
  then show ?thesis using reading_ends [OF assms] message_not_null interaction_not_null by metis
qed

theorem message_reading_ends_witness:
  "json_to_message small_json 1000 (Some (JObj [(''id'', JStr ''5'')])) =
     json_to_message small_json 2 (Some (JObj [(''id'', JStr ''5'')]))"
proof -
  have "json_depth small_json 2 (JObj [(''id'', JStr ''5'')])" by (simp add: small_json_def numeral_2_eq_2)
  then show ?thesis using message_reading_ends [OF small_json_laws, of 2 _ 1000] by simp
qed

end
