(* ===== verification/Request_Pool.thy ===== *)
theory Request_Pool
  imports Request Thread_Pool
begin

text \<open>
  Requests on the thread pool: \<open>request\<close> of \<open>request.c\<close> hands a node to the pool of \<open>t_pool.c\<close>, a
  worker runs \<open>request_t_pool\<close> on it, and a run that has to be repeated hands the node to the pool
  again. The work of the pool is a node with the number of the request it belongs to; the numbers and
  the records of what was sent and called are history, the code does not have them. The two critical
  sections and the run between them are separate steps, so other workers may come in between; the run
  of one worker is one step.
\<close>

section \<open>The code\<close>

record 'j request_sys =
  rq_pool :: "(nat \<times> request_work_node) pool_sys"
  rq_returned :: "addr set"
  rq_issued :: "request_work_node list"
  rq_sent :: "(nat \<times> curl_request) list"
  rq_done :: "(nat \<times> 'j call list) list"

definition tag_sent :: "nat \<Rightarrow> 'j run \<Rightarrow> (nat \<times> curl_request) list" where
  "tag_sent k r = map (Pair k) (r_sent r)"

text \<open>
  \<open>submit\<close>: any thread calls \<open>request\<close>. \<open>schedule\<close>: a worker takes work or leaves, or the pool begins
  to be destroyed. \<open>run_end\<close>, \<open>run_again\<close>: the work function returns, the node being freed, given up or
  queued for a time that is not before 1970. \<open>finish\<close>: the worker frees the item of work.
\<close>

inductive request_step :: "'j json_lib \<Rightarrow> bool \<Rightarrow> 'j request_sys \<Rightarrow> 'j request_sys \<Rightarrow> bool" for L dbg where
  submit: "request url content ty tok True rc files = Some (n, t) \<Longrightarrow> w = rq_pool s \<Longrightarrow>
    wp \<noteq> NULL \<Longrightarrow> p_works (pool w) wp = None \<Longrightarrow> np \<noteq> NULL \<Longrightarrow> p_nodes (pool w) np = None \<Longrightarrow>
    t_pool_add_work (pool w) wp np (length (rq_issued s), n) t = Some tp \<Longrightarrow>
    request_step L dbg s (s\<lparr>rq_pool := w\<lparr>pool := tp, added := add_mset (length (rq_issued s), n) (added w)\<rparr>,
      rq_issued := rq_issued s @ [n]\<rparr>)"
| schedule: "pool_step (rq_pool s) w \<Longrightarrow> added w = added (rq_pool s) \<Longrightarrow> executed w = executed (rq_pool s) \<Longrightarrow>
    request_step L dbg s (s\<lparr>rq_pool := w\<rparr>)"
| run_end: "i < length (threads (rq_pool s)) \<Longrightarrow> threads (rq_pool s) ! i = Busy a \<Longrightarrow> a \<notin> rq_returned s \<Longrightarrow>
    p_works (pool (rq_pool s)) a = Some wk \<Longrightarrow> work_fn wk = (k, n) \<Longrightarrow>
    r = request_t_pool L dbg att n \<Longrightarrow> r_queued r = [] \<Longrightarrow>
    request_step L dbg s (s\<lparr>rq_returned := insert a (rq_returned s), rq_sent := rq_sent s @ tag_sent k r,
      rq_done := rq_done s @ [(k, r_calls r)]\<rparr>)"
| run_again: "i < length (threads (rq_pool s)) \<Longrightarrow> threads (rq_pool s) ! i = Busy a \<Longrightarrow> a \<notin> rq_returned s \<Longrightarrow>
    w = rq_pool s \<Longrightarrow> p_works (pool w) a = Some wk \<Longrightarrow> work_fn wk = (k, n) \<Longrightarrow>
    r = request_t_pool L dbg att n \<Longrightarrow> r_queued r = [t] \<Longrightarrow> r_node r = Some n' \<Longrightarrow> 0 \<le> tv_sec t \<Longrightarrow>
    wp \<noteq> NULL \<Longrightarrow> p_works (pool w) wp = None \<Longrightarrow> np \<noteq> NULL \<Longrightarrow> p_nodes (pool w) np = None \<Longrightarrow>
    t_pool_add_work (pool w) wp np (k, n') t = Some tp \<Longrightarrow>
    request_step L dbg s (s\<lparr>rq_pool := w\<lparr>pool := tp, added := add_mset (k, n') (added w)\<rparr>,
      rq_returned := insert a (rq_returned s), rq_sent := rq_sent s @ tag_sent k r\<rparr>)"
| finish: "i < length (threads (rq_pool s)) \<Longrightarrow> threads (rq_pool s) ! i = Busy a \<Longrightarrow> a \<in> rq_returned s \<Longrightarrow>
    w = rq_pool s \<Longrightarrow> p_works (pool w) a = Some wk \<Longrightarrow> free_work (p_works (pool w)) a = Some works \<Longrightarrow>
    request_step L dbg s (s\<lparr>rq_pool := w\<lparr>pool := (pool w)\<lparr>p_works := works\<rparr>, threads := (threads w)[i := Idle],
      executed := add_mset (work_fn wk) (executed w)\<rparr>, rq_returned := rq_returned s - {a}\<rparr>)"

definition request_start :: "nat \<Rightarrow> int \<Rightarrow> 'j request_sys" where
  "request_start n usec0 =
     \<lparr>rq_pool = pool_start n usec0, rq_returned = {}, rq_issued = [], rq_sent = [], rq_done = []\<rparr>"

inductive request_reach :: "'j json_lib \<Rightarrow> bool \<Rightarrow> nat \<Rightarrow> int \<Rightarrow> 'j request_sys \<Rightarrow> bool" for L dbg n usec0 where
  start: "request_reach L dbg n usec0 (request_start n usec0)"
| step: "request_reach L dbg n usec0 s \<Longrightarrow> request_step L dbg s t \<Longrightarrow> request_reach L dbg n usec0 t"

section \<open>One run\<close>

text \<open>What a node keeps of the request it was made for.\<close>

definition same_request :: "request_work_node \<Rightarrow> request_work_node \<Rightarrow> bool" where
  "same_request n n' \<longleftrightarrow> n_url n' = n_url n \<and> n_json n' = n_json n \<and> n_request_type n' = n_request_type n \<and>
     n_token n' = n_token n \<and> n_rc n' = n_rc n \<and> n_bot n' = n_bot n \<and> n_files n' = n_files n"

lemma same_request_refl [simp]: "same_request n n"
  by (simp add: same_request_def)

lemma same_request_trans: "same_request m n \<Longrightarrow> same_request n l \<Longrightarrow> same_request m l"
  by (simp add: same_request_def)

lemma same_request_built: "same_request n n' \<Longrightarrow> snd (build_request n') = snd (build_request n)"
  by (simp add: same_request_def build_request_def d_curl_setup_discord_header_files_def Let_def split_beta
      d_curl_setup_discord_header_def)

lemma handle_http_node:
  "same_request n (fst (snd (snd (handle_http L dbg a response n)))) \<and>
   n_iteration (fst (snd (snd (handle_http L dbg a response n)))) \<le> Suc (n_iteration n)"
  by (auto simp: handle_http_def Let_def queue_again_def same_request_def split: option.splits prod.splits)

lemma run_sent: "set (r_sent (request_t_pool L dbg att n)) \<subseteq> {snd (build_request n)}"
  by (simp add: request_t_pool_def Let_def split_beta)

lemma run_queued:
  assumes "r_queued (request_t_pool L dbg att n) \<noteq> []" and "r_node (request_t_pool L dbg att n) = Some n'"
  shows "same_request n n' \<and> n_iteration n' \<le> 5"
proof -
  define m where "m = n\<lparr>n_res := a_res att, n_http := a_http att\<rparr>"
  define h where "h = handle_http L dbg att (fold write_data (a_pieces att) None) m"
  have five: "n_iteration n < 5"
    using assms(1) by (rule contrapos_np) (simp add: request_t_pool_def Let_def split_beta)
  have not_sent: "\<not> fst h"
    using assms five by (auto simp: request_t_pool_def Let_def split_beta h_def m_def split: if_splits)
  have "n' = fst (snd (snd h)) \<or> n' = (fst (snd (snd h)))\<lparr>n_files_live := False\<rparr>"
    using assms(2) five not_sent
    by (auto simp: request_t_pool_def Let_def split_beta h_def [symmetric] m_def [symmetric] split: if_splits)
  moreover have "same_request m (fst (snd (snd h)))" "n_iteration (fst (snd (snd h))) \<le> Suc (n_iteration m)"
    using handle_http_node [of m L dbg att "fold write_data (a_pieces att) None"] by (simp_all add: h_def)
  ultimately show ?thesis using five by (auto simp: same_request_def m_def)
qed

section \<open>What holds of every state\<close>

definition ids :: "(nat \<times> request_work_node) multiset \<Rightarrow> nat multiset" where
  "ids = image_mset fst"

lemma ids_simps [simp]:
  "ids {#} = {#}" "ids (add_mset x M) = add_mset (fst x) (ids M)" "ids (M + N) = ids M + ids N"
  by (simp_all add: ids_def)

text \<open>The items whose function has returned and that are not freed yet, and the others a worker holds.\<close>

definition returned_items :: "'j request_sys \<Rightarrow> addr list" where
  "returned_items s = filter (\<lambda>a. a \<in> rq_returned s) (busy (threads (rq_pool s)))"

definition running_items :: "'j request_sys \<Rightarrow> addr list" where
  "running_items s = filter (\<lambda>a. a \<notin> rq_returned s) (busy (threads (rq_pool s)))"

definition node_ok :: "'j request_sys \<Rightarrow> nat \<times> request_work_node \<Rightarrow> bool" where
  "node_ok s x \<longleftrightarrow> fst x < length (rq_issued s) \<and> same_request (rq_issued s ! fst x) (snd x) \<and> n_iteration (snd x) \<le> 5"

definition sent_ok :: "'j request_sys \<Rightarrow> nat \<times> curl_request \<Rightarrow> bool" where
  "sent_ok s x \<longleftrightarrow> fst x < length (rq_issued s) \<and> snd x = snd (build_request (rq_issued s ! fst x))"

text \<open>
  What was added is what was issued and what was queued again; what was queued again or is done is
  what has returned.
\<close>

definition balanced :: "'j request_sys \<Rightarrow> bool" where
  "balanced s \<longleftrightarrow> rq_returned s \<subseteq> set (busy (threads (rq_pool s))) \<and>
     ids (added (rq_pool s)) + mset (map fst (rq_done s)) =
       mset [0..<length (rq_issued s)] + ids (executed (rq_pool s)) +
       ids (work_fns (p_works (pool (rq_pool s))) (returned_items s))"

definition request_inv :: "'j request_sys \<Rightarrow> bool" where
  "request_inv s \<longleftrightarrow> sys_ok (rq_pool s) \<and> (\<not> p_stop (pool (rq_pool s)) \<longrightarrow> balanced s) \<and>
     (\<forall>x \<in># added (rq_pool s). node_ok s x) \<and> list_all (sent_ok s) (rq_sent s)"

lemma request_inv_start: "request_inv (request_start n usec0)"
  using sys_ok_start [of n usec0]
  by (auto simp: request_inv_def request_start_def balanced_def returned_items_def pool_start_def)

lemma node_ok_grow:
  "node_ok s x \<Longrightarrow> rq_issued t = rq_issued s @ ns \<Longrightarrow> node_ok t x"
  "sent_ok s y \<Longrightarrow> rq_issued t = rq_issued s @ ns \<Longrightarrow> sent_ok t y"
  by (auto simp: node_ok_def sent_ok_def nth_append)

lemma busy_nth: "i < length ts \<Longrightarrow> ts ! i = Busy a \<Longrightarrow> a \<in> set (busy ts)"
  using busy_in nth_mem by metis

lemma busy_added:
  assumes "sys_ok w" and "a \<in> set (busy (threads w))" and "p_works (pool w) a = Some wk"
  shows "work_fn wk \<in># added w"
proof -
  have "work_fn wk \<in># work_fns (p_works (pool w)) (busy (threads w))"
    using assms(2,3) by (force simp: work_fns_def)
  then show ?thesis
    using assms(1) by (auto simp: sys_ok_def split: if_splits dest: mset_subset_eqD)
qed

lemma busy_distinct: "sys_ok w \<Longrightarrow> distinct (busy (threads w))"
  by (auto simp: sys_ok_def split: if_splits)

lemma busy_allocated: "sys_ok w \<Longrightarrow> set (busy (threads w)) \<subseteq> dom (p_works (pool w))"
  by (auto simp: sys_ok_def split: if_splits)

text \<open>The item of a thread that returns moves from the running to the returned ones.\<close>

lemma filter_insert:
  "distinct xs \<Longrightarrow> a \<in> set xs \<Longrightarrow> a \<notin> A \<Longrightarrow>
   mset (filter (\<lambda>b. b \<in> insert a A) xs) = add_mset a (mset (filter (\<lambda>b. b \<in> A) xs))"
proof (induction xs)
  case (Cons x xs)
  show ?case
  proof (cases "x = a")
    case True
    then have "filter (\<lambda>b. b \<in> insert a A) xs = filter (\<lambda>b. b \<in> A) xs"
      using Cons.prems by (intro filter_cong) auto
    then show ?thesis using True Cons.prems by simp
  qed (use Cons in auto)
qed simp

lemma filter_remove:
  assumes "distinct (xs @ a # ys)" and "a \<in> A"
  shows "mset (filter (\<lambda>b. b \<in> A) (xs @ a # ys)) = add_mset a (mset (filter (\<lambda>b. b \<in> A - {a}) (xs @ ys)))"
proof -
  have "filter (\<lambda>b. b \<in> A - {a}) zs = filter (\<lambda>b. b \<in> A) zs" if "a \<notin> set zs" for zs
    using that by (intro filter_cong) auto
  then show ?thesis using assms by simp
qed

lemma add_work_fields:
  assumes "t_pool_add_work tp wp np f w = Some tp'"
  shows "p_works tp' = (p_works tp)(wp \<mapsto> \<lparr>work_fn = f, work_wait_until = w\<rparr>)" and "p_stop tp' = p_stop tp"
  using assms by (auto simp: t_pool_add_work_def Let_def split: option.splits)

text \<open>Adding work, with an item that just returned or without, keeps the items that have returned.\<close>

lemma add_work_balanced:
  assumes bal: "balanced s" and ok: "sys_ok (rq_pool s)" and wp: "p_works (pool (rq_pool s)) wp = None"
    and add: "t_pool_add_work (pool (rq_pool s)) wp np (length (rq_issued s), n) t = Some tp"
  shows "balanced (s\<lparr>rq_pool := (rq_pool s)\<lparr>pool := tp, added := add_mset (length (rq_issued s), n) (added (rq_pool s))\<rparr>,
      rq_issued := rq_issued s @ [m]\<rparr>)"
proof -
  have "wp \<notin> set (returned_items s)"
    using busy_allocated [OF ok] wp by (auto simp: returned_items_def)
  then show ?thesis
    using bal by (simp add: balanced_def returned_items_def add_work_fields(1) [OF add] work_fns_upd)
qed

lemma returned_insert:
  assumes ok: "sys_ok (rq_pool s)" and i: "i < length (threads (rq_pool s))" "threads (rq_pool s) ! i = Busy a"
    and a: "a \<notin> rq_returned s" and wk: "p_works (pool (rq_pool s)) a = Some wk"
  shows "work_fns (p_works (pool (rq_pool s))) (returned_items (s\<lparr>rq_returned := insert a (rq_returned s)\<rparr>)) =
      add_mset (work_fn wk) (work_fns (p_works (pool (rq_pool s))) (returned_items s))"
proof -
  have "mset (returned_items (s\<lparr>rq_returned := insert a (rq_returned s)\<rparr>)) = add_mset a (mset (returned_items s))"
    using filter_insert [OF busy_distinct [OF ok] busy_nth [OF i] a] by (simp add: returned_items_def)
  then show ?thesis using wk by (simp add: work_fns_def)
qed

lemma run_end_balanced:
  assumes bal: "balanced s" and ok: "sys_ok (rq_pool s)"
    and i: "i < length (threads (rq_pool s))" "threads (rq_pool s) ! i = Busy a"
    and a: "a \<notin> rq_returned s" and wk: "p_works (pool (rq_pool s)) a = Some wk" "work_fn wk = (k, n)"
  shows "balanced (s\<lparr>rq_returned := insert a (rq_returned s), rq_sent := xs, rq_done := rq_done s @ [(k, cs)]\<rparr>)"
proof -
  have r: "returned_items (s\<lparr>rq_returned := insert a (rq_returned s), rq_sent := xs, rq_done := rq_done s @ [(k, cs)]\<rparr>) =
      returned_items (s\<lparr>rq_returned := insert a (rq_returned s)\<rparr>)"
    by (simp add: returned_items_def)
  have "ids (work_fns (p_works (pool (rq_pool s))) (returned_items (s\<lparr>rq_returned := insert a (rq_returned s)\<rparr>))) =
      add_mset k (ids (work_fns (p_works (pool (rq_pool s))) (returned_items s)))"
    by (simp add: returned_insert [OF ok i a wk(1)] wk(2))
  then show ?thesis
    using bal busy_nth [OF i] unfolding balanced_def r by simp
qed

lemma run_again_balanced:
  assumes bal: "balanced s" and ok: "sys_ok (rq_pool s)"
    and i: "i < length (threads (rq_pool s))" "threads (rq_pool s) ! i = Busy a"
    and a: "a \<notin> rq_returned s" and wk: "p_works (pool (rq_pool s)) a = Some wk" "work_fn wk = (k, n)"
    and wp: "p_works (pool (rq_pool s)) wp = None"
    and add: "t_pool_add_work (pool (rq_pool s)) wp np (k, n') t = Some tp"
  shows "balanced (s\<lparr>rq_pool := (rq_pool s)\<lparr>pool := tp, added := add_mset (k, n') (added (rq_pool s))\<rparr>,
      rq_returned := insert a (rq_returned s), rq_sent := xs\<rparr>)"
proof -
  let ?s = "s\<lparr>rq_returned := insert a (rq_returned s)\<rparr>"
  have r: "returned_items (s\<lparr>rq_pool := (rq_pool s)\<lparr>pool := tp, added := add_mset (k, n') (added (rq_pool s))\<rparr>,
      rq_returned := insert a (rq_returned s), rq_sent := xs\<rparr>) = returned_items ?s"
    by (simp add: returned_items_def)
  have "wp \<notin> set (returned_items ?s)"
    using busy_allocated [OF ok] wp by (auto simp: returned_items_def)
  then have "ids (work_fns (p_works tp) (returned_items ?s)) =
      add_mset k (ids (work_fns (p_works (pool (rq_pool s))) (returned_items s)))"
    by (simp add: add_work_fields(1) [OF add] work_fns_upd returned_insert [OF ok i a wk(1)] wk(2))
  then show ?thesis
    using bal busy_nth [OF i] unfolding balanced_def r by simp
qed

lemma finish_balanced:
  assumes bal: "balanced s" and ok: "sys_ok (rq_pool s)"
    and i: "i < length (threads (rq_pool s))" "threads (rq_pool s) ! i = Busy a"
    and a: "a \<in> rq_returned s" and wk: "p_works (pool (rq_pool s)) a = Some wk"
    and fr: "free_work (p_works (pool (rq_pool s))) a = Some works"
  shows "balanced (s\<lparr>rq_pool := (rq_pool s)\<lparr>pool := (pool (rq_pool s))\<lparr>p_works := works\<rparr>,
      threads := (threads (rq_pool s))[i := Idle], executed := add_mset (work_fn wk) (executed (rq_pool s))\<rparr>,
      rq_returned := rq_returned s - {a}\<rparr>)" (is "balanced ?t")
proof -
  let ?works = "p_works (pool (rq_pool s))"
  obtain xs ys where sp: "threads (rq_pool s) = xs @ threads (rq_pool s) ! i # ys"
      "\<And>t. (threads (rq_pool s))[i := t] = xs @ t # ys"
    using thread_split i(1) by blast
  have b: "busy (threads (rq_pool s)) = busy xs @ a # busy ys" by (subst sp(1)) (simp add: i(2))
  have d: "distinct (busy xs @ a # busy ys)" using busy_distinct [OF ok] by (simp add: b)
  have works: "works = ?works \<or> works = ?works(a := None)" using fr by (auto simp: free_work_def split: if_splits option.splits)
  have m: "mset (returned_items s) = add_mset a (mset (returned_items ?t))"
    using filter_remove [OF d a] by (simp add: returned_items_def b sp(2))
  have "a \<notin> set (returned_items ?t)" by (auto simp: returned_items_def)
  then have "work_fns works (returned_items ?t) = work_fns ?works (returned_items ?t)"
    using works work_fns_upd by metis
  moreover have "work_fns ?works (returned_items s) = add_mset (work_fn wk) (work_fns ?works (returned_items ?t))"
    unfolding work_fns_def m using wk by simp
  moreover have "rq_returned s - {a} \<subseteq> set (busy xs @ busy ys)" using bal by (auto simp: balanced_def b)
  ultimately show ?thesis using bal by (simp add: balanced_def sp(2))
qed

lemma take_balanced:
  assumes bal: "balanced s" and ok: "sys_ok (rq_pool s)"
    and i: "i < length (threads (rq_pool s))" "threads (rq_pool s) ! i = Idle"
    and sec: "thread_section now (pool (rq_pool s)) = Some (Run a, tp)"
  shows "balanced (s\<lparr>rq_pool := (rq_pool s)\<lparr>pool := tp, threads := (threads (rq_pool s))[i := Busy a]\<rparr>\<rparr>)"
proof -
  have run: "\<not> p_stop (pool (rq_pool s))"
    using sec by (auto simp: thread_section_def split: if_splits option.splits prod.splits)
  obtain ns where ns: "pool_ok (pool (rq_pool s)) ns" "distinct (map qn_data ns @ busy (threads (rq_pool s)))"
    by (rule sys_ok_runningE [OF ok run])
  obtain x ns' where x: "ns = x # ns'" "a = qn_data x" "p_works tp = p_works (pool (rq_pool s))"
    using thread_section_run [OF ns(1) sec] by blast
  obtain xs ys where sp: "threads (rq_pool s) = xs @ threads (rq_pool s) ! i # ys"
      "\<And>t. (threads (rq_pool s))[i := t] = xs @ t # ys"
    using thread_split i(1) by blast
  have b: "busy (threads (rq_pool s)) = busy xs @ busy ys" by (subst sp(1)) (simp add: i(2))
  have "a \<notin> rq_returned s" using ns(2) bal x(1,2) by (auto simp: balanced_def)
  then show ?thesis using bal by (auto simp: balanced_def returned_items_def sp(2) b x(3))
qed

lemma schedule_balanced:
  assumes "pool_step (rq_pool s) w" and "added w = added (rq_pool s)" and "executed w = executed (rq_pool s)"
    and "balanced s" and "sys_ok (rq_pool s)" and "\<not> p_stop (pool w)"
  shows "balanced (s\<lparr>rq_pool := w\<rparr>)"
  using assms(1)
proof cases
  case (take i now a tp)
  then show ?thesis using take_balanced [OF assms(4,5), of i now a tp] by simp
next
  case (leave i now tp)
  then have "p_stop (pool w)" by (auto simp: thread_section_leave)
  with assms(6) show ?thesis by simp
next
  case (destroy tp)
  then have "p_stop (pool w)"
    by (auto simp: t_pool_destroy_begin_def split: option.splits)
  with assms(6) show ?thesis by simp
qed (use assms(2,3) in auto)

text \<open>A pool that has been stopped stays so.\<close>

lemma step_running:
  "pool_step w w' \<Longrightarrow> \<not> p_stop (pool w') \<Longrightarrow> \<not> p_stop (pool w)"
  by (induction rule: pool_step.induct)
    (auto simp: thread_section_def t_pool_destroy_begin_def t_pool_pop_work_def free_node_def Let_def
      split: if_splits option.splits prod.splits dest!: add_work_fields(2))

text \<open>Every step of the requests is a step of the pool or none.\<close>

lemma request_step_pool:
  assumes "request_step L dbg s t"
  shows "rq_pool t = rq_pool s \<or> pool_step (rq_pool s) (rq_pool t)"
  using assms
proof (induction rule: request_step.induct)
  case (submit url content ty tok rc files n t w s wp np tp)
  have "0 \<le> tv_sec t" using submit(1) by (auto simp: request_def)
  then show ?case
    using pool_step.add [OF submit(3-6) _ submit(7)] submit(2) by simp
next
  case (schedule s w)
  then show ?case by simp
next
  case (run_end i s a wk k n r att)
  then show ?case by simp
next
  case (run_again i s a w wk k n r att t n' wp np tp)
  then show ?case using pool_step.add [of wp w np t "(k, n')" tp] by simp
next
  case (finish i s a w wk works)
  then show ?case using pool_step.finish [of i w a wk works] by simp
qed

lemma node_ok_again:
  assumes "node_ok s (k, n)" and "r_queued (request_t_pool L dbg att n) \<noteq> []"
    and "r_node (request_t_pool L dbg att n) = Some n'"
  shows "node_ok s (k, n')"
  using assms(1) run_queued [OF assms(2,3)] by (auto simp: node_ok_def intro: same_request_trans)

lemma sent_ok_run:
  assumes "node_ok s (k, n)"
  shows "list_all (sent_ok s) (tag_sent k (request_t_pool L dbg att n))"
proof -
  have "same_request (rq_issued s ! k) n" "k < length (rq_issued s)" using assms by (auto simp: node_ok_def)
  then show ?thesis
    using run_sent [of L dbg att n] same_request_built [of "rq_issued s ! k" n]
    by (auto simp: list_all_iff tag_sent_def sent_ok_def)
qed

lemma ok_cong:
  "rq_issued t = rq_issued s \<Longrightarrow> node_ok t = node_ok s" "rq_issued t = rq_issued s \<Longrightarrow> sent_ok t = sent_ok s"
  by (simp_all add: node_ok_def sent_ok_def fun_eq_iff)

lemma step_balanced:
  assumes "request_step L dbg s t" and ok: "sys_ok (rq_pool s)" and bal: "balanced s"
    and "\<not> p_stop (pool (rq_pool t))"
  shows "balanced t"
  using assms(1)
proof cases
  case (submit url content ty tok rc files n u w wp np tp)
  show ?thesis
    unfolding submit(1,3) by (rule add_work_balanced [OF bal ok submit(5) [unfolded submit(3)] submit(8) [unfolded submit(3)]])
next
  case (schedule w)
  show ?thesis
    unfolding schedule(1) by (rule schedule_balanced [OF schedule(2-4) bal ok]) (use assms(4) schedule(1) in simp)
next
  case (run_end i a wk k n r att)
  show ?thesis unfolding run_end(1) by (rule run_end_balanced [OF bal ok run_end(2-6)])
next
  case (run_again i a w wk k n r att u n' wp np tp)
  show ?thesis
    unfolding run_again(1) run_again(5)
    by (rule run_again_balanced [OF bal ok run_again(2-4) _ run_again(7) _ run_again(16) [unfolded run_again(5)]])
      (use run_again in simp_all)
next
  case (finish i a w wk works)
  show ?thesis
    unfolding finish(1) finish(5)
    by (rule finish_balanced [OF bal ok finish(2-4)]) (use finish in simp_all)
qed

text \<open>The nodes that were added and what was sent belong to requests that were issued.\<close>

definition history_ok :: "'j request_sys \<Rightarrow> bool" where
  "history_ok s \<longleftrightarrow> (\<forall>x \<in># added (rq_pool s). node_ok s x) \<and> list_all (sent_ok s) (rq_sent s)"

lemma history_cong:
  "rq_issued t = rq_issued s \<Longrightarrow> added (rq_pool t) = added (rq_pool s) \<Longrightarrow> rq_sent t = rq_sent s \<Longrightarrow>
   history_ok t = history_ok s"
  by (simp add: history_ok_def ok_cong [of t s])

lemma history_again:
  assumes "history_ok s" and "rq_issued t = rq_issued s" and "rq_sent t = rq_sent s @ xs"
    and "list_all (sent_ok s) xs" and "added (rq_pool t) = added (rq_pool s) \<or>
      (\<exists>y. node_ok s y \<and> added (rq_pool t) = add_mset y (added (rq_pool s)))"
  shows "history_ok t"
  using assms by (auto simp: history_ok_def ok_cong [of t s])

lemma step_history:
  assumes "request_step L dbg s t" and ok: "sys_ok (rq_pool s)" and h: "history_ok s"
  shows "history_ok t"
  using assms(1)
proof cases
  case (submit url content ty tok rc files n u w wp np tp)
  have t: "rq_issued t = rq_issued s @ [n]" "rq_sent t = rq_sent s"
      "added (rq_pool t) = add_mset (length (rq_issued s), n) (added (rq_pool s))"
    by (simp_all add: submit(1,3))
  have "n_iteration n = 0" using submit(2) by (auto simp: request_def)
  then have "node_ok t (length (rq_issued s), n)" by (simp add: node_ok_def t(1))
  with h show ?thesis
    using node_ok_grow [OF _ t(1)] by (auto simp: history_ok_def t(2,3) list_all_iff)
next
  case (schedule w)
  with h show ?thesis using history_cong [of t s] by simp
next
  case (run_end i a wk k n r att)
  have "node_ok s (k, n)"
    using busy_added [OF ok busy_nth [OF run_end(2,3)] run_end(5)] h by (simp add: history_ok_def run_end(6))
  from sent_ok_run [OF this] show ?thesis
    by (intro history_again [OF h, where xs = "tag_sent k r"]) (simp_all add: run_end(1,7))
next
  case (run_again i a w wk k n r att u n' wp np tp)
  have n: "node_ok s (k, n)"
    using busy_added [OF ok busy_nth [OF run_again(2,3)], of wk] h run_again(5-7) by (simp add: history_ok_def)
  have "r_queued (request_t_pool L dbg att n) \<noteq> []" "r_node (request_t_pool L dbg att n) = Some n'"
    using run_again(8-10) by simp_all
  from node_ok_again [OF n this] sent_ok_run [OF n] show ?thesis
    by (intro history_again [OF h, where xs = "tag_sent k r"]) (auto simp: run_again(1,5,8))
next
  case (finish i a w wk works)
  with h show ?thesis using history_cong [of t s] by simp
qed

lemma request_step_keeps:
  assumes "request_step L dbg s t" and inv: "request_inv s"
  shows "request_inv t"
proof -
  have ok: "sys_ok (rq_pool s)" "history_ok s" using inv by (simp_all add: request_inv_def history_ok_def)
  have "sys_ok (rq_pool t)"
    using request_step_pool [OF assms(1)] ok(1) pool_step_keeps by metis
  moreover have "balanced t" if "\<not> p_stop (pool (rq_pool t))"
  proof -
    have "\<not> p_stop (pool (rq_pool s))" using request_step_pool [OF assms(1)] that step_running by metis
    then have "balanced s" using inv by (simp add: request_inv_def)
    from step_balanced [OF assms(1) ok(1) this that] show ?thesis .
  qed
  ultimately show ?thesis
    using step_history [OF assms(1) ok] by (simp add: request_inv_def history_ok_def)
qed

lemma request_reach_inv: "request_reach L dbg n usec0 s \<Longrightarrow> request_inv s"
  by (induction rule: request_reach.induct) (auto intro: request_inv_start request_step_keeps)

lemma mset_filter_partition: "mset (filter P xs) + mset (filter (\<lambda>x. \<not> P x) xs) = mset xs"
  by (induction xs) auto

section \<open>The property\<close>


definition hello_request :: request_work_node where
  "hello_request = \<lparr>n_url = ''u'', n_json = None, n_request_type = REQUEST_GET, n_token = ''t'', n_rc = None, n_bot = True,
     n_iteration = 0, n_http = 0, n_res = 0, n_files = [], n_files_live = True\<rparr>"

text \<open>One request is made, taken and answered.\<close>

lemma hello_submitted:
  "\<exists>tp. request_step small_lib False (request_start 2 0) (request_start 2 0\<lparr>rq_pool := (pool_start 2 0)\<lparr>pool := tp,
      added := {#(0, hello_request)#}\<rparr>, rq_issued := [hello_request]\<rparr>) \<and>
    pool_ok tp [(1, 1, secs 0)] \<and> p_works tp = [1 \<mapsto> \<lparr>work_fn = (0, hello_request), work_wait_until = secs 0\<rparr>] \<and>
    \<not> p_stop tp \<and> p_sleep_until tp = secs 0"
proof -
  let ?w = "pool_start 2 0 :: (nat \<times> request_work_node) pool_sys"
  have "pool_ok (pool ?w) []" using pool_ok_init by (simp add: pool_start_def)
  from add_work_ok [OF this, of 1 "secs 0" 1 "(0, hello_request)"] obtain tp where
    tp: "t_pool_add_work (pool ?w) 1 1 (0, hello_request) (secs 0) = Some tp" "p_stop tp = p_stop (pool ?w)"
      "pool_ok tp [(1, 1, secs 0)]" "p_sleep_until tp = secs 0"
      "p_works tp = (p_works (pool ?w))(1 \<mapsto> \<lparr>work_fn = (0, hello_request), work_wait_until = secs 0\<rparr>)"
    by (auto simp: push_list_def secs_def)
  have r: "request ''u'' None REQUEST_GET ''t'' True None [] = Some (hello_request, secs 0)"
    by (simp add: request_def hello_request_def strndup_def secs_def)
  have "request_step small_lib False (request_start 2 0) (request_start 2 0\<lparr>rq_pool := ?w\<lparr>pool := tp,
      added := {#(0, hello_request)#}\<rparr>, rq_issued := [hello_request]\<rparr>)"
    using request_step.submit [OF r, of ?w "request_start 2 0" 1 1 tp small_lib False] tp(1)
    by (simp add: request_start_def pool_start_def t_pool_init_def)
  then show ?thesis using tp by (auto simp: pool_start_def t_pool_init_def)
qed


end
