(* ===== verification/Option_Typing.thy ===== *)
theory Option_Typing
  imports Messages Json_Build
begin

text \<open>
  The options of an interaction carry a type and a union of values (\<open>interaction.c\<close>). Reading sets the
  member of the union that the type says, at every level, and copying keeps the member; the second
  tag, \<open>value_type\<close>, never says anything but that the value is a string.
\<close>

definition value_typed :: "int \<Rightarrow> option_value \<Rightarrow> bool" where
  "value_typed ty v =
     (case v of V_String _ \<Rightarrow> ty = 3 | V_Int _ \<Rightarrow> ty = 4 | V_Double _ \<Rightarrow> ty = 10 | V_Zero \<Rightarrow> ty \<notin> {3, 4, 10})"

inductive option_typed :: "discord_data_option ptr \<Rightarrow> bool" where
  "option_typed Nul"
| "value_typed (do_type x) (do_value x) \<Longrightarrow> do_value_type x = 0 \<Longrightarrow> list_all option_typed (elems options1) \<Longrightarrow>
   option_typed (Ptr b (Data_Option x options1))"

inductive_simps option_typed_simps [simp]:
  "option_typed Nul" "option_typed (Ptr b (Data_Option x options1))"

section \<open>Arrays of typed structures\<close>

text \<open>Every result of a computation, from any memory.\<close>

definition yields :: "(mem, 'a) state \<Rightarrow> ('a \<Rightarrow> bool) \<Rightarrow> bool" where
  "yields c P \<longleftrightarrow> (\<forall>m. P (fst (run_state c m)))"

lemma yields_return: "P v \<Longrightarrow> yields (State_Monad.return v) P"
  by (simp add: yields_def)

lemma yields_bind: "yields c Q \<Longrightarrow> (\<And>v. Q v \<Longrightarrow> yields (f v) P) \<Longrightarrow> yields (State_Monad.bind c f) P"
  by (simp add: yields_def split_beta)

lemma yields_any: "yields c (\<lambda>_. True)"
  by (simp add: yields_def)

lemma yields_traverse: "(\<And>x. x \<in> set xs \<Longrightarrow> yields (f x) P) \<Longrightarrow> yields (State_Monad.traverse_list f xs) (list_all P)"
proof (induction xs)
  case (Cons x xs)
  then have "yields (f x) P" "yields (State_Monad.traverse_list f xs) (list_all P)" by simp_all
  then show ?case by (simp add: yields_def split_beta)
qed (simp add: yields_def)

lemma yields_read_array:
  assumes "\<And>d. yields (rd d) P"
  shows "yields (get_array_from_json J data name rd) (\<lambda>q. list_all P (elems q))"
proof -
  let ?items = "json_items J (get_object_item J data name)"
  have "yields (State_Monad.traverse_list (\<lambda>j. rd (Some j)) ?items) (list_all P)"
    using assms by (intro yields_traverse) simp
  then show ?thesis by (simp add: get_array_from_json_def Let_def yields_def split_beta elems_def)
qed

lemma yields_copy_array:
  assumes "\<And>x. x \<in> set (elems p) \<Longrightarrow> yields (cp x) P"
  shows "yields (copy_array cp p) (\<lambda>q. list_all P (elems q))"
proof (cases p)
  case (Ptr b xs)
  then have "yields (State_Monad.traverse_list cp xs) (list_all P)"
    using assms by (intro yields_traverse) (simp add: elems_def)
  then show ?thesis using Ptr by (simp add: copy_array_def yields_def split_beta elems_def)
qed (simp add: copy_array_def yields_def elems_def)

section \<open>Reading and copying\<close>

lemma read_option_typed: "yields (json_to_data_option J k data) option_typed"
proof (induction k arbitrary: data)
  case (Suc k)
  note options = yields_read_array [OF Suc.IH, of J data "''options''"]
  then show ?case
    by (simp add: yields_def split_beta value_typed_def Let_def)
qed (simp add: yields_return)

lemma copy_option_typed: "option_typed p \<Longrightarrow> yields (copy_data_option p) option_typed"
proof (induction rule: option_typed.induct)
  case (2 x options1 b)
  have "yields (copy_option_value (do_value_type x) (do_value x)) (value_typed (do_type x))"
    using 2(1) by (cases "do_value x") (auto simp: copy_option_value_def yields_def split_beta value_typed_def)
  moreover have "yields (copy_array copy_data_option options1) (\<lambda>q. list_all option_typed (elems q))"
    by (rule yields_copy_array) (use 2(3) in \<open>auto simp: list_all_iff\<close>)
  ultimately show ?case using 2(2)
    by (simp add: yields_def split_beta)
qed (simp add: yields_return)

section \<open>The data of an interaction\<close>

definition data_typed :: "discord_interaction_data ptr \<Rightarrow> bool" where
  "data_typed p = (case p of Nul \<Rightarrow> True | Ptr _ d \<Rightarrow> list_all option_typed (elems (id_options d)))"

lemma read_data_typed: "yields (json_to_interaction_data J k data) data_typed"
  unfolding json_to_interaction_data_def
  by (intro yields_bind [OF yields_any] yields_bind [OF yields_read_array [OF read_option_typed]])
    (auto simp: data_typed_def intro!: yields_return yields_bind [OF yields_any])

lemma copy_data_typed: "data_typed p \<Longrightarrow> yields (copy_interaction_data p) data_typed"
proof (cases p)
  case (Ptr b d)
  assume "data_typed p"
  then have "yields (copy_array copy_data_option (id_options d)) (\<lambda>q. list_all option_typed (elems q))"
    by (intro yields_copy_array copy_option_typed) (simp add: Ptr data_typed_def list_all_iff)
  then show ?thesis unfolding copy_interaction_data_def Ptr ptr.case
    by (intro yields_bind [OF yields_any] yields_bind
        [where c = "copy_array copy_data_option (id_options d)" and Q = "\<lambda>q. list_all option_typed (elems q)"])
      (auto simp: data_typed_def intro!: yields_return yields_bind [OF yields_any])
qed (simp add: copy_interaction_data_def yields_return data_typed_def)


definition typed_json :: jval where
  "typed_json = JObj [(''options'', JArr
     [JObj [(''name'', JStr ''text''), (''type'', JNum 3), (''value'', JStr ''hi'')],
      JObj [(''name'', JStr ''n''), (''type'', JNum 4), (''value'', JNum 7)]])]"

definition start_mem :: mem where
  "start_mem = \<lparr>next_blk = 1, freed = [], bad = False\<rparr>"

fun option_values :: "discord_interaction_data ptr \<Rightarrow> (int \<times> option_value) list" where
  "option_values Nul = []"
| "option_values (Ptr _ d) =
     map (\<lambda>p. case p of Ptr _ (Data_Option x _) \<Rightarrow> (do_type x, do_value x) | Nul \<Rightarrow> (0, V_Zero)) (elems (id_options d))"


end
