(* ===== verification/Cache_Delete.thy ===== *)
theory Cache_Delete
  imports Event_Safety
begin

text \<open>
  Deleting from the message cache while the bot runs (\<open>discord_cache_delete_message\<close> of \<open>cache.c\<close>): what
  happens to the memory of the message, together with the queue and the map of the cache.
\<close>

lemma cached_blocks_drop:
  assumes "distinct (map e_id xs)" and "x \<in> set xs"
  shows "mset (cached_blocks s xs) = mset (cached_blocks s (drop_id (e_id x) xs)) + mset (message_blocks (ev_message s (e_cont x)))"
  using assms
proof (induction xs)
  case (Cons y ys)
  show ?case
  proof (cases "y = x")
    case True
    then have "drop_id (e_id x) (y # ys) = ys" using Cons.prems(1) drop_id_hd by blast
    then show ?thesis using True by (simp add: cached_blocks_def)
  next
    case False
    then have "x \<in> set ys" "e_id y \<noteq> e_id x" using Cons.prems by auto
    then have "drop_id (e_id x) (y # ys) = y # drop_id (e_id x) ys" by (simp add: drop_id_def)
    then show ?thesis using Cons.IH Cons.prems(1) \<open>x \<in> set ys\<close> by (simp add: cached_blocks_def)
  qed
qed simp



end
