(* ===== verification/Request_Memory.thy ===== *)
theory Request_Memory
  imports Request_Pool
begin

text \<open>
  The memory of a request (\<open>request\<close> and \<open>request_t_pool\<close> of \<open>request.c\<close>, and what the callers in
  \<open>message.c\<close> hand over): the node with its strings, the callback, the names of the files, and in each
  run the headers, the form, the answer and its JSON. A list of libcurl, a form and a JSON document
  count as one block each. The messages that the callbacks read are not part of it.
\<close>

section \<open>The code\<close>

record node_blocks =
  nb_node :: nat
  nb_url :: nat
  nb_json :: "unit ptr"
  nb_token :: nat
  nb_rc :: "unit ptr"
  nb_files :: "nat list ptr"

definition new_ptr :: "bool \<Rightarrow> (mem, unit ptr) state" where
  "new_ptr c = (if c then do { b \<leftarrow> fresh_blk; State_Monad.return (Ptr b ()) } else State_Monad.return Nul)"

definition new_blocks :: "'a list \<Rightarrow> (mem, nat list) state" where
  "new_blocks xs = State_Monad.traverse_list (\<lambda>_. fresh_blk) xs"

text \<open>The loop \<open>for (...) free(arr[i]); free(arr)\<close>.\<close>

definition free_blocks :: "nat list ptr \<Rightarrow> (mem, unit) state" where
  "free_blocks p =
     (case p of Nul \<Rightarrow> State_Monad.return () | Ptr b xs \<Rightarrow> do { _ \<leftarrow> each free_blk xs; free_blk b })"

text \<open>What \<open>discord_channel_send_message\<close> allocates for the request: the callback and the file names.\<close>

definition caller_blocks :: "request_work_node \<Rightarrow> (mem, unit ptr \<times> nat list ptr) state" where
  "caller_blocks n = do {
     rc \<leftarrow> new_ptr (n_rc n \<noteq> None);
     filenames \<leftarrow> (if n_files n = [] then State_Monad.return Nul
       else do { b \<leftarrow> fresh_blk; names \<leftarrow> new_blocks (n_files n); State_Monad.return (Ptr b names) });
     State_Monad.return (rc, filenames) }"

text \<open>\<open>request\<close>.\<close>

definition request_blocks :: "request_work_node \<Rightarrow> unit ptr \<Rightarrow> nat list ptr \<Rightarrow> (mem, node_blocks) state" where
  "request_blocks n rc files = do {
     b \<leftarrow> fresh_blk;
     url \<leftarrow> fresh_blk;
     json \<leftarrow> new_ptr (n_json n \<noteq> None);
     token \<leftarrow> fresh_blk;
     State_Monad.return \<lparr>nb_node = b, nb_url = url, nb_json = json, nb_token = token, nb_rc = rc, nb_files = files\<rparr> }"

text \<open>
  The headers: \<open>list\<close> and \<open>attachments_l\<close> as \<open>request_t_pool\<close> has them after the set-up.
  \<open>d_curl_setup_discord_header_files\<close> gets \<open>list\<close>, \<open>content_l\<close> and \<open>mime\<close> by value, so what it assigns
  to them is lost.
\<close>

definition header_blocks :: "request_work_node \<Rightarrow> (mem, unit ptr \<times> nat list ptr) state" where
  "header_blocks n =
     (if n_files n = [] then do { list \<leftarrow> new_ptr True; State_Monad.return (list, Nul) }
      else do {
        attachments_l \<leftarrow> fresh_blk;
        list \<leftarrow> fresh_blk;
        mime \<leftarrow> fresh_blk;
        content_l \<leftarrow> fresh_blk;
        lists \<leftarrow> new_blocks (n_files n);
        State_Monad.return (Nul, Ptr attachments_l lists) })"

definition run_sends :: "'j json_lib \<Rightarrow> bool \<Rightarrow> attempt \<Rightarrow> request_work_node \<Rightarrow> bool" where
  "run_sends L dbg a n \<longleftrightarrow> 5 \<le> n_iteration n \<or>
     fst (handle_http L dbg a (fold write_data (a_pieces a) None) (n\<lparr>n_res := a_res a, n_http := a_http a\<rparr>))"

text \<open>\<open>request_t_pool\<close>. The answer grows by \<open>realloc\<close>: it is one block from the first piece on.\<close>

definition run_memory :: "'j json_lib \<Rightarrow> bool \<Rightarrow> attempt \<Rightarrow> request_work_node \<Rightarrow> node_blocks \<Rightarrow> (mem, unit) state" where
  "run_memory L dbg a n nb = do {
     (list, attachments_l) \<leftarrow> header_blocks n;
     response \<leftarrow> new_ptr (n_iteration n < 5 \<and> a_pieces a \<noteq> []);
     limit_json \<leftarrow> new_ptr (n_iteration n < 5 \<and> a_http a = 429 \<and> response_json L a \<noteq> None);
     _ \<leftarrow> free_ptr limit_json;
     _ \<leftarrow> free_ptr list;
     _ \<leftarrow> free_blocks attachments_l;
     _ \<leftarrow> free_blocks (nb_files nb);
     if \<not> run_sends L dbg a n then State_Monad.return ()
     else do {
       res_json \<leftarrow> new_ptr (response \<noteq> Nul \<and> response_json L a \<noteq> None);
       _ \<leftarrow> free_ptr response;
       message_array \<leftarrow> new_ptr (n_rc n = Some DISCORD_MULTIPLE_MESSAGE_CALLBACK \<and>
         is_array L (if response = Nul then None else response_json L a));
       _ \<leftarrow> free_ptr (nb_rc nb);
       _ \<leftarrow> free_ptr res_json;
       _ \<leftarrow> free_ptr (nb_json nb);
       _ \<leftarrow> free_blk (nb_url nb);
       _ \<leftarrow> free_blk (nb_token nb);
       free_blk (nb_node nb) } }"

text \<open>The runs of \<open>request_runs\<close>.\<close>

fun runs_memory :: "'j json_lib \<Rightarrow> bool \<Rightarrow> attempt list \<Rightarrow> request_work_node \<Rightarrow> node_blocks \<Rightarrow> (mem, unit) state" where
  "runs_memory L dbg [] n nb = State_Monad.return ()"
| "runs_memory L dbg (a # as) n nb = do {
     _ \<leftarrow> run_memory L dbg a n nb;
     let r = request_t_pool L dbg a n;
     (case (r_node r, r_queued r) of
        (Some n', _ # _) \<Rightarrow> runs_memory L dbg as n' nb
      | _ \<Rightarrow> State_Monad.return ()) }"

definition request_memory :: "'j json_lib \<Rightarrow> bool \<Rightarrow> attempt list \<Rightarrow> request_work_node \<Rightarrow> (mem, unit) state" where
  "request_memory L dbg as n = do {
     (rc, filenames) \<leftarrow> caller_blocks n;
     nb \<leftarrow> request_blocks n rc filenames;
     runs_memory L dbg as n nb }"

section \<open>What is lost\<close>

text \<open>
  The blocks that the runs of a request without files lose: the answer of each run that does not
  finish the request, and the array that the messages are handed over in.
\<close>

fun lost_blocks :: "'j json_lib \<Rightarrow> bool \<Rightarrow> attempt list \<Rightarrow> request_work_node \<Rightarrow> nat" where
  "lost_blocks L dbg [] n = 0"
| "lost_blocks L dbg (a # as) n =
     (let r = request_t_pool L dbg a n
      in case r_node r of
           None \<Rightarrow>
             (if n_rc n = Some DISCORD_MULTIPLE_MESSAGE_CALLBACK \<and>
                 is_array L (if 5 \<le> n_iteration n then None else response_json L a) then 1 else 0)
         | Some n' \<Rightarrow>
             (if a_pieces a = [] then 0 else 1) + (if r_queued r = [] then 0 else lost_blocks L dbg as n'))"

definition node_size :: "request_work_node \<Rightarrow> nat" where
  "node_size n = 3 + (if n_json n = None then 0 else 1) + (if n_rc n = None then 0 else 1)"

definition nb_blocks :: "node_blocks \<Rightarrow> nat list" where
  "nb_blocks nb = nb_node nb # nb_url nb # nb_token nb # blk_of (nb_json nb) @ blk_of (nb_rc nb)"

lemma does_new_ptr [does_intros]:
  assumes "\<And>q. (q = Nul \<longleftrightarrow> \<not> c) \<Longrightarrow> P q (blk_of q) []"
  shows "does (new_ptr c) P"
proof (cases c)
  case True
  then have "P (Ptr b ()) [b] []" for b using assms [of "Ptr b ()"] by simp
  then show ?thesis using True by (auto simp: new_ptr_def intro!: does_intros)
qed (use assms [of Nul] in \<open>auto simp: new_ptr_def intro!: does_intros\<close>)

lemma length_blk_of: "length (blk_of q) = (if q = Nul then 0 else 1)"
  by (cases q) simp_all

lemma run_sends_node: "run_sends L dbg a n \<longleftrightarrow> r_node (request_t_pool L dbg a n) = None"
  by (simp add: run_sends_def request_t_pool_def Let_def case_prod_unfold)

lemma no_answer: "response_json L a \<noteq> None \<Longrightarrow> a_pieces a \<noteq> []"
  by (auto simp: response_json_pieces)

text \<open>An array of blocks: the array and what its elements point to.\<close>

definition held_blocks :: "nat list ptr \<Rightarrow> nat list" where
  "held_blocks p = (case p of Nul \<Rightarrow> [] | Ptr b xs \<Rightarrow> b # xs)"

lemma held_blocks_simps [simp]: "held_blocks Nul = []" "held_blocks (Ptr b xs) = b # xs"
  by (simp_all add: held_blocks_def)

lemma does_new_blocks: "(\<And>ys bs. mset bs = mset ys \<Longrightarrow> P ys bs []) \<Longrightarrow> does (new_blocks xs) P"
  unfolding new_blocks_def
  by (rule does_weaken [OF does_traverse [where B = "\<lambda>b. [b]" and Q = "\<lambda>_ _. True"]]) (auto intro!: does_intros)

lemma does_free_blocks: "(\<And>fs. mset fs = mset (held_blocks p) \<Longrightarrow> P () [] fs) \<Longrightarrow> does (free_blocks p) P"
proof -
  assume P: "\<And>fs. mset fs = mset (held_blocks p) \<Longrightarrow> P () [] fs"
  have e: "does (each free_blk xs) Q" if "\<And>fs. mset fs = mset xs \<Longrightarrow> Q () [] fs" for xs Q
    by (rule does_weaken [OF does_each [where B = "\<lambda>b. [b]"]]) (use that in \<open>auto intro!: does_intros\<close>)
  show ?thesis
    unfolding free_blocks_def
    by (cases p) (auto intro!: does_intros e P)
qed

text \<open>Three of the blocks of the set-up with files are lost at once.\<close>

lemma does_headers:
  assumes P: "\<And>list att bs ls. mset bs = mset (blk_of list) + mset (held_blocks att) + mset ls \<Longrightarrow>
    length ls = (if n_files n = [] then 0 else 3) \<Longrightarrow> P (list, att) bs []"
  shows "does (header_blocks n) P"
proof (cases "n_files n = []")
  case True
  then show ?thesis
    unfolding header_blocks_def if_P [OF True]
    apply (intro does_intros)
    subgoal for list using P [of "blk_of list" list Nul "[]"] True by simp
    done
next
  case False
  show ?thesis
    unfolding header_blocks_def if_not_P [OF False]
    apply (intro does_intros does_new_blocks)
    subgoal for attachments list mime content lists bs
      using P [of "attachments # list # mime # content # bs" Nul "Ptr attachments lists" "[list, mime, content]"] False by simp
    done
qed

text \<open>One run: what it takes, and what it is given, is freed or among the lost blocks.\<close>

lemma run_memory_does:
  "does (run_memory L dbg a n nb) (\<lambda>_ bs fs. \<exists>ls. mset bs + mset (held_blocks (nb_files nb)) +
      (if run_sends L dbg a n then mset (nb_blocks nb) else {#}) = mset fs + mset ls \<and>
    length ls = lost_blocks L dbg [a] n + (if n_files n = [] then 0 else 3))"
proof -
  let ?array = "n_rc n = Some DISCORD_MULTIPLE_MESSAGE_CALLBACK \<and> is_array L (if 5 \<le> n_iteration n then None else response_json L a)"
  have lost: "lost_blocks L dbg [a] n = (if run_sends L dbg a n then (if ?array then 1 else 0) else (if a_pieces a = [] then 0 else 1))"
    by (auto simp: run_sends_node Let_def split: option.split)
  have it: "n_iteration n < 5" if "\<not> run_sends L dbg a n" using that by (simp add: run_sends_def)
  have none: "response_json L a = None" if "a_pieces a = []" using that no_answer by blast
  show ?thesis
    unfolding run_memory_def lost
    apply (rule does_bind, rule does_headers)
    apply (simp only: prod.case)
    apply (intro does_intros does_if does_free_blocks)
    subgoal for list att bs ls response limit
      by (rule exI [of _ "blk_of response @ ls"]) (use it in \<open>simp add: length_blk_of ac_simps\<close>)
    subgoal for list att bs ls response limit fs fs' json array
      by (rule exI [of _ "blk_of array @ ls"]) (use none in \<open>auto simp: nb_blocks_def length_blk_of ac_simps\<close>)
    done
qed

lemma lost_blocks_step: "lost_blocks L dbg (a # as) n = lost_blocks L dbg [a] n +
    (case (r_node (request_t_pool L dbg a n), r_queued (request_t_pool L dbg a n)) of
       (Some n', _ # _) \<Rightarrow> lost_blocks L dbg as n' | _ \<Rightarrow> 0)"
  by (auto simp: Let_def split: option.split list.split)

lemma runs_memory_does:
  assumes "nb_files nb = Nul"
  shows "n_files n = [] \<Longrightarrow> does (runs_memory L dbg as n nb) (\<lambda>_ bs fs. \<exists>ls.
    mset bs + (if r_node (request_runs L dbg as n) = None then mset (nb_blocks nb) else {#}) = mset fs + mset ls \<and>
    length ls = lost_blocks L dbg as n)"
proof (induction as arbitrary: n)
  case Nil
  show ?case by (auto intro!: does_intros)
next
  case (Cons a as)
  let ?r = "request_t_pool L dbg a n"
  have one: "does (run_memory L dbg a n nb) (\<lambda>_ bs fs. \<exists>ls.
      mset bs + (if run_sends L dbg a n then mset (nb_blocks nb) else {#}) = mset fs + mset ls \<and>
      length ls = lost_blocks L dbg [a] n)"
    using run_memory_does [of L dbg a n nb] Cons.prems by (simp add: assms)
  show ?case
  proof (cases "\<exists>n' t q. r_node ?r = Some n' \<and> r_queued ?r = t # q")
    case True
    then obtain n' t q where r: "r_node ?r = Some n'" "r_queued ?r = t # q" by blast
    have ih: "does (runs_memory L dbg as n' nb) (\<lambda>_ bs fs. \<exists>ls.
        mset bs + (if r_node (request_runs L dbg as n') = None then mset (nb_blocks nb) else {#}) = mset fs + mset ls \<and>
        length ls = lost_blocks L dbg as n')"
      by (rule Cons.IH) (use run_queued [of L dbg a n n'] r Cons.prems in \<open>simp add: same_request_def\<close>)
    have r': "r_node (request_runs L dbg (a # as) n) = r_node (request_runs L dbg as n')" by (simp add: r Let_def)
    have l: "lost_blocks L dbg (a # as) n = lost_blocks L dbg [a] n + lost_blocks L dbg as n'"
      unfolding lost_blocks_step [of L dbg a as] by (simp add: r)
    show ?thesis
      unfolding r' l runs_memory.simps Let_def r prod.case option.case list.case
    proof (rule does_seq [OF one], rule does_weaken [OF ih], elim exE conjE)
      fix bs fs ls bs' fs' ls'
      assume "mset bs + (if run_sends L dbg a n then mset (nb_blocks nb) else {#}) = mset fs + mset ls"
        "length ls = lost_blocks L dbg [a] n" "length ls' = lost_blocks L dbg as n'"
        "mset bs' + (if r_node (request_runs L dbg as n') = None then mset (nb_blocks nb) else {#}) = mset fs' + mset ls'"
      then show "\<exists>ks. mset (bs @ bs') + (if r_node (request_runs L dbg as n') = None then mset (nb_blocks nb) else {#}) =
          mset (fs @ fs') + mset ks \<and> length ks = lost_blocks L dbg [a] n + lost_blocks L dbg as n'"
        using r(1) by (intro exI [of _ "ls @ ls'"]) (simp add: run_sends_node ac_simps)
    qed
  next
    case False
    have r': "request_runs L dbg (a # as) n = ?r" using False by (auto simp: Let_def split: option.split list.split)
    have "runs_memory L dbg (a # as) n nb = run_memory L dbg a n nb"
      using False by (auto simp: Let_def split: option.split list.split)
    moreover have "lost_blocks L dbg (a # as) n = lost_blocks L dbg [a] n"
      using False unfolding lost_blocks_step [of L dbg a as] by (auto split: option.split list.split)
    ultimately show ?thesis using one unfolding r' run_sends_node by simp
  qed
qed

section \<open>What a request costs\<close>

text \<open>The number of blocks lost in the set-up of the headers.\<close>

definition lost_headers :: "request_work_node \<Rightarrow> nat" where
  "lost_headers n = (if n_files n = [] then 0 else 3)"

lemma does_caller_blocks:
  assumes "\<And>rc files bs. (rc = Nul \<longleftrightarrow> n_rc n = None) \<Longrightarrow> (files = Nul \<longleftrightarrow> n_files n = []) \<Longrightarrow>
    mset bs = mset (blk_of rc) + mset (held_blocks files) \<Longrightarrow> P (rc, files) bs []"
  shows "does (caller_blocks n) P"
proof (cases "n_files n = []")
  case True
  show ?thesis
    unfolding caller_blocks_def if_P [OF True] State_Monad.bind_left_identity
    by (intro does_intros) (use assms [of _ Nul] True in simp)
next
  case False
  show ?thesis
    unfolding caller_blocks_def if_not_P [OF False]
    by (intro does_intros does_new_blocks) (use assms False in simp)
qed

lemma runs_memory_total:
  assumes "n_files n = [] \<and> nb_files nb = Nul \<or> length as = 1"
  shows "does (runs_memory L dbg as n nb) (\<lambda>_ bs fs. \<exists>ls. mset bs + mset (held_blocks (nb_files nb)) +
      (if r_node (request_runs L dbg as n) = None then mset (nb_blocks nb) else {#}) = mset fs + mset ls \<and>
    length ls = lost_blocks L dbg as n + lost_headers n)"
proof (cases "n_files n = [] \<and> nb_files nb = Nul")
  case True
  then show ?thesis using runs_memory_does [of nb n L dbg as] by (simp add: lost_headers_def)
next
  case False
  then obtain a where a: "as = [a]" using assms by (cases as) auto
  have "runs_memory L dbg [a] n nb = run_memory L dbg a n nb"
    "r_node (request_runs L dbg [a] n) = None \<longleftrightarrow> run_sends L dbg a n"
    by (auto simp: Let_def run_sends_node split: option.split list.split)
  then show ?thesis using run_memory_does [of L dbg a n nb] unfolding a lost_headers_def by simp
qed

lemma request_memory_does:
  assumes "n_files n = [] \<or> length as = 1"
  shows "does (request_memory L dbg as n) (\<lambda>_ bs fs. \<exists>ls. mset bs = mset fs + mset ls \<and>
    length ls = lost_blocks L dbg as n + lost_headers n +
      (if r_node (request_runs L dbg as n) = None then 0 else node_size n))"
proof -
  let ?done = "r_node (request_runs L dbg as n) = None"
  have runs: "does (runs_memory L dbg as n nb) P"
    if "nb_files nb = Nul \<longleftrightarrow> n_files n = []" and "\<And>bs fs ls. mset bs + mset (held_blocks (nb_files nb)) +
        (if ?done then mset (nb_blocks nb) else {#}) = mset fs + mset ls \<Longrightarrow>
      length ls = lost_blocks L dbg as n + lost_headers n \<Longrightarrow> P () bs fs" for nb P
    by (rule does_weaken [OF runs_memory_total]) (use that assms in auto)
  show ?thesis
    unfolding request_memory_def request_blocks_def
    apply (rule does_bind, rule does_caller_blocks)
    apply (simp only: prod.case State_Monad.bind_assoc State_Monad.bind_left_identity)
    apply (intro does_intros runs, simp)
    subgoal for rc files cs node url json token bs fs ls
      by (rule exI [of _ "ls @ (if ?done then [] else nb_blocks \<lparr>nb_node = node, nb_url = url, nb_json = json, nb_token = token,
          nb_rc = rc, nb_files = files\<rparr>)"])
        (cases "r_node (request_runs L dbg as n)"; simp add: nb_blocks_def node_size_def length_blk_of ac_simps)
    done
qed



end
