(* ===== verification/Message_Fetch.thy ===== *)
theory Message_Fetch
  imports Event_Safety Request
begin

text \<open>
  Messages that arrive as the answer to a request (the callbacks at the end of \<open>request_t_pool\<close> of
  \<open>request.c\<close>) over the memory and the caches of the bot: a single message goes to the callback of
  the application, several go to the message cache first. A message that the cache pushes out is
  destroyed, also when it is one of those just fetched.
\<close>

section \<open>The code\<close>

text \<open>What the callback of the application is called with.\<close>

datatype fetched = Got_Message "discord_message ptr" | Got_Messages "discord_message ptr list"

text \<open>The loop over the received array. The array that collects the pointers is the result.\<close>

fun fetch_messages :: "'m hashmap_api \<Rightarrow> 'j cjson \<Rightarrow> 'j list \<Rightarrow> ('m bot_state, discord_message ptr list) state" where
  "fetch_messages H J [] = State_Monad.return []"
| "fetch_messages H J (c_message # cs) = do {
     msg \<leftarrow> in_memory (json_to_message J nesting_limit (Some c_message));
     _ \<leftarrow> (if msg \<noteq> Nul then discord_cache_set_message H msg else State_Monad.return ());
     rest \<leftarrow> fetch_messages H J cs;
     State_Monad.return (msg # rest) }"

text \<open>
  The array has room for no element: writing into it is the fault \<open>Heap_Overflow\<close> of \<open>finish_calls\<close>,
  after which the code goes on here as if there were room.
\<close>

definition finish_callback ::
  "'m hashmap_api \<Rightarrow> 'j json_lib \<Rightarrow> request_callback option \<Rightarrow> 'j option \<Rightarrow> ('m bot_state, fetched list) state" where
  "finish_callback H L rc res_json =
     (case rc of
        None \<Rightarrow> State_Monad.return []
      | Some DISCORD_MESSAGE_CALLBACK \<Rightarrow> do {
          msg \<leftarrow> in_memory (json_to_message (access L) nesting_limit res_json);
          State_Monad.return [Got_Message msg] }
      | Some DISCORD_MULTIPLE_MESSAGE_CALLBACK \<Rightarrow>
          if \<not> is_array L res_json then State_Monad.return [Got_Messages []]
          else do {
            message_array \<leftarrow> in_memory fresh_blk;
            ms \<leftarrow> fetch_messages H (access L) (json_items (access L) res_json);
            State_Monad.return [Got_Messages ms] })"

text \<open>A single message, also a fetched one, is handed over and not put into the cache.\<close>

lemma single_message_not_cached:
  "ev_caches (snd (run_state (finish_callback H L (Some DISCORD_MESSAGE_CALLBACK) res_json) s)) = ev_caches s"
  by (simp add: finish_callback_def in_memory_def split_beta State_Monad.return_def)

section \<open>What destroying a message frees for certain\<close>

lemma leak_subset:
  assumes "does c (\<lambda>_ bs fs. bs = [] \<and> mset fs + L = B)"
  shows "L \<subseteq># B"
proof -
  obtain m :: mem where True by simp
  from assms obtain fs where "mset fs + L = B" by (rule doesE [of _ _ m]) blast
  then show ?thesis by auto
qed

lemma components_inner_subset:
  assumes "arr_ok component_ok p"
  shows "mset (arr_inner component_inner p) \<subseteq># mset (arr_blocks component_blocks p)"
proof (cases p)
  case (Ptr b xs)
  have "\<forall>x \<in> set xs. component_ok x" using assms Ptr by (simp add: arr_ok_def)
  then have "mset (concat (map component_inner xs)) \<subseteq># mset (concat (map component_blocks xs))"
    by (induction xs) (simp_all add: subset_mset.add_mono leak_subset [OF component_destroy_does])
  then obtain C where "mset (concat (map component_blocks xs)) = mset (concat (map component_inner xs)) + C"
    unfolding mset_subset_eq_exists_conv by blast
  then show ?thesis using Ptr by (simp add: arr_inner_def arr_blocks_def)
qed (simp add: arr_inner_def)

text \<open>The block of the message itself is among them.\<close>

lemma message_leaks_rest:
  assumes ok: "message_ok p" "p \<noteq> Nul"
  obtains C where "mset (message_blocks p) = add_mset (blk p) (mset (message_leaks p) + C)"
proof -
  obtain b x r i where p: "p = Ptr b (Message x r i)" using ok(2) by (metis discord_message.exhaust ptr.exhaust)
  let ?L = "arr_inner component_inner (ms_components x)"
  have "mset ?L \<subseteq># mset (arr_blocks component_blocks (ms_components x))"
    by (rule components_inner_subset) (use ok(1) p in \<open>simp add: message_fields_ok_def\<close>)
  then have own: "mset ?L \<subseteq># mset (message_own_blocks x)"
    by (rule subset_mset.order_trans) (simp add: message_own_blocks_def ac_simps)
  have "mset (interaction_leaks i) \<subseteq># mset (interaction_blocks i)"
    by (rule leak_subset [OF message_destroy_does(2)]) (use ok(1) p in simp)
  with own have "mset (message_leaks p) \<subseteq># mset (message_own_blocks x @ message_blocks r @ interaction_blocks i)"
    unfolding p by (simp add: subset_mset.add_mono)
  then obtain C where C: "mset (message_own_blocks x @ message_blocks r @ interaction_blocks i) = mset (message_leaks p) + C"
    unfolding mset_subset_eq_exists_conv by blast
  show thesis by (rule that [of C]) (use C in \<open>simp add: p\<close>)
qed

lemma own_blocks_freed:
  "mset fs + mset (concat (map message_leaks ps)) = mset (concat (map message_blocks ps)) \<Longrightarrow>
   \<forall>p \<in> set ps. message_ok p \<and> p \<noteq> Nul \<Longrightarrow> q \<in> set ps \<Longrightarrow> blk q \<in> set fs"
proof -
  assume fs: "mset fs + mset (concat (map message_leaks ps)) = mset (concat (map message_blocks ps))"
    and ok: "\<forall>p \<in> set ps. message_ok p \<and> p \<noteq> Nul" and q: "q \<in> set ps"
  from ok have "\<exists>C. mset (concat (map message_blocks ps)) = mset (map blk ps) + mset (concat (map message_leaks ps)) + C"
  proof (induction ps)
    case (Cons p ps)
    then obtain C where C: "mset (concat (map message_blocks ps)) =
        mset (map blk ps) + mset (concat (map message_leaks ps)) + C" by auto
    obtain D where "mset (message_blocks p) = add_mset (blk p) (mset (message_leaks p) + D)"
      using message_leaks_rest Cons.prems by (metis list.set_intros(1))
    with C show ?case by (intro exI [of _ "C + D"]) (simp add: ac_simps)
  qed simp
  then obtain C where "mset fs = mset (map blk ps) + C"
    using fs by (metis (no_types, lifting) add.assoc add.commute add_right_cancel)
  with q show "blk q \<in> set fs" by (metis image_eqI in_multiset_in_set list.set_map set_mset_mset union_iff)
qed

section \<open>Destroying allocates nothing\<close>

text \<open>Whatever it is given, a destructor takes no block.\<close>

definition no_alloc :: "(mem, 'a) state \<Rightarrow> bool" where
  "no_alloc c \<longleftrightarrow> (\<forall>m. next_blk (snd (run_state c m)) = next_blk m)"

named_theorems no_alloc_intros \<open>computations that take no block\<close>

lemma no_alloc_return [no_alloc_intros]: "no_alloc (State_Monad.return y)"
  and no_alloc_free [no_alloc_intros]: "no_alloc (free_blk b)"
  and no_alloc_fault [no_alloc_intros]: "no_alloc fault"
  by (simp_all add: no_alloc_def free_blk_def fault_def)

lemma no_alloc_bind [no_alloc_intros]: "no_alloc c \<Longrightarrow> (\<And>y. no_alloc (f y)) \<Longrightarrow> no_alloc (State_Monad.bind c f)"
  by (simp add: no_alloc_def case_prod_unfold)

lemma no_alloc_if [no_alloc_intros]: "(b \<Longrightarrow> no_alloc c) \<Longrightarrow> (\<not> b \<Longrightarrow> no_alloc d) \<Longrightarrow> no_alloc (if b then c else d)"
  by simp

lemma no_alloc_ptr [no_alloc_intros]: "no_alloc c \<Longrightarrow> (\<And>b x. p = Ptr b x \<Longrightarrow> no_alloc (f b x)) \<Longrightarrow> no_alloc (case_ptr c f p)"
  by (cases p) simp_all

lemma no_alloc_free_ptr [no_alloc_intros]: "no_alloc (free_ptr p)"
  unfolding free_ptr_def by (intro no_alloc_intros)

lemma no_alloc_when [no_alloc_intros]: "(\<And>b x. p = Ptr b x \<Longrightarrow> no_alloc (f p)) \<Longrightarrow> no_alloc (when_ptr f p)"
  unfolding when_ptr_def by (intro no_alloc_intros)

lemma no_alloc_each: "(\<And>x. x \<in> set xs \<Longrightarrow> no_alloc (f x)) \<Longrightarrow> no_alloc (each f xs)"
  by (induction xs) (simp_all add: no_alloc_intros)

lemma no_alloc_array [no_alloc_intros]:
  "(\<And>b xs x. p = Ptr b xs \<Longrightarrow> x \<in> set xs \<Longrightarrow> no_alloc (f x)) \<Longrightarrow> no_alloc (destroy_array f p)"
  unfolding destroy_array_def by (intro no_alloc_intros no_alloc_each) blast

lemma no_alloc_stubs [no_alloc_intros]:
  "no_alloc (destroy_emoji a)" "no_alloc (destroy_reaction b)" "no_alloc (destroy_sticker c)"
  "no_alloc (destroy_sticker_item d)" "no_alloc (destroy_overwrite e)" "no_alloc (destroy_message_activity f)"
  "no_alloc (destroy_application g)"
  unfolding stub_defs by (intro no_alloc_intros)+

lemma no_alloc_user [no_alloc_intros]: "no_alloc (destroy_user p)"
  unfolding destroy_user_def by (intro no_alloc_intros)

lemma no_alloc_flat [no_alloc_intros]:
  "no_alloc (destroy_attachment a)" "no_alloc (destroy_embed_footer b)" "no_alloc (destroy_embed_media c)"
  "no_alloc (destroy_embed_provider d)" "no_alloc (destroy_embed_author e)" "no_alloc (destroy_embed_field f)"
  "no_alloc (destroy_member g)" "no_alloc (destroy_select_option h)" "no_alloc (destroy_channel i)"
  "no_alloc (destroy_select_value k)" "no_alloc (destroy_message_reference l)"
  "no_alloc (destroy_mention_as_channel n)"
  unfolding destroy_attachment_def destroy_embed_footer_def destroy_embed_media_def destroy_embed_provider_def
    destroy_embed_author_def destroy_embed_field_def destroy_member_def destroy_select_option_def
    destroy_channel_def destroy_select_value_def destroy_message_reference_def destroy_mention_as_channel_def
  by (intro no_alloc_intros)+

lemma no_alloc_embed [no_alloc_intros]: "no_alloc (destroy_embed p)"
  unfolding destroy_embed_def by (intro no_alloc_intros)

lemma no_alloc_component [no_alloc_intros]: "no_alloc (destroy_component p)"
  by (induction p rule: destroy_component.induct) (auto intro!: no_alloc_intros)

lemma no_alloc_data_option [no_alloc_intros]: "no_alloc (destroy_data_option p)"
  by (induction p rule: destroy_data_option.induct) (auto intro!: no_alloc_intros split: option_value.split)

lemma no_alloc_data [no_alloc_intros]: "no_alloc (destroy_interaction_data p)"
  unfolding destroy_interaction_data_def by (intro no_alloc_intros)

lemma no_alloc_message: "no_alloc (destroy_message_opt p)" "no_alloc (destroy_interaction_opt q)"
proof (induction p and q rule: destroy_message_opt_destroy_interaction_opt.induct)
  case (2 b x r i)
  then show ?case unfolding destroy_message_opt.simps destroy_message_body_def by (intro no_alloc_intros)
next
  case (4 b x m)
  then show ?case unfolding destroy_interaction_opt.simps destroy_interaction_body_def by (intro no_alloc_intros)
qed (simp_all add: no_alloc_intros)

lemma no_alloc_evicted: "no_alloc (destroy_evicted msgs chans ds)"
  by (induction msgs chans ds rule: destroy_evicted.induct)
    (auto simp: destroy_message_def no_alloc_message intro!: no_alloc_intros split: cache_type.split)

lemma cache_set_blocks: "next_blk (ev_mem (snd (run_state (discord_cache_set_message H p) s))) =
    (if p = Nul then next_blk (ev_mem s) else Suc (next_blk (ev_mem s)))"
  using no_alloc_evicted unfolding no_alloc_def
  by (auto simp: discord_cache_set_message_def cache_set_def fresh_blk_def fault_def Let_def case_prod_unfold
      split: option.split)

lemma cache_set_grows: "next_blk (ev_mem s) \<le> next_blk (ev_mem (snd (run_state (discord_cache_set_message H p) s)))"
  by (simp add: cache_set_blocks)

section \<open>Fetching messages\<close>

definition readable :: "'j cjson \<Rightarrow> 'j \<Rightarrow> bool" where
  "readable J j \<longleftrightarrow> json_depth J nesting_limit j \<and> message_json_ok J nesting_limit (Some j)"

lemma message_read:
  assumes inv: "bot_inv H s xs" and json: "json_laws J" "readable J j"
    and r: "run_state (json_to_message J nesting_limit (Some j)) (ev_mem s) = (p, m1)"
  shows "p \<noteq> Nul" "message_ok p" "bot_inv H (s\<lparr>ev_mem := m1\<rparr>) xs"
    "owned_once (s\<lparr>ev_mem := m1\<rparr>) (cached_blocks s xs @ message_blocks p)"
    "next_blk (ev_mem s) \<le> next_blk m1" "set (freed (ev_mem s)) \<subseteq> set (freed m1)"
proof -
  let ?nb = "next_blk (ev_mem s)"
  note ok = json(2) [unfolded readable_def]
  obtain bs fs where m1: "m1 = (ev_mem s)\<lparr>next_blk := ?nb + length bs, freed := freed (ev_mem s) @ fs\<rparr>"
      "distinct bs" "set bs = {?nb ..< ?nb + length bs}"
      "mset bs = mset (message_blocks p) + mset fs \<and> message_ok p \<and> p \<noteq> Nul"
    by (rule does_run [OF message_reads_limit [OF json(1) ok [THEN conjunct1] ok [THEN conjunct2]] r]) blast
  then have m: "mset bs = mset (message_blocks p @ fs)" by simp
  have dist: "distinct (message_blocks p @ fs)" using m m1(2) by (metis mset_eq_imp_distinct_iff)
  have sub: "set (message_blocks p @ fs) \<subseteq> {?nb ..< ?nb + length bs}" using m m1(3) by (metis mset_eq_setD order_refl)
  show "p \<noteq> Nul" "message_ok p" using m1(4) by blast+
  show "bot_inv H (s\<lparr>ev_mem := m1\<rparr>) xs" "owned_once (s\<lparr>ev_mem := m1\<rparr>) (cached_blocks s xs @ message_blocks p)"
    using bot_inv_grow [OF inv m1(1) dist sub] by simp_all
  show "?nb \<le> next_blk m1" "set (freed (ev_mem s)) \<subseteq> set (freed m1)" by (simp_all add: m1(1))
qed

lemma fetch_grows:
  assumes "json_laws J" and "list_all (readable J) js"
  shows "next_blk (ev_mem s) \<le> next_blk (ev_mem (snd (run_state (fetch_messages H J js) s)))"
  using assms(2)
proof (induction js arbitrary: s)
  case (Cons j js)
  obtain p m1 where r: "run_state (json_to_message J nesting_limit (Some j)) (ev_mem s) = (p, m1)" by (rule prod.exhaust)
  have ok: "json_depth J nesting_limit j" "message_json_ok J nesting_limit (Some j)"
    using Cons.prems by (simp_all add: readable_def)
  obtain bs :: "nat list" and fs where "m1 = (ev_mem s)\<lparr>next_blk := next_blk (ev_mem s) + length bs, freed := freed (ev_mem s) @ fs\<rparr>"
      "p \<noteq> Nul"
    by (rule does_run [OF message_reads_limit [OF assms(1) ok] r]) blast
  then have p: "p \<noteq> Nul" and m1: "next_blk (ev_mem s) \<le> next_blk m1" by simp_all
  let ?t = "snd (run_state (discord_cache_set_message H p) (s\<lparr>ev_mem := m1\<rparr>))"
  have "next_blk m1 \<le> next_blk (ev_mem ?t)" using cache_set_grows [of "s\<lparr>ev_mem := m1\<rparr>" H p] by simp
  also have "\<dots> \<le> next_blk (ev_mem (snd (run_state (fetch_messages H J js) ?t)))"
    using Cons by simp
  finally show ?case using m1 p r by (simp add: case_prod_unfold)
qed simp

text \<open>The messages of the cache before and those fetched, in order.\<close>

definition cache_size :: "'m bot_state \<Rightarrow> nat" where
  "cache_size s = nat (c_max (get_cache MESSAGES (ev_caches s)))"

definition passed :: "'m bot_state \<Rightarrow> entry list \<Rightarrow> discord_message ptr list \<Rightarrow> discord_message ptr list" where
  "passed s xs ms = map (\<lambda>x. ev_message s (e_cont x)) xs @ ms"

lemma one_fetched:
  assumes inv: "bot_inv H s xs" and json: "json_laws J" "readable J j"
    and r: "run_state (json_to_message J nesting_limit (Some j)) (ev_mem s) = (p, m1)"
    and t: "run_state (discord_cache_set_message H p) (s\<lparr>ev_mem := m1\<rparr>) = (u, t)"
    and new: "message_id p \<notin> e_id ` set xs" and put: "\<forall>m k v. hm_put H m k v \<noteq> None"
    and bound: "next_blk m1 < 2 ^ 59"
  defines "k \<equiv> Suc (length xs) - cache_size s"
  shows "\<exists>y. e_id y = message_id p \<and> bot_inv H t (drop k (xs @ [y])) \<and>
    map (\<lambda>x. ev_message t (e_cont x)) (xs @ [y]) = passed s xs [p] \<and>
    (\<forall>q \<in> set (take k (passed s xs [p])). blk q \<in> set (freed (ev_mem t))) \<and>
    set (freed (ev_mem s)) \<subseteq> set (freed (ev_mem t)) \<and> cache_size t = cache_size s \<and> p \<noteq> Nul"
proof -
  let ?s = "s\<lparr>ev_mem := m1\<rparr>"
  note rd = message_read [OF inv json r]
  have cb: "cached_blocks s xs = cached_blocks ?s xs" by (simp add: cached_blocks_def)
  note own = rd(4) [unfolded cb]
  have b: "next_blk (ev_mem ?s) < 2 ^ 59" using bound by simp
  obtain n t' where t': "run_state (discord_cache_set_message H p) ?s = ((), t')"
      "bot_inv H t' (kept ?s xs (message_id p, ptr_addr p, n))"
      "ev_message t' = (ev_message ?s)(ptr_addr p := p)"
      "c_max (get_cache MESSAGES (ev_caches t')) = c_max (get_cache MESSAGES (ev_caches ?s))"
      "\<exists>fs. freed (ev_mem t') = freed (ev_mem ?s) @ fs \<and>
        mset fs + mset (concat (map (\<lambda>x. message_leaks (ev_message t' (e_cont x)))
          (evicted ?s xs (message_id p, ptr_addr p, n)))) =
        mset (cached_blocks t' (evicted ?s xs (message_id p, ptr_addr p, n)))"
    by (rule cache_message_new [OF rd(3,1,2) new own put b]) blast
  let ?y = "(message_id p, ptr_addr p, n)"
  have tt: "t' = t" using t t'(1) by simp
  have ke: "kept ?s xs ?y = drop k (xs @ [?y])" "evicted ?s xs ?y = take k (xs @ [?y])"
    by (simp_all add: kept_def evicted_def k_def cache_size_def)
  have "ptr_addr p \<notin> e_cont ` set xs"
    by (rule cached_address_differs [OF rd(3,1) own]) (use bound in simp)
  then have "ev_message t (e_cont x) = ev_message s (e_cont x)" if "x \<in> set xs" for x
    using that t'(3) tt by force
  then have P: "map (\<lambda>x. ev_message t (e_cont x)) (xs @ [?y]) = passed s xs [p]"
    using t'(3) tt by (simp add: passed_def)
  obtain fs where fs: "freed (ev_mem t) = freed m1 @ fs"
      "mset fs + mset (concat (map (\<lambda>x. message_leaks (ev_message t (e_cont x))) (take k (xs @ [?y])))) =
        mset (cached_blocks t (take k (xs @ [?y])))"
    using t'(5) tt ke(2) by auto
  have E: "map (\<lambda>x. ev_message t (e_cont x)) (take k (xs @ [?y])) = take k (passed s xs [p])"
    using P by (metis take_map)
  have L: "mset fs + mset (concat (map message_leaks (take k (passed s xs [p])))) =
      mset (concat (map message_blocks (take k (passed s xs [p]))))"
    using fs(2) unfolding E [symmetric] cached_blocks_def by (simp add: comp_def)
  have ok: "\<forall>q \<in> set (passed s xs [p]). message_ok q \<and> q \<noteq> Nul"
    using inv rd(1,2) by (auto simp: passed_def bot_inv_def list_all_iff cached_ok_def Let_def)
  have sub: "set (take k (passed s xs [p])) \<subseteq> set (passed s xs [p])" by (rule set_take_subset)
  have "blk q \<in> set fs" if "q \<in> set (take k (passed s xs [p]))" for q
    by (rule own_blocks_freed [OF L _ that]) (use ok sub in blast)
  then have "\<forall>q \<in> set (take k (passed s xs [p])). blk q \<in> set (freed (ev_mem t))" using fs(1) by simp
  moreover have "set (freed (ev_mem s)) \<subseteq> set (freed (ev_mem t))" using rd(6) fs(1) by auto
  moreover have "cache_size t = cache_size s" using t'(4) tt by (simp add: cache_size_def)
  moreover have "bot_inv H t (drop k (xs @ [?y]))" using t'(2) ke(1) tt by simp
  ultimately show ?thesis using P rd(1) by (intro exI [of _ ?y]) simp
qed

lemma push_out:
  fixes c :: nat
  defines "k \<equiv> \<lambda>zs. length zs - c"
  shows "take (k (zs @ ws)) (zs @ ws) = take (k zs) zs @ take (k (drop (k zs) zs @ ws)) (drop (k zs) zs @ ws)"
    and "drop (k (zs @ ws)) (zs @ ws) = drop (k (drop (k zs) zs @ ws)) (drop (k zs) zs @ ws)"
proof -
  have k: "k (zs @ ws) = k zs + k (drop (k zs) zs @ ws)" by (simp add: k_def)
  have z: "k zs \<le> length zs" by (simp add: k_def)
  show "take (k (zs @ ws)) (zs @ ws) = take (k zs) zs @ take (k (drop (k zs) zs @ ws)) (drop (k zs) zs @ ws)"
    unfolding k take_add using z by simp
  have "drop (k zs) (zs @ ws) = drop (k zs) zs @ ws" using z by simp
  then show "drop (k (zs @ ws)) (zs @ ws) = drop (k (drop (k zs) zs @ ws)) (drop (k zs) zs @ ws)"
    unfolding k by (metis add.commute drop_drop)
qed

text \<open>
  The state \<open>s'\<close> after \<open>ms\<close> have been fetched: the oldest messages have made room, and the rest is in
  the cache.
\<close>

definition fetched_into :: "'m hashmap_api \<Rightarrow> 'm bot_state \<Rightarrow> entry list \<Rightarrow> discord_message ptr list \<Rightarrow> 'm bot_state \<Rightarrow> bool" where
  "fetched_into H s xs ms s' \<longleftrightarrow>
     (let P = passed s xs ms; k = length P - cache_size s
      in \<exists>ys. length ys = length ms \<and> map e_id ys = map message_id ms \<and> bot_inv H s' (drop k (xs @ ys)) \<and>
           map (\<lambda>x. ev_message s' (e_cont x)) (drop k (xs @ ys)) = drop k P \<and>
           (\<forall>q \<in> set (take k P). blk q \<in> set (freed (ev_mem s'))) \<and>
           set (freed (ev_mem s)) \<subseteq> set (freed (ev_mem s')))"

lemma fetched_into_Cons:
  assumes y: "e_id y = message_id p" "map (\<lambda>x. ev_message t (e_cont x)) (xs @ [y]) = passed s xs [p]"
      "\<forall>q \<in> set (take k1 (passed s xs [p])). blk q \<in> set (freed (ev_mem t))"
      "set (freed (ev_mem s)) \<subseteq> set (freed (ev_mem t))" "cache_size t = cache_size s"
    and k1: "k1 = Suc (length xs) - cache_size s" and rest: "fetched_into H t (drop k1 (xs @ [y])) ms s'"
  shows "fetched_into H s xs (p # ms) s'"
proof -
  let ?c = "cache_size s" and ?P = "passed s xs [p]" and ?xs = "drop k1 (xs @ [y])"
  have P: "k1 = length ?P - ?c" "passed t ?xs ms = drop k1 ?P @ ms" "passed s xs (p # ms) = ?P @ ms" "length ?P = length (xs @ [y])"
  proof -
    show "passed t ?xs ms = drop k1 ?P @ ms" unfolding passed_def [of t] drop_map [symmetric] y(2) by (rule refl)
  qed (simp_all add: k1 passed_def)
  let ?k = "length (drop k1 ?P @ ms) - ?c" and ?l = "length (?P @ ms) - ?c"
  obtain ys where ys: "length ys = length ms" "map e_id ys = map message_id ms" "bot_inv H s' (drop ?k (?xs @ ys))"
      "map (\<lambda>x. ev_message s' (e_cont x)) (drop ?k (?xs @ ys)) = drop ?k (drop k1 ?P @ ms)"
      "\<forall>q \<in> set (take ?k (drop k1 ?P @ ms)). blk q \<in> set (freed (ev_mem s'))"
      "set (freed (ev_mem t)) \<subseteq> set (freed (ev_mem s'))"
    using rest unfolding fetched_into_def Let_def P(2) y(5) by blast
  have len: "length (drop k1 ?P @ ms) = length (?xs @ ys)" "length (?P @ ms) = length ((xs @ [y]) @ ys)"
    using ys(1) P(4) by simp_all
  have k: "length (xs @ [y]) - ?c = k1" and cons: "(xs @ [y]) @ ys = xs @ y # ys" by (simp_all add: k1)
  have D: "drop ?l (xs @ y # ys) = drop ?k (?xs @ ys)"
    using push_out(2) [of "xs @ [y]" ys ?c] unfolding k len(1) [symmetric] len(2) cons .
  have E: "take ?l (?P @ ms) = take k1 ?P @ take ?k (drop k1 ?P @ ms)"
    and F: "drop ?l (?P @ ms) = drop ?k (drop k1 ?P @ ms)"
    unfolding P(1) by (rule push_out)+
  have "\<forall>q \<in> set (take ?l (?P @ ms)). blk q \<in> set (freed (ev_mem s'))" unfolding E using y(3) ys(5,6) by auto
  moreover have "bot_inv H s' (drop ?l (xs @ y # ys))"
    "map (\<lambda>x. ev_message s' (e_cont x)) (drop ?l (xs @ y # ys)) = drop ?l (?P @ ms)"
    unfolding D F by (rule ys(3), rule ys(4))
  moreover have "length (y # ys) = length (p # ms)" "map e_id (y # ys) = map message_id (p # ms)"
    "set (freed (ev_mem s)) \<subseteq> set (freed (ev_mem s'))" using ys(1,2,6) y(1,4) by auto
  ultimately show ?thesis unfolding fetched_into_def Let_def P(3) by blast
qed

lemma fetch_run:
  assumes "bot_inv H s xs" and "json_laws J" and "list_all (readable J) js"
    and "run_state (fetch_messages H J js) s = (ms, s')"
    and "distinct (map e_id xs @ map message_id ms)" and "\<forall>m k v. hm_put H m k v \<noteq> None"
    and "next_blk (ev_mem s') < 2 ^ 59" and "length xs \<le> cache_size s"
  shows "fetched_into H s xs ms s'"
  using assms(1,3-5,7,8)
proof (induction js arbitrary: s xs ms)
  case Nil
  then show ?case by (simp add: fetched_into_def passed_def)
next
  case (Cons j js)
  obtain p m1 where r: "run_state (json_to_message J nesting_limit (Some j)) (ev_mem s) = (p, m1)" by (rule prod.exhaust)
  obtain u t where t: "run_state (discord_cache_set_message H p) (s\<lparr>ev_mem := m1\<rparr>) = (u, t)" by (rule prod.exhaust)
  obtain ms2 s2 where f: "run_state (fetch_messages H J js) t = (ms2, s2)" by (rule prod.exhaust)
  have j: "readable J j" "list_all (readable J) js" using Cons.prems(2) by simp_all
  have p: "p \<noteq> Nul" by (rule message_read(1) [OF Cons.prems(1) assms(2) j(1) r])
  have ms: "ms = p # ms2" "s2 = s'" using Cons.prems(3) p r t f by simp_all
  have "next_blk m1 \<le> next_blk (ev_mem t)" using cache_set_grows [of "s\<lparr>ev_mem := m1\<rparr>" H p] t by simp
  also have "\<dots> \<le> next_blk (ev_mem s')" using fetch_grows [OF assms(2) j(2), of t H] f ms by simp
  finally have bound: "next_blk m1 < 2 ^ 59" using Cons.prems(5) by simp
  have new: "message_id p \<notin> e_id ` set xs" using Cons.prems(4) by (auto simp: ms)
  define k1 where "k1 = Suc (length xs) - cache_size s"
  obtain y where y: "e_id y = message_id p" "bot_inv H t (drop k1 (xs @ [y]))"
      "map (\<lambda>x. ev_message t (e_cont x)) (xs @ [y]) = passed s xs [p]"
      "\<forall>q \<in> set (take k1 (passed s xs [p])). blk q \<in> set (freed (ev_mem t))"
      "set (freed (ev_mem s)) \<subseteq> set (freed (ev_mem t))" "cache_size t = cache_size s"
    using one_fetched [OF Cons.prems(1) assms(2) j(1) r t new assms(6) bound] unfolding k1_def by blast
  have "k1 - length (map e_id (xs @ [y])) = 0" by (simp add: k1_def)
  then have "drop k1 (map e_id (xs @ [y]) @ map message_id ms2) = map e_id (drop k1 (xs @ [y])) @ map message_id ms2"
    by (simp only: drop_append drop_0 drop_map)
  moreover have "map e_id (xs @ [y]) @ map message_id ms2 = map e_id xs @ map message_id ms" using y(1) by (simp add: ms)
  ultimately have d: "distinct (map e_id (drop k1 (xs @ [y])) @ map message_id ms2)"
    using Cons.prems(4) distinct_drop by metis
  have "length (drop k1 (xs @ [y])) \<le> cache_size t" by (simp add: k1_def y(6))
  from Cons.IH [OF y(2) j(2) f [unfolded ms(2)] d Cons.prems(5) this]
  show ?case unfolding ms(1) by (rule fetched_into_Cons [OF y(1,3-6) k1_def])
qed

section \<open>The callbacks of the application\<close>

lemma cached_not_freed:
  assumes "bot_inv H s ys" and "q \<in> set (map (\<lambda>x. ev_message s (e_cont x)) ys)"
  shows "q \<noteq> Nul \<and> blk q \<notin> set (freed (ev_mem s))"
proof -
  obtain y where y: "y \<in> set ys" "q = ev_message s (e_cont y)" using assms(2) by auto
  then have q: "q \<noteq> Nul" using assms(1) by (auto simp: bot_inv_def cached_ok_def list_all_iff Let_def)
  then have "blk q \<in> set (message_blocks q)" by (cases q; cases "target q") auto
  then have "blk q \<in> set (cached_blocks s ys)" using y by (auto simp: cached_blocks_def)
  with q assms(1) show ?thesis by (auto simp: bot_inv_def owned_once_def)
qed

lemma fetched_into_alive:
  assumes "fetched_into H s xs ms s'"
  shows "\<exists>ys. bot_inv H s' ys \<and>
      map e_id ys = drop (length xs + length ms - cache_size s) (map e_id xs @ map message_id ms)"
    and "i < length ms \<Longrightarrow> blk (ms ! i) \<in> set (freed (ev_mem s')) \<longleftrightarrow> i + cache_size s < length ms"
proof -
  let ?P = "passed s xs ms" and ?k = "length xs + length ms - cache_size s"
  have P: "length ?P = length xs + length ms" by (simp add: passed_def)
  obtain ys where ys: "length ys = length ms" "map e_id ys = map message_id ms" "bot_inv H s' (drop ?k (xs @ ys))"
      "map (\<lambda>x. ev_message s' (e_cont x)) (drop ?k (xs @ ys)) = drop ?k ?P"
      "\<forall>q \<in> set (take ?k ?P). blk q \<in> set (freed (ev_mem s'))"
    using assms unfolding fetched_into_def Let_def P by blast
  have "map e_id (drop ?k (xs @ ys)) = drop ?k (map e_id xs @ map message_id ms)"
    by (simp only: drop_map [symmetric] map_append ys(2))
  with ys(3) show "\<exists>ys. bot_inv H s' ys \<and> map e_id ys = drop ?k (map e_id xs @ map message_id ms)" by blast
  assume i: "i < length ms"
  have q: "?P ! (length xs + i) = ms ! i" by (simp add: passed_def nth_append)
  show "blk (ms ! i) \<in> set (freed (ev_mem s')) \<longleftrightarrow> i + cache_size s < length ms"
  proof (cases "length xs + i < ?k")
    case True
    then have "take ?k ?P ! (length xs + i) = ms ! i" "length xs + i < length (take ?k ?P)"
      using q i by (simp_all add: P)
    then have "ms ! i \<in> set (take ?k ?P)" by (metis nth_mem)
    then show ?thesis using ys(5) True by auto
  next
    case False
    then have "drop ?k ?P ! (length xs + i - ?k) = ms ! i" "length xs + i - ?k < length (drop ?k ?P)"
      using q i by (simp_all add: P)
    then have "ms ! i \<in> set (drop ?k ?P)" by (metis nth_mem)
    then show ?thesis using cached_not_freed [OF ys(3), of "ms ! i", unfolded ys(4)] False by simp
  qed
qed


text \<open>A bot with two places in its cache, one of them taken, that receives three messages.\<close>

definition numbered :: "char \<Rightarrow> jval" where
  "numbered c = JObj [(''id'', JStr [c]), (''content'', JStr ''hello'')]"

abbreviation numbered_message :: "u64 \<Rightarrow> nat \<Rightarrow> nat \<Rightarrow> discord_message ptr" where
  "numbered_message i b c \<equiv> Ptr b (Message (five_fields\<lparr>ms_id := i, ms_channel_id := 0, ms_content := Ptr c ''hello''\<rparr>) Nul Nul)"

lemma numbered_run: "run_state (json_to_message small_json (Suc k) (Some (numbered c))) m =
    (numbered_message (strtoull10 [c]) (next_blk m) (Suc (next_blk m)), m\<lparr>next_blk := Suc (Suc (next_blk m))\<rparr>)"
  by (simp add: numbered_def read_message_def fresh_blk_def free_blk_def read_item_def Let_def
      json_message_content_def get_array_from_json_def get_ids_from_json_def stub_defs five_fields_def)

lemma numbered_readable: "readable small_json (numbered c)"
proof -
  obtain k where n: "nesting_limit = Suc (Suc k)" by (rule that [of 998]) (simp add: nesting_limit_def)
  show ?thesis
    unfolding readable_def n numbered_def using json_ok_None [OF small_json_laws] by (simp add: ids_json_ok_def)
qed

lemma numbered_ids: "strtoull10 ''6'' = 6" "strtoull10 ''7'' = 7" "strtoull10 ''8'' = 8"
  by (simp_all add: strtoull10_def is_space_char_def is_digit_char_def parse_digits_def digit_value_def)

lemma numbered_fetch:
  "run_state (fetch_messages H small_json (map numbered cs)) s = (ms, s') \<Longrightarrow>
   map message_id ms = map (\<lambda>c. strtoull10 [c]) cs \<and> next_blk (ev_mem s') = next_blk (ev_mem s) + 3 * length cs"
proof (induction cs arbitrary: s ms s')
  case (Cons c cs)
  obtain k where n: "nesting_limit = Suc k" by (rule that [of 999]) (simp add: nesting_limit_def)
  let ?b = "next_blk (ev_mem s)"
  let ?p = "numbered_message (strtoull10 [c]) ?b (Suc ?b)" and ?s = "s\<lparr>ev_mem := (ev_mem s)\<lparr>next_blk := Suc (Suc ?b)\<rparr>\<rparr>"
  obtain u t where t: "run_state (discord_cache_set_message H ?p) ?s = (u, t)" by (rule prod.exhaust)
  obtain ms2 s2 where f: "run_state (fetch_messages H small_json (map numbered cs)) t = (ms2, s2)" by (rule prod.exhaust)
  have "next_blk (ev_mem t) = ?b + 3" using cache_set_blocks [of H ?p ?s] t by simp
  moreover have "run_state (json_to_message small_json nesting_limit (Some (numbered c))) (ev_mem s) = (?p, ev_mem ?s)"
    by (simp only: n numbered_run) simp
  moreover have "message_id ?p = strtoull10 [c]" by (simp add: message_id_def)
  ultimately show ?case using Cons.prems Cons.IH [OF f] t f by auto
qed simp


end
