(* ===== verification/Pool_Life.thy ===== *)
theory Pool_Life
  imports Thread_Pool Mem
begin

text \<open>
  The life of the thread pool (\<open>t_pool_init\<close>, \<open>t_pool_destroy\<close> and \<open>t_process_count\<close> of
  \<open>t_pool.c\<close>): the memory of the pool with its lock and conditions from its start to its end. The
  critical sections are those of \<open>Thread_Pool\<close>; a worker that comes back to the lock after it was
  freed is a fault.
\<close>

section \<open>The code\<close>

text \<open>The number that \<open>sysconf\<close> returns, a \<open>long\<close>, as an \<open>int\<close>.\<close>

definition t_process_count :: "int \<Rightarrow> int" where
  "t_process_count nprocessors = signed_take_bit 31 nprocessors"

record pool_memory =
  pm_pool :: nat
  pm_work_cond :: nat
  pm_finished_cond :: nat
  pm_lock :: nat

definition pool_memory_init :: "(mem, pool_memory) state" where
  "pool_memory_init = do {
     b \<leftarrow> fresh_blk;
     work_cond \<leftarrow> fresh_blk;
     finished_cond \<leftarrow> fresh_blk;
     lock \<leftarrow> fresh_blk;
     State_Monad.return \<lparr>pm_pool = b, pm_work_cond = work_cond, pm_finished_cond = finished_cond, pm_lock = lock\<rparr> }"

text \<open>The loop of \<open>t_pool_init\<close> starts no thread when the number is not positive.\<close>

definition workers_started :: "int \<Rightarrow> thread list" where
  "workers_started num_t = replicate (nat num_t) Idle"

text \<open>\<open>t_pool_destroy\<close> after \<open>t_pool_wait\<close>.\<close>

definition t_pool_destroy_end :: "pool_memory \<Rightarrow> (mem, unit) state" where
  "t_pool_destroy_end pm = do {
     _ \<leftarrow> free_blk (pm_work_cond pm);
     _ \<leftarrow> free_blk (pm_finished_cond pm);
     _ \<leftarrow> free_blk (pm_lock pm);
     free_blk (pm_pool pm) }"

section \<open>The pool from start to end\<close>

datatype phase = Running | Waiting | Ended

record 'w life =
  l_sys :: "'w pool_sys"
  l_memory :: pool_memory
  l_mem :: mem
  l_phase :: phase

text \<open>
  The steps: workers and other threads go on while the memory is there, one thread begins to destroy
  the pool, its wait is over, and a worker that has not left locks the freed lock.
\<close>

inductive life_step :: "'w life \<Rightarrow> 'w life \<Rightarrow> bool" where
  work: "l_phase s \<noteq> Ended \<Longrightarrow> pool_step (l_sys s) w \<Longrightarrow> p_stop (pool w) = p_stop (pool (l_sys s)) \<Longrightarrow>
    life_step s (s\<lparr>l_sys := w\<rparr>)"
| begin_destroy: "l_phase s = Running \<Longrightarrow> pool_step (l_sys s) w \<Longrightarrow> \<not> p_stop (pool (l_sys s)) \<Longrightarrow> p_stop (pool w) \<Longrightarrow>
    life_step s (s\<lparr>l_sys := w, l_phase := Waiting\<rparr>)"
| end_destroy: "l_phase s = Waiting \<Longrightarrow> t_pool_wait_done (pool (l_sys s)) \<Longrightarrow>
    run_state (t_pool_destroy_end (l_memory s)) (l_mem s) = (u, m) \<Longrightarrow>
    life_step s (s\<lparr>l_mem := m, l_phase := Ended\<rparr>)"
| late_worker: "l_phase s = Ended \<Longrightarrow> i < length (threads (l_sys s)) \<Longrightarrow> threads (l_sys s) ! i \<noteq> Gone \<Longrightarrow>
    life_step s (s\<lparr>l_mem := (l_mem s)\<lparr>bad := True\<rparr>\<rparr>)"

inductive_cases life_stepE: "life_step s t"

definition life_start :: "int \<Rightarrow> int \<Rightarrow> mem \<Rightarrow> 'w life" where
  "life_start num_t usec0 m =
     (case run_state pool_memory_init m of (pm, m') \<Rightarrow>
        \<lparr>l_sys = \<lparr>pool = t_pool_init Map.empty Map.empty num_t usec0, threads = workers_started num_t,
                  added = {#}, executed = {#}\<rparr>,
         l_memory = pm, l_mem = m', l_phase = Running\<rparr>)"

inductive life_reach :: "int \<Rightarrow> int \<Rightarrow> mem \<Rightarrow> 'w life \<Rightarrow> bool" for num_t usec0 m where
  start: "life_reach num_t usec0 m (life_start num_t usec0 m)"
| step: "life_reach num_t usec0 m s \<Longrightarrow> life_step s t \<Longrightarrow> life_reach num_t usec0 m t"

section \<open>The end of the pool\<close>

lemma pool_step_stopped: "pool_step s t \<Longrightarrow> p_stop (pool s) \<Longrightarrow> p_stop (pool t)"
  by (auto elim!: pool_stepE simp: t_pool_add_work_def thread_section_def t_pool_pop_work_def Let_def
      split: option.splits prod.splits if_splits)

definition life_ok :: "int \<Rightarrow> int \<Rightarrow> mem \<Rightarrow> 'w life \<Rightarrow> bool" where
  "life_ok num_t usec0 m s \<longleftrightarrow>
     pool_reach (nat num_t) usec0 (l_sys s) \<and> (l_phase s = Running \<longleftrightarrow> \<not> p_stop (pool (l_sys s))) \<and>
     l_memory s = fst (run_state pool_memory_init m) \<and>
     (if l_phase s = Ended
      then threads (l_sys s) = replicate (nat num_t) Gone \<and>
        l_mem s = snd (run_state (t_pool_destroy_end (l_memory s)) (snd (run_state pool_memory_init m)))
      else l_mem s = snd (run_state pool_memory_init m))"

lemma life_start_simps [simp]:
  "l_phase (life_start num_t usec0 m) = Running" "l_memory (life_start num_t usec0 m) = fst (run_state pool_memory_init m)"
  "l_mem (life_start num_t usec0 m) = snd (run_state pool_memory_init m)"
  by (simp_all add: life_start_def case_prod_unfold)

lemma life_start_sys: "0 \<le> num_t \<Longrightarrow> l_sys (life_start num_t usec0 m) = pool_start (nat num_t) usec0"
  by (simp add: life_start_def pool_start_def workers_started_def case_prod_unfold)

lemma life_start_ok: "0 \<le> num_t \<Longrightarrow> life_ok num_t usec0 m (life_start num_t usec0 m)"
  using pool_reach.start [of "nat num_t" usec0] pool_init_running
  by (simp add: life_ok_def life_start_sys) (simp add: pool_start_def pool_init_running)

lemma life_step_ok: "life_step s t \<Longrightarrow> life_ok num_t usec0 m s \<Longrightarrow> life_ok num_t usec0 m t"
proof (induction rule: life_step.induct)
  case (work s w)
  then show ?case by (auto simp: life_ok_def intro: pool_reach.step)
next
  case (begin_destroy s w)
  then show ?case by (auto simp: life_ok_def intro: pool_reach.step)
next
  case (end_destroy s u m')
  then have "threads (l_sys s) = replicate (nat num_t) Gone"
    using pool_wait_exact [of "nat num_t" usec0 "l_sys s"] by (simp add: life_ok_def)
  with end_destroy show ?case by (auto simp: life_ok_def)
next
  case (late_worker s i)
  then show ?case by (simp add: life_ok_def)
qed

lemma life_reach_ok: "0 \<le> num_t \<Longrightarrow> life_reach num_t usec0 m s \<Longrightarrow> life_ok num_t usec0 m s"
  by (rotate_tac, induction rule: life_reach.induct) (simp_all add: life_start_ok life_step_ok)

lemma pool_memory_run: "run_state pool_memory_init m =
    (\<lparr>pm_pool = next_blk m, pm_work_cond = next_blk m + 1, pm_finished_cond = next_blk m + 2, pm_lock = next_blk m + 3\<rparr>,
     m\<lparr>next_blk := next_blk m + 4\<rparr>)"
  by (simp add: pool_memory_init_def fresh_blk_def numeral_eq_Suc)

lemma pool_steps_live:
  "(pool_step ^^ k) (l_sys s) w \<Longrightarrow> p_stop (pool (l_sys s)) \<Longrightarrow> l_phase s \<noteq> Ended \<Longrightarrow>
   (life_step ^^ k) s (s\<lparr>l_sys := w\<rparr>) \<and> p_stop (pool w)"
proof (induction k arbitrary: w)
  case (Suc k)
  then obtain v where v: "(pool_step ^^ k) (l_sys s) v" "pool_step v w" by (auto elim: relpowp_Suc_E)
  from Suc.IH [OF v(1) Suc.prems(2,3)] have ih: "(life_step ^^ k) s (s\<lparr>l_sys := v\<rparr>)" "p_stop (pool v)" by simp_all
  have "life_step (s\<lparr>l_sys := v\<rparr>) (s\<lparr>l_sys := v\<rparr>\<lparr>l_sys := w\<rparr>)"
    by (rule life_step.work) (use Suc.prems(3) v(2) ih(2) pool_step_stopped in auto)
  then show ?case using relpowp_Suc_I [OF ih(1)] pool_step_stopped [OF v(2) ih(2)] by simp
qed simp

lemma destroy_ends:
  assumes "life_ok num_t usec0 m s" and "l_phase s = Waiting"
  shows "\<exists>k t. k \<le> 2 * nat num_t + 1 \<and> (life_step ^^ k) s t \<and> l_phase t = Ended"
proof -
  have r: "pool_reach (nat num_t) usec0 (l_sys s)" "p_stop (pool (l_sys s))" using assms by (simp_all add: life_ok_def)
  let ?k = "steps_left (threads (l_sys s))"
  obtain w where w: "(pool_step ^^ ?k) (l_sys s) w" "t_pool_wait_done (pool w)"
    using stopped_drains [OF pool_reach_ok [OF r(1)] r(2) refl] by blast
  have steps: "(life_step ^^ ?k) s (s\<lparr>l_sys := w\<rparr>)" using pool_steps_live [OF w(1) r(2)] assms(2) by simp
  obtain u m' where m': "run_state (t_pool_destroy_end (l_memory s)) (l_mem s) = (u, m')" by (rule prod.exhaust)
  have "life_step (s\<lparr>l_sys := w\<rparr>) (s\<lparr>l_sys := w\<rparr>\<lparr>l_mem := m', l_phase := Ended\<rparr>)"
    by (rule life_step.end_destroy) (use assms(2) w(2) m' in auto)
  with relpowp_Suc_I [OF steps this] show ?thesis
    using steps_left_le [of "threads (l_sys s)"] pool_reach_threads [OF r(1)]
    by (intro exI [of _ "Suc ?k"] exI conjI) auto
qed

text \<open>C4. The memory of the pool with its lock and conditions is freed once, and only after every worker has
  left its loop: at no time can a worker lock what has been freed. And once the destruction has begun
  the memory is freed after at most two more steps of each worker and one of the destroying thread.\<close>

theorem pool_freed_after_workers:
  assumes "0 \<le> num_t" and "life_reach num_t usec0 m s" and "\<not> bad m"
  shows "\<not> bad (l_mem s) \<and>
    (if l_phase s = Ended
     then threads (l_sys s) = replicate (nat num_t) Gone \<and>
       (\<exists>fs. freed (l_mem s) = freed m @ fs \<and> mset fs = mset [next_blk m ..< next_blk (l_mem s)])
     else freed (l_mem s) = freed m) \<and>
    (l_phase s = Waiting \<longrightarrow> (\<exists>k t. k \<le> 2 * nat num_t + 1 \<and> (life_step ^^ k) s t \<and> l_phase t = Ended))"
proof -
  have ok: "life_ok num_t usec0 m s" by (rule life_reach_ok [OF assms(1,2)])
  have "run_state (t_pool_destroy_end (fst (run_state pool_memory_init m))) (snd (run_state pool_memory_init m)) =
      ((), m\<lparr>next_blk := next_blk m + 4,
        freed := freed m @ [next_blk m + 1, next_blk m + 2, next_blk m + 3, next_blk m]\<rparr>)"
    by (simp add: pool_memory_run t_pool_destroy_end_def free_blk_def)
  moreover have "mset [b + 1, b + 2, b + 3, b] = mset [b ..< b + 4]" for b :: nat by (simp add: upt_rec)
  ultimately show ?thesis
    using ok assms(3) destroy_ends [OF ok] by (auto simp: life_ok_def pool_memory_run split: if_splits)
qed

theorem pool_freed_after_workers_witness:
  "\<exists>(s :: string life) k t. life_reach 2 0 \<lparr>next_blk = 7, freed = [], bad = False\<rparr> s \<and> l_phase s = Waiting \<and> k \<le> 5 \<and>
     (life_step ^^ k) s t \<and> l_phase t = Ended"
proof -
  let ?m = "\<lparr>next_blk = 7, freed = [], bad = False\<rparr>"
  let ?s = "life_start 2 0 ?m :: string life"
  let ?w = "pool_start 2 0\<lparr>pool := (pool (pool_start 2 0))\<lparr>p_stop := True\<rparr>\<rparr>"
  have l: "l_sys ?s = pool_start 2 0" using life_start_sys [of 2] by simp
  define t where "t = ?s\<lparr>l_sys := ?w, l_phase := Waiting\<rparr>"
  have "life_step ?s t"
    unfolding t_def
    by (rule life_step.begin_destroy) (use start_destroyed [of 2 0] in \<open>simp_all add: l\<close>, simp add: pool_start_def pool_init_running)
  then have r: "life_reach 2 0 ?m t" by (rule life_reach.step [OF life_reach.start])
  have p: "l_phase t = Waiting" by (simp add: t_def)
  obtain k u where "k \<le> 5" "(life_step ^^ k) t u" "l_phase u = Ended"
    using pool_freed_after_workers [OF _ r] p by auto
  with r p show ?thesis by blast
qed

end
