(* ===== verification/Example_Client.thy ===== *)
theory Example_Client
  imports Gateway_Safety Message_Json
begin

text \<open>
  What the two example bots (\<open>src/examples\<close>) have in common. An application is the bot of the library,
  what it has handed to \<open>request\<close> and what it has printed; its callbacks run one after the other, on
  the thread that received the event. Structures of an example that live on the stack have no block of
  memory. What is printed into a buffer that is too small is a fault, after which the code goes on.
\<close>

section \<open>Applications\<close>

record 'm app =
  app_bot :: "'m bot"
  app_sent :: "queued_request list"
  app_printed :: "string list"

definition in_app :: "('m bot, 'a) state \<Rightarrow> (('m, 'z) app_scheme, 'a) state" where
  "in_app c = State (\<lambda>s. case run_state c (app_bot s) of (y, t) \<Rightarrow> (y, s\<lparr>app_bot := t\<rparr>))"

abbreviation app_mem_do :: "(mem, 'a) state \<Rightarrow> (('m, 'z) app_scheme, 'a) state" where
  "app_mem_do c \<equiv> in_app (in_mem c)"

abbreviation app_state :: "('m, 'z) app_scheme \<Rightarrow> 'm bot_state" where
  "app_state s \<equiv> b_state (app_bot s)"

definition print_line :: "string \<Rightarrow> (('m, 'z) app_scheme, unit) state" where
  "print_line l = State (\<lambda>s. ((), s\<lparr>app_printed := app_printed s @ [l]\<rparr>))"

text \<open>\<open>discord_channel_send_message(bot, ...)\<close>, with the token of the client of the bot.\<close>

definition send_message ::
  "'j json_builder \<Rightarrow> string ptr \<Rightarrow> u64 \<Rightarrow> discord_create_message ptr \<Rightarrow> bool \<Rightarrow> (('m, 'z) app_scheme, unit) state" where
  "send_message B content cid message cb = do {
     tok \<leftarrow> in_app (State (\<lambda>s. (ws_token (b_client s), s)));
     q \<leftarrow> app_mem_do (discord_channel_send_message B tok content cid message cb);
     State (\<lambda>s. ((), s\<lparr>app_sent := app_sent s @ [q]\<rparr>)) }"

definition edit_message ::
  "'j json_builder \<Rightarrow> string ptr \<Rightarrow> u64 \<Rightarrow> u64 \<Rightarrow> discord_create_message ptr \<Rightarrow> (('m, 'z) app_scheme, unit) state" where
  "edit_message B content cid mid message = do {
     tok \<leftarrow> in_app (State (\<lambda>s. (ws_token (b_client s), s)));
     q \<leftarrow> app_mem_do (discord_channel_edit_message B tok content cid mid message);
     State (\<lambda>s. ((), s\<lparr>app_sent := app_sent s @ [q]\<rparr>)) }"

text \<open>A structure on the stack.\<close>

definition on_stack :: "'a \<Rightarrow> 'a ptr" where
  "on_stack x = Ptr 0 x"

text \<open>\<open>struct discord_embed embed = {0}\<close> and \<open>struct discord_create_message msg = {0}\<close>.\<close>

definition zero_embed :: discord_embed where
  "zero_embed = \<lparr>eb_title = Nul, eb_type = Nul, eb_description = Nul, eb_url = Nul, eb_timestamp = Nul,
     eb_color = 0, eb_footer = Nul, eb_image = Nul, eb_thumbnail = Nul, eb_video = Nul, eb_provider = Nul,
     eb_author = Nul, eb_fields = Nul\<rparr>"

definition zero_message :: discord_create_message where
  "zero_message = \<lparr>cm_tts = False, cm_embed = Nul, cm_embeds = Nul, cm_allowed_mentions = Nul,
     cm_message_reference = Nul, cm_components = Nul, cm_sticker_ids = Nul, cm_attachments = Nul, cm_flags = 0\<rparr>"

definition embed_message :: "string \<Rightarrow> int \<Rightarrow> discord_create_message" where
  "embed_message description color =
     zero_message\<lparr>cm_embed := on_stack (zero_embed\<lparr>eb_description := on_stack description, eb_color := color\<rparr>)\<rparr>"

text \<open>\<open>%s\<close> of the GNU C library, which prints NULL.\<close>

definition show_str :: "string ptr \<Rightarrow> string" where
  "show_str p = (case p of Nul \<Rightarrow> ''(null)'' | Ptr _ s \<Rightarrow> s)"

text \<open>\<open>on_ready\<close>, which is the same in both: the user must have been read.\<close>

definition app_on_ready :: "(('m, 'z) app_scheme, unit) state" where
  "app_on_ready = do {
     user \<leftarrow> in_app (in_bot (State (\<lambda>s. (ev_user s, s))));
     case user of
       Nul \<Rightarrow> app_mem_do fault
     | Ptr _ u \<Rightarrow> do {
         _ \<leftarrow> print_line ''===================================='';
         _ \<leftarrow> print_line ''Successfully logged in'';
         _ \<leftarrow> print_line (''Username:'' @ [CHR 0x09] @ show_str (us_username u));
         _ \<leftarrow> print_line (''User ID:'' @ [CHR 0x09] @ show_u64 (us_id u));
         print_line ''===================================='' } }"

section \<open>Events\<close>

text \<open>
  An event of the gateway, and the callbacks of the application it leads to: \<open>on_call\<close> is the function
  that the application has set for each.
\<close>

fun all_calls :: "(bot_call \<Rightarrow> ('s, unit) state) \<Rightarrow> bot_call list \<Rightarrow> ('s, unit) state" where
  "all_calls on_call [] = State_Monad.return ()"
| "all_calls on_call (c # cs) = do { _ \<leftarrow> on_call c; all_calls on_call cs }"

definition app_event ::
  "'m hashmap_api \<Rightarrow> 'j cjson \<Rightarrow> discord_event_callbacks \<Rightarrow> (bot_call \<Rightarrow> (('m, 'z) app_scheme, unit) state) \<Rightarrow>
   'j option \<Rightarrow> string \<Rightarrow> (('m, 'z) app_scheme, unit) state" where
  "app_event H J callbacks on_call data event = do {
     before \<leftarrow> in_app (in_bot (State (\<lambda>s. (ev_calls s, s))));
     _ \<leftarrow> in_app (in_bot (event_handle H J (Some callbacks) data event));
     after \<leftarrow> in_app (in_bot (State (\<lambda>s. (ev_calls s, s))));
     all_calls on_call (drop (length before) after) }"

section \<open>Running the pieces\<close>

lemma in_app_run: "run_state (in_app c) s =
    (fst (run_state c (app_bot s)), s\<lparr>app_bot := snd (run_state c (app_bot s))\<rparr>)"
  by (simp add: in_app_def split_beta)

text \<open>The memory of an application.\<close>

definition app_memory :: "('m, 'z) app_scheme \<Rightarrow> mem" where
  "app_memory s = ev_mem (app_state s)"

definition with_memory :: "mem \<Rightarrow> ('m, 'z) app_scheme \<Rightarrow> ('m, 'z) app_scheme" where
  "with_memory m s = s\<lparr>app_bot := (app_bot s)\<lparr>b_state := (app_state s)\<lparr>ev_mem := m\<rparr>\<rparr>\<rparr>"

lemma mem_do_run: "run_state (app_mem_do c) s =
    (fst (run_state c (app_memory s)), with_memory (snd (run_state c (app_memory s))) s)"
  by (simp add: in_app_run in_bot_run in_memory_def split_beta with_memory_def app_memory_def)

lemma with_memory_simps [simp]:
  "app_memory (with_memory m s) = m" "with_memory m (with_memory n s) = with_memory m s"
  "with_memory (app_memory s) s = s" "app_sent (with_memory m s) = app_sent s"
  "app_printed (with_memory m s) = app_printed s" "b_client (app_bot (with_memory m s)) = b_client (app_bot s)"
  "app_memory (s\<lparr>app_sent := q\<rparr>) = app_memory s" "app_memory (s\<lparr>app_printed := l\<rparr>) = app_memory s"
  by (simp_all add: with_memory_def app_memory_def)

text \<open>A message with nothing but a text, or with one embed, is sent without touching the memory.\<close>

definition plain :: "discord_create_message ptr \<Rightarrow> bool" where
  "plain p \<longleftrightarrow> p = Nul \<or> (\<exists>text color. p = on_stack (embed_message text color))"

lemma plain_messages [simp]: "plain Nul" "plain (on_stack (embed_message text color))"
  by (auto simp: plain_def)

definition sent_request :: "'j json_builder \<Rightarrow> string \<Rightarrow> string ptr \<Rightarrow> u64 \<Rightarrow> discord_create_message ptr \<Rightarrow> bool \<Rightarrow> queued_request" where
  "sent_request B tok content cid message cb =
     fst (run_state (discord_channel_send_message B tok content cid message cb) \<lparr>next_blk = 0, freed = [], bad = False\<rparr>)"

lemma channel_url_fits: "length (channel_url cid) < 80"
  using length_show_u64 [of cid] by (simp add: channel_url_def)

lemma plain_send:
  assumes "plain p"
  shows "run_state (discord_channel_send_message B tok content cid p cb) m = (sent_request B tok content cid p cb, m)"
proof -
  have "\<exists>r. discord_channel_send_message B tok content cid p cb = State_Monad.return r"
    using assms channel_url_fits [of cid]
    by (auto simp: plain_def discord_channel_send_message_def create_message_to_json_def print_into_def file_names_def
        on_stack_def embed_message_def zero_message_def add_embeds_def create_embed_json_def zero_embed_def
        add_allowed_mentions_def add_reference_def add_ids_def add_attachments_def elems_def Let_def)
  then show ?thesis by (auto simp: sent_request_def)
qed

lemma send_message_run:
  assumes "plain p"
  shows "run_state (send_message B content cid p cb) s =
    ((), s\<lparr>app_sent := app_sent s @ [sent_request B (ws_token (b_client (app_bot s))) content cid p cb]\<rparr>)"
  by (simp add: send_message_def in_app_run in_bot_run in_memory_def split_beta plain_send [OF assms])

lemma destroy_message_run:
  assumes "message_ok p" and "p \<noteq> Nul"
  obtains fs where "run_state (app_mem_do (destroy_message p)) s =
      ((), with_memory ((app_memory s)\<lparr>freed := freed (app_memory s) @ fs\<rparr>) s)"
    "mset fs + mset (message_leaks p) = mset (message_blocks p)"
proof -
  obtain y fs and bs :: "nat list" where r: "run_state (destroy_message_opt p) (app_memory s) =
      (y, (app_memory s)\<lparr>next_blk := next_blk (app_memory s) + length bs, freed := freed (app_memory s) @ fs\<rparr>)"
      "bs = [] \<and> mset fs + mset (message_leaks p) = mset (message_blocks p)"
    by (rule doesE [OF message_destroy_does(1) [OF assms(1)], of "app_memory s"]) blast
  then show thesis using assms(2) by (intro that [of fs]) (simp_all add: mem_do_run destroy_message_def)
qed

text \<open>Editing a message so that it has one embed.\<close>

definition edit_request :: "'j json_builder \<Rightarrow> string \<Rightarrow> u64 \<Rightarrow> u64 \<Rightarrow> discord_create_message ptr \<Rightarrow> queued_request" where
  "edit_request B tok cid mid message =
     fst (run_state (discord_channel_edit_message B tok Nul cid mid message) \<lparr>next_blk = 0, freed = [], bad = False\<rparr>)"

lemma edit_message_run:
  "run_state (edit_message B Nul cid mid (on_stack (embed_message text color))) s =
    ((), s\<lparr>app_sent := app_sent s @ [edit_request B (ws_token (b_client (app_bot s))) cid mid (on_stack (embed_message text color))]\<rparr>)"
proof -
  have "length (message_url cid mid) < 100"
    using length_show_u64 [of cid] length_show_u64 [of mid] by (simp add: message_url_def channel_url_def)
  then have "\<exists>r. discord_channel_edit_message B tok Nul cid mid (on_stack (embed_message text color)) = State_Monad.return r" for tok
    by (auto simp: discord_channel_edit_message_def print_into_def file_names_def on_stack_def embed_message_def
        zero_message_def add_embeds_def create_embed_json_def zero_embed_def add_allowed_mentions_def elems_def Let_def)
  then have "run_state (discord_channel_edit_message B tok Nul cid mid (on_stack (embed_message text color))) m =
      (edit_request B tok cid mid (on_stack (embed_message text color)), m)" for tok m
    unfolding edit_request_def by (metis State_Monad.run_state_return fst_conv)
  then show ?thesis by (simp add: edit_message_def in_app_run in_bot_run in_memory_def split_beta)
qed

lemma print_into_run: "run_state (print_into n t) m = (t, m\<lparr>bad := bad m \<or> n \<le> length t\<rparr>)"
  by (simp add: print_into_def fault_def)

text \<open>Destroying a message if there is one.\<close>

definition opt_blocks :: "discord_message ptr \<Rightarrow> nat list \<Rightarrow> bool" where
  "opt_blocks p fs \<longleftrightarrow> mset fs + mset (message_leaks p) = mset (message_blocks p)"

lemma destroy_when_run:
  assumes "message_ok p"
  obtains fs where "run_state (app_mem_do (when_ptr destroy_message p)) s =
      ((), with_memory ((app_memory s)\<lparr>freed := freed (app_memory s) @ fs\<rparr>) s)" "opt_blocks p fs"
proof (cases "p = Nul")
  case True
  then show thesis by (intro that [of "[]"]) (simp_all add: when_ptr_def opt_blocks_def mem_do_run)
next
  case False
  from destroy_message_run [OF assms this, of s] obtain fs where
    "run_state (app_mem_do (destroy_message p)) s = ((), with_memory ((app_memory s)\<lparr>freed := freed (app_memory s) @ fs\<rparr>) s)"
    "mset fs + mset (message_leaks p) = mset (message_blocks p)" .
  with False show thesis by (intro that [of fs]) (cases p; simp add: when_ptr_def opt_blocks_def)+
qed

lemma destroy_bad:
  "message_ok p \<Longrightarrow> bad (app_memory (snd (run_state (app_mem_do (when_ptr destroy_message p)) s))) = bad (app_memory s)"
  "message_ok p \<Longrightarrow> p \<noteq> Nul \<Longrightarrow>
    bad (app_memory (snd (run_state (app_mem_do (destroy_message p)) s))) = bad (app_memory s)"
  by (erule destroy_when_run [of p s], simp) (erule destroy_message_run [of p s], simp_all)

lemma app_get_run [simp]: "run_state (in_app (State (\<lambda>t. (f t, t)))) s = (f (app_bot s), s)"
  by (simp add: in_app_run)

lemma with_memory_fields [simp]:
  "b_now (app_bot (with_memory m s)) = b_now (app_bot s)" "b_latency (app_bot (with_memory m s)) = b_latency (app_bot s)"
  "view (app_bot (with_memory m s)) = view (app_bot s)" "b_threads (app_bot (with_memory m s)) = b_threads (app_bot s)"
  by (simp_all add: with_memory_def view_def)

end
