(* ===== verification/Example_Counter.thy ===== *)
theory Example_Counter
  imports Example_Client Start
begin

text \<open>
  The counting bot (\<open>src/examples/example_counter/main.c\<close>): whoever is watched sends a number into the
  counting channel and the bot answers with the next one. The static variables are the state; \<open>int\<close>
  values are integers whose one overflow, of \<open>n + 1\<close>, is a fault.
\<close>

section \<open>The code\<close>

record 'm counter = "'m app" +
  ct_count :: int
  ct_watch :: u64

definition count_channel_id :: u64 where "count_channel_id = 996746797236105236"
definition owner_id :: u64 where "owner_id = 205704051856244736"

text \<open>\<open>strtol(s, NULL, 10)\<close>, whose result saturates, and the conversion of \<open>long\<close> to \<open>int\<close>, which wraps.\<close>

definition strtol10 :: "string \<Rightarrow> int" where
  "strtol10 s =
     (let s1 = dropWhile is_space_char s;
          neg = (s1 \<noteq> [] \<and> hd s1 = CHR ''-'');
          s2 = (if s1 \<noteq> [] \<and> (hd s1 = CHR ''-'' \<or> hd s1 = CHR ''+'') then tl s1 else s1);
          v = int (parse_digits (takeWhile is_digit_char s2))
      in if neg then max (- (2 ^ 63)) (- v) else min (2 ^ 63 - 1) v)"

definition int_of_long :: "int \<Rightarrow> int" where
  "int_of_long = signed_take_bit 31"

text \<open>One call of \<open>strtok_r(rest, " ", &rest)\<close>: the token, if there is one, and what is left.\<close>

definition strtok_space :: "string \<Rightarrow> string option \<times> string" where
  "strtok_space s =
     (let s1 = dropWhile (\<lambda>c. c = CHR '' '') s
      in if s1 = [] then (None, []) else (Some (takeWhile (\<lambda>c. c \<noteq> CHR '' '') s1), tl (dropWhile (\<lambda>c. c \<noteq> CHR '' '') s1)))"

definition count_text :: "int \<Rightarrow> string" where
  "count_text n = ''Count = `'' @ show_int n @ ''`''"

definition watch_text :: "u64 \<Rightarrow> string" where
  "watch_text w = (if w = 0 then ''Watch = nobody <:sadge:851469686578741298>'' else ''Watch = <@'' @ show_u64 w @ ''>'')"

definition cmd_count :: "'j json_builder \<Rightarrow> message_fields \<Rightarrow> ('m counter, unit) state" where
  "cmd_count B message = do {
     n \<leftarrow> State (\<lambda>s. (ct_count s, s));
     text \<leftarrow> app_mem_do (print_into 40 (count_text n));
     send_message B Nul (ms_channel_id message) (on_stack (embed_message text 0xadd8e6)) False }"

text \<open>The tokens are cut in place in the content, which is not read again before it is freed.\<close>

definition cmd_watch :: "'j json_builder \<Rightarrow> message_fields \<Rightarrow> string \<Rightarrow> ('m counter, unit) state" where
  "cmd_watch B message content = do {
     let rest = snd (strtok_space content);
     let token = fst (strtok_space rest);
     _ \<leftarrow> (case token of
             None \<Rightarrow> State_Monad.return ()
           | Some t \<Rightarrow> State (\<lambda>s. ((), s\<lparr>ct_watch := strtoull10 t\<rparr>)));
     w \<leftarrow> State (\<lambda>s. (ct_watch s, s));
     text \<leftarrow> app_mem_do (print_into 50 (watch_text w));
     send_message B Nul (ms_channel_id message) (on_stack (embed_message text 0xadd8e6)) False }"

definition send_count :: "'j json_builder \<Rightarrow> int \<Rightarrow> ('m counter, unit) state" where
  "send_count B n = do {
     text \<leftarrow> app_mem_do (print_into 20 (show_int n));
     send_message B (on_stack text) count_channel_id Nul False }"

text \<open>\<open>n + 1\<close> in \<open>int\<close>.\<close>

definition int_succ :: "int \<Rightarrow> ('m counter, int) state" where
  "int_succ n =
     (if n = 2 ^ 31 - 1 then do { _ \<leftarrow> app_mem_do fault; State_Monad.return (- (2 ^ 31)) } else State_Monad.return (n + 1))"

text \<open>\<open>message->user->id\<close>.\<close>

definition user_id :: "message_fields \<Rightarrow> ('m counter, u64) state" where
  "user_id message =
     (case ms_user message of
        Nul \<Rightarrow> do { _ \<leftarrow> app_mem_do fault; State_Monad.return 0 }
      | Ptr _ u \<Rightarrow> State_Monad.return (us_id u))"

text \<open>What \<open>on_message\<close> does before its \<open>cleanup\<close>, to a message with a content and a member.\<close>

definition counter_commands :: "'j json_builder \<Rightarrow> message_fields \<Rightarrow> string \<Rightarrow> ('m counter, unit) state" where
  "counter_commands B message content =
     (if strncmp_eq content ''-count'' 6 then cmd_count B message
      else do {
        u \<leftarrow> user_id message;
        if u = owner_id \<and> strncmp_eq content ''-watch'' 6 then cmd_watch B message content
        else do {
          watched \<leftarrow> State (\<lambda>s. (ct_watch s, s));
          if (u \<noteq> owner_id \<and> u \<noteq> watched) \<or> ms_channel_id message \<noteq> count_channel_id
          then State_Monad.return ()
          else do {
            let n = int_of_long (strtol10 content);
            c \<leftarrow> State (\<lambda>s. (ct_count s, s));
            if c \<le> n then do {
              _ \<leftarrow> State (\<lambda>s. ((), s\<lparr>ct_count := n\<rparr>));
              n1 \<leftarrow> int_succ n;
              send_count B n1 }
            else State_Monad.return () } } })"

definition counter_on_message :: "'j json_builder \<Rightarrow> discord_message ptr \<Rightarrow> ('m counter, unit) state" where
  "counter_on_message B p =
     (case p of
        Nul \<Rightarrow> app_mem_do fault
      | Ptr _ (Message message _ _) \<Rightarrow> do {
          _ \<leftarrow> (case (ms_content message, ms_member message) of
                  (Ptr _ content, Ptr _ _) \<Rightarrow> counter_commands B message content
                | _ \<Rightarrow> State_Monad.return ());
          app_mem_do (destroy_message p) })"

definition counter_callbacks :: discord_event_callbacks where
  "counter_callbacks = \<lparr>on_ready = True, on_message = True, on_message_edit = False, on_message_delete = False,
     on_channel_create = False, on_channel_update = False, on_channel_delete = False, on_interaction_create = False\<rparr>"

definition counter_config :: discord_config where
  "counter_config = \<lparr>message_cache_size = 2, channel_cache_size = 0, guild_cache_size = 0, cache_callback = None\<rparr>"

definition counter_call :: "'j json_builder \<Rightarrow> bot_call \<Rightarrow> ('m counter, unit) state" where
  "counter_call B c =
     (case c of On_Ready \<Rightarrow> app_on_ready | On_Message q \<Rightarrow> counter_on_message B q | _ \<Rightarrow> State_Monad.return ())"

fun counter_all :: "'j json_builder \<Rightarrow> discord_message ptr list \<Rightarrow> ('m counter, unit) state" where
  "counter_all B [] = State_Monad.return ()"
| "counter_all B (p # ps) = do { _ \<leftarrow> counter_on_message B p; counter_all B ps }"

section \<open>What the bot is to do\<close>

text \<open>What a message of a guild says: the fields and the content.\<close>

definition spoken :: "discord_message ptr \<Rightarrow> (message_fields \<times> string) option" where
  "spoken p =
     (case p of Nul \<Rightarrow> None
      | Ptr _ (Message x _ _) \<Rightarrow>
          (case (ms_content x, ms_member x) of (Ptr _ content, Ptr _ _) \<Rightarrow> Some (x, content) | _ \<Rightarrow> None))"

definition sender :: "message_fields \<Rightarrow> u64" where
  "sender x = (case ms_user x of Nul \<Rightarrow> 0 | Ptr _ u \<Rightarrow> us_id u)"

definition is_command :: "message_fields \<times> string \<Rightarrow> bool" where
  "is_command xc \<longleftrightarrow> take 6 (snd xc) = ''-count'' \<or> sender (fst xc) = owner_id \<and> take 6 (snd xc) = ''-watch''"

text \<open>The number a message plays, while \<open>w\<close> is watched.\<close>

definition played :: "u64 \<Rightarrow> discord_message ptr \<Rightarrow> int list" where
  "played w p =
     (case spoken p of None \<Rightarrow> []
      | Some xc \<Rightarrow>
          if \<not> is_command xc \<and> sender (fst xc) \<in> {owner_id, w} \<and> ms_channel_id (fst xc) = count_channel_id
          then [int_of_long (strtol10 (snd xc))] else [])"

definition watched :: "u64 \<Rightarrow> discord_message ptr \<Rightarrow> u64" where
  "watched w p =
     (case spoken p of None \<Rightarrow> w
      | Some xc \<Rightarrow>
          if sender (fst xc) = owner_id \<and> take 6 (snd xc) = ''-watch''
          then (case fst (strtok_space (snd (strtok_space (snd xc)))) of None \<Rightarrow> w | Some t \<Rightarrow> strtoull10 t)
          else w)"

fun numbers :: "u64 \<Rightarrow> discord_message ptr list \<Rightarrow> int list" where
  "numbers w [] = []"
| "numbers w (p # ps) = played w p @ numbers (watched w p) ps"

text \<open>The numbers that no number before them, nor \<open>c\<close>, exceeds.\<close>

definition weak_records :: "int \<Rightarrow> int list \<Rightarrow> int list" where
  "weak_records c xs = map ((!) xs) (filter (\<lambda>i. c \<le> xs ! i \<and> (\<forall>j < i. xs ! j \<le> xs ! i)) [0 ..< length xs])"

lemma weak_records_simps [simp]:
  "weak_records c [] = []"
  "weak_records c (x # xs) = (if c \<le> x then x # weak_records x xs else weak_records c xs)"
proof -
  have split: "filter P [0 ..< Suc n] = (if P 0 then [0] else []) @ map Suc (filter (P \<circ> Suc) [0 ..< n])" for P n
    by (simp add: upt_conv_Cons map_Suc_upt [symmetric] filter_map del: upt_Suc)
  show "weak_records c (x # xs) = (if c \<le> x then x # weak_records x xs else weak_records c xs)"
    unfolding weak_records_def list.size add_0_right add_Suc_right split
    by (auto simp: comp_def All_less_Suc2 intro!: arg_cong [of _ _ "map ((!) xs)"] filter_cong)
qed (simp add: weak_records_def)

datatype reply = Count_Is u64 int | Watching u64 u64 | Next int

fun reply_request :: "'j json_builder \<Rightarrow> string \<Rightarrow> reply \<Rightarrow> queued_request" where
  "reply_request B tok (Count_Is cid n) = sent_request B tok Nul cid (on_stack (embed_message (count_text n) 0xadd8e6)) False"
| "reply_request B tok (Watching cid w) = sent_request B tok Nul cid (on_stack (embed_message (watch_text w) 0xadd8e6)) False"
| "reply_request B tok (Next n) = sent_request B tok (on_stack (show_int n)) count_channel_id Nul False"

definition nexts :: "reply list \<Rightarrow> int list" where
  "nexts rs = concat (map (\<lambda>r. case r of Next n \<Rightarrow> [n] | _ \<Rightarrow> []) rs)"

definition is_int :: "int \<Rightarrow> bool" where
  "is_int n \<longleftrightarrow> - (2 ^ 31) \<le> n \<and> n < 2 ^ 31"

lemma int_of_long_is_int: "is_int (int_of_long n)"
  using signed_take_bit_int_greater_eq_minus_exp [of 31 n] signed_take_bit_int_less_exp [of 31 n]
  by (simp add: is_int_def int_of_long_def)

text \<open>A message of a guild has an author, and is a structure of its own.\<close>

definition playable :: "discord_message ptr \<Rightarrow> bool" where
  "playable p \<longleftrightarrow> p \<noteq> Nul \<and> message_ok p \<and> (\<forall>xc. spoken p = Some xc \<longrightarrow> ms_user (fst xc) \<noteq> Nul)"

section \<open>The bot does it\<close>

lemma texts_fit:
  "is_int n \<Longrightarrow> print_into 40 (count_text n) = State_Monad.return (count_text n)"
  "print_into 50 (watch_text w) = State_Monad.return (watch_text w)"
  "is_int n \<Longrightarrow> print_into 20 (show_int n) = State_Monad.return (show_int n)"
  using length_show_int [of n] length_show_u64 [of w]
  by (simp_all add: print_into_def count_text_def watch_text_def is_int_def)

lemma get_run: "run_state (State_Monad.bind (State (\<lambda>s. (f s, s))) k) s = run_state (k (f s)) s"
  by simp

lemma return_in_app [simp]: "in_app (in_bot (in_memory (State_Monad.return v))) = State_Monad.return v"
  by (rule state.expand) (auto simp: in_app_def in_bot_def in_memory_def State_Monad.return_def)

lemma cmd_count_run:
  assumes "is_int (ct_count s)"
  shows "run_state (cmd_count B x) s = ((), s\<lparr>app_sent := app_sent s @
    [reply_request B (ws_token (b_client (app_bot s))) (Count_Is (ms_channel_id x) (ct_count s))]\<rparr>)"
  using assms by (simp add: cmd_count_def texts_fit send_message_run)

lemma cmd_watch_run:
  "run_state (cmd_watch B x content) s =
    (let w = (case fst (strtok_space (snd (strtok_space content))) of None \<Rightarrow> ct_watch s | Some t \<Rightarrow> strtoull10 t)
     in ((), s\<lparr>app_sent := app_sent s @ [reply_request B (ws_token (b_client (app_bot s))) (Watching (ms_channel_id x) w)],
               ct_watch := w\<rparr>))"
  by (simp add: cmd_watch_def Let_def texts_fit send_message_run split: option.split)

lemma send_count_run:
  assumes "is_int n"
  shows "run_state (send_count B n) s =
    ((), s\<lparr>app_sent := app_sent s @ [reply_request B (ws_token (b_client (app_bot s))) (Next n)]\<rparr>)"
  using assms by (simp add: send_count_def texts_fit send_message_run)

lemma commands_run:
  assumes p: "spoken p = Some (x, content)" "ms_user x \<noteq> Nul"
    and n: "is_int (ct_count s)" "2 ^ 31 - 1 \<notin> set (played (ct_watch s) p)"
  obtains rs where "run_state (counter_commands B x content) s = ((), s\<lparr>
      app_sent := app_sent s @ map (reply_request B (ws_token (b_client (app_bot s)))) rs,
      ct_count := fold max (played (ct_watch s) p) (ct_count s), ct_watch := watched (ct_watch s) p\<rparr>)"
    "nexts rs = map (\<lambda>n. n + 1) (weak_records (ct_count s) (played (ct_watch s) p))"
proof -
  have user: "user_id x = State_Monad.return (sender x)"
    using p(2) by (cases "ms_user x") (simp_all add: user_id_def sender_def)
  let ?n = "int_of_long (strtol10 content)"
  have "played (ct_watch s) p = [] \<or> played (ct_watch s) p = [?n]" using p(1) by (simp add: played_def)
  then consider (count) "take 6 content = ''-count''"
    | (watch) "take 6 content \<noteq> ''-count''" "sender x = owner_id" "take 6 content = ''-watch''"
    | (none) "\<not> is_command (x, content)" "played (ct_watch s) p = []"
    | (play) "\<not> is_command (x, content)" "played (ct_watch s) p = [?n]"
    unfolding is_command_def fst_conv snd_conv by blast
  then show thesis
  proof cases
    case count
    then show thesis using p(1) n(1)
      by (intro that [of "[Count_Is (ms_channel_id x) (ct_count s)]"])
        (simp_all add: counter_commands_def strncmp_eq_take cmd_count_run played_def watched_def is_command_def nexts_def)
  next
    case watch
    then show thesis using p(1)
      by (intro that [of "[Watching (ms_channel_id x) (watched (ct_watch s) p)]"])
        (simp_all add: counter_commands_def strncmp_eq_take cmd_watch_run user played_def watched_def is_command_def
          nexts_def Let_def)
  next
    case none
    then show thesis using p(1)
      by (intro that [of "[]"])
        (auto simp: counter_commands_def strncmp_eq_take user played_def watched_def is_command_def nexts_def
          split: if_splits)
  next
    case play
    have int: "is_int ?n" "?n \<noteq> 2 ^ 31 - 1" using play(2) n(2) int_of_long_is_int by auto
    then have succ: "int_succ ?n = State_Monad.return (?n + 1)" "is_int (?n + 1)"
      by (simp_all add: int_succ_def is_int_def)
    show thesis using p(1) play
      by (intro that [of "if ct_count s \<le> ?n then [Next (?n + 1)] else []"])
        (auto simp: counter_commands_def strncmp_eq_take user played_def watched_def is_command_def nexts_def
          Let_def succ send_count_run max_def split: if_splits)
  qed
qed

lemma counter_memory_simps [simp]:
  "ct_count (with_memory m s) = ct_count s" "ct_watch (with_memory m s) = ct_watch s"
  "app_memory (s\<lparr>ct_count := n\<rparr>) = app_memory s" "app_memory (s\<lparr>ct_watch := w\<rparr>) = app_memory s"
  "app_bot (s\<lparr>ct_count := n\<rparr>) = app_bot s" "app_bot (s\<lparr>ct_watch := w\<rparr>) = app_bot s"
  by (simp_all add: with_memory_def app_memory_def)

lemma on_message_run:
  fixes s :: "'m counter"
  assumes p: "playable p" and n: "is_int (ct_count s)" "2 ^ 31 - 1 \<notin> set (played (ct_watch s) p)"
  obtains rs fs where "run_state (counter_on_message B p) s =
      ((), with_memory ((app_memory s)\<lparr>freed := freed (app_memory s) @ fs\<rparr>) (s\<lparr>
      app_sent := app_sent s @ map (reply_request B (ws_token (b_client (app_bot s)))) rs,
      ct_count := fold max (played (ct_watch s) p) (ct_count s), ct_watch := watched (ct_watch s) p\<rparr>))"
    "nexts rs = map (\<lambda>n. n + 1) (weak_records (ct_count s) (played (ct_watch s) p))"
    "mset fs + mset (message_leaks p) = mset (message_blocks p)"
proof -
  have ok: "message_ok p" "p \<noteq> Nul" using p by (simp_all add: playable_def)
  then obtain b x r i where m: "p = Ptr b (Message x r i)" by (metis ptr.exhaust discord_message.exhaust)
  let ?commands = "(case (ms_content x, ms_member x) of (Ptr _ content, Ptr _ _) \<Rightarrow> counter_commands B x content
    | _ \<Rightarrow> State_Monad.return ()) :: ('m counter, unit) state"
  obtain rs where rs: "run_state ?commands s = ((), s\<lparr>
      app_sent := app_sent s @ map (reply_request B (ws_token (b_client (app_bot s)))) rs,
      ct_count := fold max (played (ct_watch s) p) (ct_count s), ct_watch := watched (ct_watch s) p\<rparr>)"
    "nexts rs = map (\<lambda>n. n + 1) (weak_records (ct_count s) (played (ct_watch s) p))"
  proof (cases "spoken p")
    case None
    then show thesis
      by (intro that [of "[]"])
        (auto simp: m spoken_def played_def watched_def nexts_def split: ptr.splits)
  next
    case (Some xc)
    then obtain content where c: "xc = (x, content)" "?commands = counter_commands B x content"
      by (auto simp: m spoken_def split: ptr.splits)
    have "ms_user x \<noteq> Nul" using p Some c(1) by (auto simp: playable_def)
    from Some [unfolded c(1)] this n show thesis
      by (rule commands_run [where B = B]) (rule that, simp_all only: c(2))
  qed
  let ?t = "s\<lparr>app_sent := app_sent s @ map (reply_request B (ws_token (b_client (app_bot s)))) rs,
      ct_count := fold max (played (ct_watch s) p) (ct_count s), ct_watch := watched (ct_watch s) p\<rparr>"
  obtain fs where fs: "run_state (app_mem_do (destroy_message p)) ?t =
      ((), with_memory ((app_memory ?t)\<lparr>freed := freed (app_memory ?t) @ fs\<rparr>) ?t)"
    "mset fs + mset (message_leaks p) = mset (message_blocks p)"
    by (rule destroy_message_run [OF ok])
  have "run_state (counter_on_message B p) s = run_state (app_mem_do (destroy_message p)) ?t"
    by (simp add: counter_on_message_def m rs(1) [unfolded m, simplified])
  with fs rs(2) that show thesis by simp
qed

lemma fold_max_append: "weak_records c (xs @ ys) = weak_records c xs @ weak_records (fold max xs c) ys"
  by (induction xs arbitrary: c) (auto simp: max_def)

lemma nexts_append: "nexts (rs @ qs) = nexts rs @ nexts qs"
  by (simp add: nexts_def)

lemma played_is_int: "is_int c \<Longrightarrow> is_int (fold max (played w p) c)"
  using int_of_long_is_int by (auto simp: played_def max_def split: option.splits)



section \<open>The owner counts to five and on\<close>

definition owner_user :: discord_user where
  "owner_user = \<lparr>us_id = owner_id, us_username = Nul, us_discriminator = Nul, us_avatar = Nul, us_bot = False,
     us_system = False, us_mfa_enabled = False, us_banner = Nul, us_accent_color = 0, us_locale = Nul,
     us_verified = False, us_email = Nul, us_flags = 0, us_premium_type = 0, us_public_flags = 0\<rparr>"

definition owner_member :: "discord_user ptr \<Rightarrow> discord_member" where
  "owner_member u = \<lparr>mb_user = u, mb_nick = Nul, mb_avatar = Nul, mb_roles = Nul, mb_joined_at = Nul,
     mb_premium_since = Nul, mb_deaf = False, mb_mute = False, mb_pending = False, mb_permissions = Nul,
     mb_communication_disabled_until = Nul\<rparr>"

definition said :: "string \<Rightarrow> nat \<Rightarrow> discord_message ptr" where
  "said text b = Ptr b (Message (five_fields\<lparr>ms_id := 6, ms_channel_id := count_channel_id,
     ms_user := Ptr (b + 1) owner_user, ms_member := Ptr (b + 2) (owner_member (Ptr (b + 1) owner_user)),
     ms_content := Ptr (b + 3) text\<rparr>) Nul Nul)"

definition said_json :: "string \<Rightarrow> jval" where
  "said_json text = JObj [(''id'', JStr ''6''), (''channel_id'', JStr (show_u64 count_channel_id)),
     (''content'', JStr text), (''author'', JObj [(''id'', JStr (show_u64 owner_id))]), (''member'', JObj [])]"

lemma said_ok:
  "playable (said text b)" "message_copyable (said text b)" "message_id (said text b) = 6"
  "spoken (said text b) = Some (five_fields\<lparr>ms_id := 6, ms_channel_id := count_channel_id,
     ms_user := Ptr (b + 1) owner_user, ms_member := Ptr (b + 2) (owner_member (Ptr (b + 1) owner_user)),
     ms_content := Ptr (b + 3) text\<rparr>, text)"
  by (simp_all add: said_def playable_def spoken_def five_fields_def message_fields_ok_def member_ok_def
      owner_member_def arr_ok_def ids_ok_def nul_array_def channel_ok_def channel_icon_def message_id_def)

lemma said_plays:
  "take 6 text \<notin> {''-count'', ''-watch''} \<Longrightarrow> played w (said text b) = [int_of_long (strtol10 text)]"
  "take 6 text \<notin> {''-count'', ''-watch''} \<Longrightarrow> watched w (said text b) = w"
  by (simp_all add: played_def watched_def said_ok is_command_def sender_def owner_user_def)

lemma digits: "int_of_long (strtol10 ''5'') = 5" "int_of_long (strtol10 ''3'') = 3" "int_of_long (strtol10 ''7'') = 7"
  by (simp_all add: int_of_long_def strtol10_def is_space_char_def is_digit_char_def parse_digits_def digit_value_def
      signed_take_bit_int_eq_self)

definition counter_start :: "(u64 \<Rightarrow> addr) counter" where
  "counter_start = \<lparr>app_bot = three_bot, app_sent = [], app_printed = [], ct_count = 0, ct_watch = 0\<rparr>"


text \<open>The largest \<open>int\<close> is accepted as a number, and \<open>n + 1\<close> overflows.\<close>

lemma largest_int_overflows:
  "bad (app_memory (snd (run_state (counter_on_message small_builder (said ''2147483647'' 10)) counter_start)))"
proof -
  have n: "int_of_long (strtol10 ''2147483647'') = 2147483647"
    by (simp add: int_of_long_def strtol10_def is_space_char_def is_digit_char_def parse_digits_def digit_value_def
        signed_take_bit_int_eq_self)
  have out: "print_into 20 (show_int (- 2147483648)) = State_Monad.return (show_int (- 2147483648))"
    by (rule texts_fit) (simp add: is_int_def)
  let ?x = "five_fields\<lparr>ms_id := 6, ms_channel_id := count_channel_id, ms_user := Ptr 11 owner_user,
      ms_member := Ptr 12 (owner_member (Ptr 11 owner_user)), ms_content := Ptr 13 ''2147483647''\<rparr>"
  let ?t = "snd (run_state (counter_commands small_builder ?x ''2147483647'') counter_start)"
  have t: "bad (app_memory ?t)"
    by (simp add: counter_commands_def strncmp_eq_take user_id_def owner_user_def n int_succ_def send_count_def out
        counter_start_def five_fields_def mem_do_run fault_def send_message_run)
  have ok: "message_ok (said ''2147483647'' 10)" "said ''2147483647'' 10 \<noteq> Nul"
    using said_ok(1) [of "''2147483647''" 10] by (simp_all add: playable_def)
  obtain fs where "run_state (app_mem_do (destroy_message (said ''2147483647'' 10))) ?t =
      ((), with_memory ((app_memory ?t)\<lparr>freed := freed (app_memory ?t) @ fs\<rparr>) ?t)"
    by (rule destroy_message_run [OF ok])
  with t show ?thesis
    by (simp add: said_def counter_on_message_def split_beta five_fields_def)
qed

lemma said_run: "run_state (json_to_message small_json (Suc k) (Some (said_json ''5''))) m =
    (said ''5'' (next_blk m), m\<lparr>next_blk := next_blk m + 4\<rparr>)"
proof -
  have six: "strtoull10 ''6'' = 6"
    by (simp add: strtoull10_def is_space_char_def is_digit_char_def parse_digits_def digit_value_def)
  show ?thesis
    by (simp add: said_json_def read_message_def fresh_blk_def free_blk_def read_item_def Let_def json_to_user_def
        json_to_member_def json_message_content_def get_array_from_json_def get_ids_from_json_def stub_defs
        said_def five_fields_def owner_user_def owner_member_def six)
qed

lemma said_copied: "run_state (copy_message (said ''5'' b)) m =
    (said ''5'' (next_blk m), m\<lparr>next_blk := next_blk m + 4\<rparr>)"
  by (simp add: said_def copy_message_reference_def copy_message_body_def five_fields_def fresh_blk_def copy_str_def
      copy_array_def copy_ids_def copy_member_def copy_user_def copy_channel_def stub_defs strndup_def
      owner_user_def owner_member_def)

lemma said_json_ok: "json_depth small_json (Suc (Suc (Suc k))) (said_json text)"
    "message_json_ok small_json (Suc k) (Some (said_json text))"
  using json_ok_None [OF small_json_laws] by (simp_all add: said_json_def ids_json_ok_def)


end
