(* ===== verification/Example_Bot.thy ===== *)
theory Example_Bot
  imports Example_Client Start Interaction_Reply
begin

text \<open>
  The example bot (\<open>src/examples/example_bot_1\<close>): a few commands, reports of edited and deleted
  messages and of channels, and one slash command. What it logs is printed without the date.
\<close>

section \<open>Messages\<close>

text \<open>The numbers are \<open>long\<close> and are printed with \<open>%lu\<close>.\<close>

definition show_long :: "int \<Rightarrow> string" where
  "show_long n = show_u64 (word_of_int n)"

definition pong_text :: "int \<Rightarrow> int \<Rightarrow> string" where
  "pong_text delta heartbeat = ''Ping: '' @ show_long delta @ '' ms'' @ [CHR 0x0A] @ ''Heartbeat: '' @ show_long heartbeat @ '' ms''"

text \<open>
  \<open>start\<close> is what \<open>data\<close> points to, which is not freed. The library calls it with NULL when it gets no
  message.
\<close>

definition pong_callback :: "'j json_builder \<Rightarrow> discord_message ptr \<Rightarrow> timeval \<Rightarrow> ('m app, unit) state" where
  "pong_callback B msg start = do {
     stop \<leftarrow> in_app (State (\<lambda>s. (b_now s, s)));
     heartbeat \<leftarrow> in_app (State (\<lambda>s. (b_latency s, s)));
     text \<leftarrow> app_mem_do (print_into 32 (pong_text (latency stop start) heartbeat));
     case msg of
       Nul \<Rightarrow> app_mem_do fault
     | Ptr _ (Message x _ _) \<Rightarrow> do {
         _ \<leftarrow> edit_message B Nul (ms_channel_id x) (ms_id x) (on_stack (embed_message text 0x8000));
         app_mem_do (destroy_message msg) } }"

text \<open>\<open>malloc\<close> of the time and of the callback; the reply goes to \<open>pong_callback\<close>.\<close>

definition send_ping :: "'j json_builder \<Rightarrow> message_fields \<Rightarrow> ('m app, unit) state" where
  "send_ping B message = do {
     _ \<leftarrow> app_mem_do fresh_blk;
     _ \<leftarrow> app_mem_do fresh_blk;
     send_message B Nul (ms_channel_id message) (on_stack (embed_message ''Pinging...'' 0x8000)) True }"

definition cat_attachment :: discord_attachment where
  "cat_attachment = \<lparr>at_id = 0, at_filename = on_stack ''cat.jpeg'', at_description = on_stack ''Pic of a cat'',
     at_content_type = Nul, at_size = 0, at_url = Nul, at_proxy_url = Nul, at_height = 0, at_width = 0,
     at_ephemeral = False\<rparr>"

definition send_pic :: "'j json_builder \<Rightarrow> message_fields \<Rightarrow> ('m app, unit) state" where
  "send_pic B message =
     send_message B (on_stack ''pic'') (ms_channel_id message)
       (on_stack (zero_message\<lparr>cm_attachments := on_stack [on_stack cat_attachment]\<rparr>)) False"

definition sent_by_bot :: "message_fields \<Rightarrow> bool" where
  "sent_by_bot x = (case ms_user x of Nul \<Rightarrow> False | Ptr _ u \<Rightarrow> us_bot u)"

definition example_on_message :: "'j json_builder \<Rightarrow> discord_message ptr \<Rightarrow> ('m app, unit) state" where
  "example_on_message B p =
     (case p of
        Nul \<Rightarrow> app_mem_do fault
      | Ptr _ (Message message _ _) \<Rightarrow>
          (case ms_content message of
             Nul \<Rightarrow> app_mem_do (destroy_message p)
           | Ptr _ content \<Rightarrow>
               if sent_by_bot message then do {
                 _ \<leftarrow> print_line ''User is a bot. Ignoring'';
                 app_mem_do (destroy_message p) }
               else if strncmp_eq content ''!ping'' 6 then do {
                 _ \<leftarrow> send_ping B message;
                 app_mem_do (destroy_message p) }
               else if strncmp_eq content ''!exit'' 6 then do {
                 _ \<leftarrow> app_mem_do (destroy_message p);
                 in_app websocket_exit }
               else if strncmp_eq content ''!pic'' 3 then do {
                 _ \<leftarrow> send_pic B message;
                 app_mem_do (destroy_message p) }
               else if strncmp_eq content ''!r'' 3 then do {
                 _ \<leftarrow> in_app websocket_reconnect;
                 app_mem_do (destroy_message p) }
               else app_mem_do (destroy_message p)))"

definition edit_text :: "u64 \<Rightarrow> discord_message ptr \<Rightarrow> string" where
  "edit_text new_id old =
     ''Message '' @ show_u64 new_id @ '' was edited. Message in cache: '' @
     (if old = Nul then ''No'' else ''Yes'') @ ''. Old message ID = '' @ show_u64 (message_id old)"

definition example_on_edit ::
  "'j json_builder \<Rightarrow> discord_message ptr \<Rightarrow> discord_message ptr \<Rightarrow> ('m app, unit) state" where
  "example_on_edit B old new =
     (case new of
        Nul \<Rightarrow> app_mem_do fault
      | Ptr _ (Message x _ _) \<Rightarrow> do {
          content \<leftarrow> app_mem_do (print_into 120 (edit_text (ms_id x) old));
          _ \<leftarrow> send_message B (on_stack content) (ms_channel_id x) Nul False;
          _ \<leftarrow> app_mem_do (when_ptr destroy_message old);
          app_mem_do (when_ptr destroy_message new) })"

definition deleted_cached_text :: "u64 \<Rightarrow> string" where
  "deleted_cached_text i = ''Cache: Yes'' @ [CHR 0x0A] @ ''ID: `'' @ show_u64 i @ ''`''"

definition deleted_text :: "u64 \<Rightarrow> u64 \<Rightarrow> u64 \<Rightarrow> string" where
  "deleted_text i cid gid =
     ''Cache: No'' @ [CHR 0x0A] @ ''ID: '' @ show_u64 i @ '', channel ID: '' @ show_u64 cid @ '', guild ID: '' @ show_u64 gid"

definition example_on_delete ::
  "'j json_builder \<Rightarrow> u64 \<Rightarrow> u64 \<Rightarrow> u64 \<Rightarrow> discord_message ptr \<Rightarrow> ('m app, unit) state" where
  "example_on_delete B i cid gid message = do {
     content \<leftarrow> app_mem_do (if message \<noteq> Nul then print_into 50 (deleted_cached_text i)
                            else print_into 100 (deleted_text i cid gid));
     _ \<leftarrow> send_message B (on_stack content) cid Nul False;
     app_mem_do (when_ptr destroy_message message) }"

section \<open>Channels\<close>

definition example_channel_create :: "discord_channel ptr \<Rightarrow> ('m app, unit) state" where
  "example_channel_create channel = do {
     _ \<leftarrow> (if channel = Nul then app_mem_do fault else State_Monad.return ());
     _ \<leftarrow> print_line (''Channel created with ID '' @ show_u64 (channel_id channel));
     app_mem_do (destroy_channel channel) }"

definition example_channel_update :: "discord_channel ptr \<Rightarrow> discord_channel ptr \<Rightarrow> ('m app, unit) state" where
  "example_channel_update old new = do {
     _ \<leftarrow> (if old \<noteq> Nul then print_line (''Channel in cache was updated: '' @ show_u64 (channel_id old))
           else do {
             _ \<leftarrow> (if new = Nul then app_mem_do fault else State_Monad.return ());
             print_line (''Channel NOT in cache was updated: '' @ show_u64 (channel_id new)) });
     _ \<leftarrow> app_mem_do (when_ptr destroy_channel old);
     app_mem_do (when_ptr destroy_channel new) }"

definition example_channel_delete :: "u64 \<Rightarrow> discord_channel ptr \<Rightarrow> ('m app, unit) state" where
  "example_channel_delete cid channel = do {
     _ \<leftarrow> print_line (if channel \<noteq> Nul then ''Channel in cache was deleted: '' @ show_u64 (channel_id channel)
           else ''Channel NOT in cache was deleted: '' @ show_u64 cid);
     app_mem_do (when_ptr destroy_channel channel) }"

section \<open>The slash command\<close>

definition hello_reply :: discord_interaction_callback where
  "hello_reply = \<lparr>ic_type = DISCORD_CALLBACK_CHANNEL_MESSAGE_WITH_SOURCE,
     ic_data = Reply_Message \<lparr>rm_tts = False, rm_content = on_stack ''Hello there'', rm_embeds = Nul,
       rm_allowed_mentions = Nul, rm_flags = 0, rm_components = Nul, rm_attachments = Nul\<rparr>\<rparr>"

definition hello_callback :: "'j json_builder \<Rightarrow> interaction_fields \<Rightarrow> ('m app, unit) state" where
  "hello_callback B x = do {
     tok \<leftarrow> in_app (State (\<lambda>s. (ws_token (b_client s), s)));
     q \<leftarrow> app_mem_do (discord_send_interaction B tok hello_reply x);
     State (\<lambda>s. ((), s\<lparr>app_sent := app_sent s @ [q]\<rparr>)) }"

definition hello_command :: discord_application_command where
  \<open>hello_command = \<lparr>ac_id = Nul, ac_type = 1, ac_guild_id = 944968090490380318, ac_name = on_stack ''hello'',
     ac_name_localizations = Nul, ac_description = on_stack ''Replies with "Hello"'',
     ac_description_localizations = Nul, ac_options = Nul, ac_default_member_permissions = Nul,
     ac_dm_permission = False, ac_default_permission = False, ac_version = 0\<rparr>\<close>

definition register_hello_command :: "'j json_builder \<Rightarrow> string \<Rightarrow> string \<Rightarrow> (mem, queued_request) state" where
  "register_hello_command B token1 application = discord_command_register B hello_command token1 application"

text \<open>The data and its name are dereferenced without a test.\<close>

definition example_interaction_create :: "'j json_builder \<Rightarrow> discord_interaction ptr \<Rightarrow> ('m app, unit) state" where
  "example_interaction_create B p =
     (case p of
        Nul \<Rightarrow> app_mem_do fault
      | Ptr _ (Interaction x _) \<Rightarrow> do {
          _ \<leftarrow> print_line (''Interaction: id = '' @ show_u64 (in_id x) @ '', type = '' @ show_int (in_type x) @
                 '', gid = '' @ show_u64 (in_guild_id x) @ '', cid = '' @ show_u64 (in_channel_id x));
          _ \<leftarrow> (case in_data x of
                  Nul \<Rightarrow> app_mem_do fault
                | Ptr _ data \<Rightarrow> do {
                    _ \<leftarrow> print_line (''Data: name = '' @ show_str (id_name data) @ '', custom_id = '' @ show_str (id_custom_id data));
                    case id_name data of
                      Nul \<Rightarrow> app_mem_do fault
                    | Ptr _ name \<Rightarrow> if name = ''hello'' then hello_callback B x else State_Monad.return () });
          app_mem_do (destroy_interaction p) })"

section \<open>The bot\<close>

definition example_callbacks :: discord_event_callbacks where
  "example_callbacks = \<lparr>on_ready = True, on_message = True, on_message_edit = True, on_message_delete = True,
     on_channel_create = True, on_channel_update = True, on_channel_delete = True, on_interaction_create = True\<rparr>"

definition example_config :: discord_config where
  "example_config = \<lparr>message_cache_size = 2, channel_cache_size = 0, guild_cache_size = 0, cache_callback = None\<rparr>"

text \<open>It is that of the counting bot, word for word.\<close>

definition example_on_ready :: "('m app, unit) state" where
  "example_on_ready = app_on_ready"

definition example_call :: "'j json_builder \<Rightarrow> bot_call \<Rightarrow> ('m app, unit) state" where
  "example_call B c =
     (case c of
        On_Ready \<Rightarrow> example_on_ready
      | On_Message q \<Rightarrow> example_on_message B q
      | On_Message_Edit old new \<Rightarrow> example_on_edit B old new
      | On_Message_Delete i cid gid q \<Rightarrow> example_on_delete B i cid gid q
      | On_Channel_Create c \<Rightarrow> example_channel_create c
      | On_Channel_Update old new \<Rightarrow> example_channel_update old new
      | On_Channel_Delete cid _ _ _ c \<Rightarrow> example_channel_delete cid c
      | On_Interaction_Create i \<Rightarrow> example_interaction_create B i)"

section \<open>The buffers\<close>

lemma text_lengths:
  "length (pong_text d h) = 24 + length (show_long d) + length (show_long h)"
  "length (deleted_text i c g) = 40 + length (show_u64 i) + length (show_u64 c) + length (show_u64 g)"
  "length (deleted_cached_text i) \<le> 37" "length (edit_text n old) \<le> 101"
  using length_show_u64 [of i] length_show_u64 [of n] length_show_u64 [of "message_id old"]
    length_show_u64 [of "message_id Nul"]
  by (simp_all add: pong_text_def deleted_text_def deleted_cached_text_def edit_text_def)

lemma twenty_digits: "20 \<le> length (show_u64 w) \<longleftrightarrow> 10 ^ 19 \<le> unat w"
proof -
  have "length (show_u64 w) \<le> 19 \<longleftrightarrow> unat w < 10 ^ 19"
    by (simp only: show_u64_def length_show_nat_le_iff zero_less_numeral)
  then show ?thesis by linarith
qed

lemma deleted_overflows:
  "100 \<le> length (deleted_text i c g) \<longleftrightarrow> 10 ^ 19 \<le> unat i \<and> 10 ^ 19 \<le> unat c \<and> 10 ^ 19 \<le> unat g"
  unfolding text_lengths twenty_digits [symmetric]
  using length_show_u64 [of i] length_show_u64 [of c] length_show_u64 [of g] by linarith

lemma pong_run:
  assumes "message_ok msg" and "msg = Ptr b (Message x r i)"
  shows "bad (app_memory (snd (run_state (pong_callback B msg start) s))) \<longleftrightarrow> bad (app_memory s) \<or>
    32 \<le> length (pong_text (latency (b_now (app_bot s)) start) (b_latency (app_bot s)))"
  using assms
  by (simp add: pong_callback_def split_beta destroy_bad mem_do_run [of "print_into _ _"] print_into_run edit_message_run)

text \<open>C37. The buffers of the example bot: the ping report overflows exactly when the two times, printed as
  unsigned numbers, have eight digits or more together; the report of an edit always fits, and that of
  a deletion unless the message was not cached and the IDs of message, channel and guild are all
  \<open>10 ^ 19\<close> or more. Nothing else that the three handlers do violates memory.\<close>

theorem example_buffers:
  assumes "message_ok msg" and "msg \<noteq> Nul" and "message_ok old"
  shows "(bad (app_memory (snd (run_state (pong_callback B msg start) s))) \<longleftrightarrow> bad (app_memory s) \<or>
      8 \<le> length (show_long (latency (b_now (app_bot s)) start)) + length (show_long (b_latency (app_bot s)))) \<and>
    bad (app_memory (snd (run_state (example_on_edit B old msg) s))) = bad (app_memory s) \<and>
    (bad (app_memory (snd (run_state (example_on_delete B i cid gid old) s))) \<longleftrightarrow> bad (app_memory s) \<or>
      old = Nul \<and> 10 ^ 19 \<le> unat i \<and> 10 ^ 19 \<le> unat cid \<and> 10 ^ 19 \<le> unat gid)"
proof -
  obtain b x r j where msg: "msg = Ptr b (Message x r j)" by (metis assms(2) ptr.exhaust discord_message.exhaust)
  have edit: "\<not> 120 \<le> length (edit_text n old)" for n using text_lengths(4) [of n old] by simp
  have cached: "\<not> 50 \<le> length (deleted_cached_text i)" using text_lengths(3) [of i] by simp
  have "bad (app_memory (snd (run_state (example_on_edit B old msg) s))) = bad (app_memory s)"
    using assms(1,3) edit
    by (simp add: example_on_edit_def msg destroy_bad split_beta mem_do_run [of "print_into _ _"] print_into_run send_message_run)
  moreover have "bad (app_memory (snd (run_state (example_on_delete B i cid gid old) s))) \<longleftrightarrow> bad (app_memory s) \<or>
      old = Nul \<and> 100 \<le> length (deleted_text i cid gid)"
    using assms(3) cached
    by (simp add: example_on_delete_def destroy_bad split_beta mem_do_run [of "print_into _ _"] print_into_run send_message_run)
  ultimately show ?thesis
    using pong_run [OF assms(1) msg, of B start s] unfolding deleted_overflows by (simp add: text_lengths)
qed

definition example_start :: "(u64 \<Rightarrow> addr) app" where
  "example_start = \<lparr>app_bot = three_bot, app_sent = [], app_printed = []\<rparr>"

text \<open>The clock was set back by a second while the ping was on its way.\<close>

theorem example_buffers_witness:
  "bad (app_memory (snd (run_state (pong_callback small_builder five (secs 1)) example_start))) \<and>
   \<not> bad (app_memory (snd (run_state (example_on_edit small_builder Nul five) example_start))) \<and>
   \<not> bad (app_memory (snd (run_state (example_on_delete small_builder 5 8 0 Nul) example_start)))"
proof -
  have s: "b_now (app_bot example_start) = secs 0" "b_latency (app_bot example_start) = 0" "\<not> bad (app_memory example_start)"
    by (simp_all add: example_start_def three_bot_def one_bot_def app_memory_def)
  have "latency (secs 0) (secs 1) = - 1000" by (simp add: latency_def secs_def c_div_def)
  moreover have "20 \<le> length (show_long (- 1000))"
    unfolding show_long_def twenty_digits by simp
  ultimately show ?thesis
    using example_buffers [OF five_ok(1), of Nul small_builder "secs 1" example_start 5 8 0] s by simp
qed

section \<open>The commands\<close>

datatype command = Ping | Exit | Pic | Reconnect

text \<open>What a message asks for. The picture is sent for everything that begins with \<open>!pi\<close>.\<close>

definition command_of :: "discord_message ptr \<Rightarrow> command option" where
  "command_of p =
     (case p of Nul \<Rightarrow> None
      | Ptr _ (Message x _ _) \<Rightarrow>
          (case ms_content x of Nul \<Rightarrow> None
           | Ptr _ content \<Rightarrow>
               if sent_by_bot x then None
               else if content = ''!ping'' then Some Ping
               else if content = ''!exit'' then Some Exit
               else if take 3 content = ''!pi'' then Some Pic
               else if content = ''!r'' then Some Reconnect
               else None))"

lemma command_tests:
  "strncmp_eq content ''!ping'' 6 \<longleftrightarrow> content = ''!ping''" "strncmp_eq content ''!exit'' 6 \<longleftrightarrow> content = ''!exit''"
  "strncmp_eq content ''!pic'' 3 \<longleftrightarrow> take 3 content = ''!pi''" "strncmp_eq content ''!r'' 3 \<longleftrightarrow> content = ''!r''"
  by (simp_all add: strncmp_eq_exact strncmp_eq_take [of content "''!pic''"])

lemma send_pic_run: "\<exists>r. run_state (send_pic B x) s = ((), s\<lparr>app_sent := app_sent s @ [r]\<rparr>)"
proof -
  have "\<exists>r. discord_channel_send_message B tok (on_stack ''pic'') cid
      (on_stack (zero_message\<lparr>cm_attachments := on_stack [on_stack cat_attachment]\<rparr>)) False = State_Monad.return r" for tok cid
    using channel_url_fits [of cid]
    by (auto simp: discord_channel_send_message_def create_message_to_json_def print_into_def file_names_def file_name_def
        on_stack_def zero_message_def add_embeds_def add_allowed_mentions_def add_reference_def add_ids_def
        add_attachments_def attachment_json_def cat_attachment_def elems_def Let_def)
  then obtain r where "discord_channel_send_message B (ws_token (b_client (app_bot s))) (on_stack ''pic'') (ms_channel_id x)
      (on_stack (zero_message\<lparr>cm_attachments := on_stack [on_stack cat_attachment]\<rparr>)) False = State_Monad.return r" by blast
  then show ?thesis by (simp add: send_pic_def send_message_def in_app_run in_bot_run in_memory_def) blast
qed

lemma ping_run:
  "\<exists>r. run_state (send_ping B x) s =
    ((), with_memory ((app_memory s)\<lparr>next_blk := next_blk (app_memory s) + 2\<rparr>) (s\<lparr>app_sent := app_sent s @ [r]\<rparr>))"
proof -
  have "run_state (app_mem_do fresh_blk) t =
      (next_blk (app_memory t), with_memory ((app_memory t)\<lparr>next_blk := next_blk (app_memory t) + 1\<rparr>) t)" for t :: "'a app"
    by (simp add: mem_do_run fresh_blk_def)
  then show ?thesis
    by (intro exI [of _ "sent_request B (ws_token (b_client (app_bot s))) Nul (ms_channel_id x)
        (on_stack (embed_message ''Pinging...'' 0x8000)) True"])
      (simp add: send_ping_def send_message_run, simp add: with_memory_def app_memory_def)
qed

text \<open>Closing the connection leaves the memory alone.\<close>

lemma close_memory: "b_state (snd (run_state websocket_close s)) = b_state s"
  by (simp add: websocket_close_def split_beta client_def set_client_def effect_def pthread_join_heartbeat_def
      Let_def State_Monad.return_def)

lemma close_exit: "ws_exit (b_client (snd (run_state websocket_close s))) = ws_exit (b_client s)"
  by (simp add: websocket_close_def split_beta client_def set_client_def effect_def pthread_join_heartbeat_def
      Let_def State_Monad.return_def)

definition no_heartbeat :: "('m, 'z) app_scheme \<Rightarrow> bool" where
  "no_heartbeat s \<longleftrightarrow> b_threads (app_bot s) = [] \<and> \<not> ws_heartbeat_active (b_client (app_bot s))"

lemma closing_run:
  assumes "threads_ok (view (app_bot s))"
  shows "no_heartbeat (snd (run_state (in_app websocket_exit) s)) \<and> ws_exit (b_client (app_bot (snd (run_state (in_app websocket_exit) s)))) \<and>
    app_memory (snd (run_state (in_app websocket_exit) s)) = app_memory s \<and>
    app_sent (snd (run_state (in_app websocket_exit) s)) = app_sent s"
    and "no_heartbeat (snd (run_state (in_app websocket_reconnect) s)) \<and>
    app_memory (snd (run_state (in_app websocket_reconnect) s)) = app_memory s \<and>
    app_sent (snd (run_state (in_app websocket_reconnect) s)) = app_sent s"
proof -
  show "no_heartbeat (snd (run_state (in_app websocket_exit) s)) \<and> ws_exit (b_client (app_bot (snd (run_state (in_app websocket_exit) s)))) \<and>
    app_memory (snd (run_state (in_app websocket_exit) s)) = app_memory s \<and>
    app_sent (snd (run_state (in_app websocket_exit) s)) = app_sent s"
    using exit_ok [OF assms]
    by (simp add: in_app_run no_heartbeat_def view_def app_memory_def) (simp add: websocket_exit_def set_client_def split_beta
        close_memory close_exit)
  show "no_heartbeat (snd (run_state (in_app websocket_reconnect) s)) \<and>
    app_memory (snd (run_state (in_app websocket_reconnect) s)) = app_memory s \<and>
    app_sent (snd (run_state (in_app websocket_reconnect) s)) = app_sent s"
    using close_ok [OF assms] by (simp add: close_memory in_app_run no_heartbeat_def view_def app_memory_def websocket_reconnect_def)
qed

lemma no_heartbeat_threads: "no_heartbeat s \<Longrightarrow> threads_ok (view (app_bot s))"
  by (simp add: no_heartbeat_def view_def)

lemma on_message_parts:
  "run_state (example_on_message B (Ptr b (Message x r i))) s =
    (let p = Ptr b (Message x r i); destroy = app_mem_do (destroy_message p)
     in case command_of p of
          None \<Rightarrow> run_state destroy (if ms_content x \<noteq> Nul \<and> sent_by_bot x
            then s\<lparr>app_printed := app_printed s @ [''User is a bot. Ignoring'']\<rparr> else s)
        | Some Ping \<Rightarrow> run_state destroy (snd (run_state (send_ping B x) s))
        | Some Exit \<Rightarrow> run_state (in_app websocket_exit) (snd (run_state destroy s))
        | Some Pic \<Rightarrow> run_state destroy (snd (run_state (send_pic B x) s))
        | Some Reconnect \<Rightarrow> run_state destroy (snd (run_state (in_app websocket_reconnect) s)))"
  by (auto simp: example_on_message_def command_of_def command_tests print_line_def split_beta Let_def
      split: ptr.splits)

lemma destroyed:
  fixes s :: "'m app"
  assumes "message_ok p" and "p \<noteq> Nul"
  defines "t \<equiv> snd (run_state (app_mem_do (destroy_message p)) s)"
  shows "view (app_bot t) = view (app_bot s)" and "b_client (app_bot t) = b_client (app_bot s)"
    and "b_threads (app_bot t) = b_threads (app_bot s)" and "app_sent t = app_sent s"
    and "\<exists>fs. mset fs + mset (message_leaks p) = mset (message_blocks p) \<and>
      app_memory t = (app_memory s)\<lparr>freed := freed (app_memory s) @ fs\<rparr>"
  unfolding t_def by (rule destroy_message_run [OF assms(1,2), of s], auto)+



section \<open>Interactions\<close>

definition command_name :: "interaction_fields \<Rightarrow> string option" where
  "command_name x = (case in_data x of Nul \<Rightarrow> None | Ptr _ d \<Rightarrow> to_str (id_name d))"

definition answer_faults :: "interaction_fields \<Rightarrow> bool" where
  "answer_faults x \<longleftrightarrow> in_token x = Nul \<or> 529 \<le> length (show_u64 (in_id x)) + length (ptr_str (in_token x))"

lemma hello_run:
  "run_state (hello_callback B x) s =
    ((), with_memory ((app_memory s)\<lparr>bad := bad (app_memory s) \<or> answer_faults x\<rparr>) (s\<lparr>app_sent := app_sent s @ [None]\<rparr>))"
proof -
  have "\<exists>j. callback_json B hello_reply (in_data x) (create_object B) = State_Monad.return j"
    by (auto simp: callback_json_def hello_reply_def callback_types reply_as_message_def on_stack_def
        create_message_to_json_def add_embeds_def add_allowed_mentions_def add_reference_def add_ids_def
        add_attachments_def elems_def Let_def)
  then obtain j where j: "callback_json B hello_reply (in_data x) (create_object B) = State_Monad.return j" ..
  have "run_state (discord_send_interaction B tok hello_reply x) m = (None, m\<lparr>bad := bad m \<or> answer_faults x\<rparr>)" for tok m
    using length_show_u64 [of "in_id x"]
    by (auto simp: discord_send_interaction_def Let_def j print_into_run callback_url_overflows fault_def request_def
        answer_faults_def State_Monad.return_def ptr_str_def)
  then show ?thesis
    by (simp add: hello_callback_def mem_do_run [of "discord_send_interaction _ _ _ _"]) (simp add: with_memory_def app_memory_def)
qed

lemma destroy_interaction_run:
  assumes "interaction_ok p" and "p \<noteq> Nul"
  obtains fs where "run_state (app_mem_do (destroy_interaction p)) s =
      ((), with_memory ((app_memory s)\<lparr>freed := freed (app_memory s) @ fs\<rparr>) s)"
    "mset fs + mset (interaction_leaks p) = mset (interaction_blocks p)"
proof -
  obtain y fs and bs :: "nat list" where r: "run_state (destroy_interaction_opt p) (app_memory s) =
      (y, (app_memory s)\<lparr>next_blk := next_blk (app_memory s) + length bs, freed := freed (app_memory s) @ fs\<rparr>)"
      "bs = [] \<and> mset fs + mset (interaction_leaks p) = mset (interaction_blocks p)"
    by (rule doesE [OF message_destroy_does(2) [OF assms(1)], of "app_memory s"]) blast
  then show thesis using assms(2) by (intro that [of fs]) (simp_all add: mem_do_run destroy_interaction_def)
qed



end
