(* ===== verification/Logging.thy ===== *)
theory Logging
  imports Disco_Prelude
begin

unbundle bit_operations_syntax

text \<open>
  Logging (\<open>disco_logging.h\<close>, \<open>disco_logging.c\<close>): four kinds of lines, each switched by a bit of the
  level, and the date they begin with. A line is what \<open>fprintf\<close> is given and the stream it goes to.
\<close>

section \<open>The code\<close>

definition D_LOG_ERR :: c_int where "D_LOG_ERR = push_bit 0 1"
definition D_LOG_NOTICE :: c_int where "D_LOG_NOTICE = push_bit 1 1"
definition D_LOG_INFO :: c_int where "D_LOG_INFO = push_bit 2 1"
definition D_LOG_DEBUG :: c_int where "D_LOG_DEBUG = push_bit 3 1"
definition D_LOG_ALL :: c_int where "D_LOG_ALL = D_LOG_ERR OR D_LOG_NOTICE OR D_LOG_INFO OR D_LOG_DEBUG"

text \<open>The level starts as 0.\<close>

definition log_level_start :: c_int where "log_level_start = 0"

definition d_set_log_level :: "c_int \<Rightarrow> c_int \<Rightarrow> c_int" where
  "d_set_log_level flags level = flags"

definition d_should_log_err :: "c_int \<Rightarrow> c_int" where "d_should_log_err level = level AND D_LOG_ERR"
definition d_should_log_notice :: "c_int \<Rightarrow> c_int" where "d_should_log_notice level = level AND D_LOG_NOTICE"
definition d_should_log_info :: "c_int \<Rightarrow> c_int" where "d_should_log_info level = level AND D_LOG_INFO"
definition d_should_log_debug :: "c_int \<Rightarrow> c_int" where "d_should_log_debug level = level AND D_LOG_DEBUG"

text \<open>\<open>struct tm\<close> as far as it is read, and \<open>%02d\<close>.\<close>

record tm =
  tm_year :: int
  tm_mon :: int
  tm_mday :: int
  tm_hour :: int
  tm_min :: int
  tm_sec :: int

definition show_02d :: "int \<Rightarrow> string" where
  "show_02d n =
     (if n < 0 then show_int n
      else if n < 10 then CHR ''0'' # show_int n
      else show_int n)"

definition d_datetime :: "tm \<Rightarrow> string" where
  "d_datetime dt =
     show_int (tm_year dt + 1900) @ ''-'' @ show_02d (tm_mon dt + 1) @ ''-'' @ show_02d (tm_mday dt) @ '' '' @
     show_02d (tm_hour dt) @ '':'' @ show_02d (tm_min dt) @ '':'' @ show_02d (tm_sec dt)"

datatype stream = Stdout | Stderr

definition esc :: "string \<Rightarrow> string" where
  "esc code = CHR 0x1B # ''['' @ code @ ''m''"

text \<open>\<open>str\<close> is the formatted text of the caller.\<close>

definition d_log_err :: "c_int \<Rightarrow> tm \<Rightarrow> string \<Rightarrow> (stream \<times> string) list" where
  "d_log_err level dt str =
     (if d_should_log_err level \<noteq> 0 then [(Stderr, ''['' @ d_datetime dt @ ''] '' @ esc ''91'' @ str @ esc ''0'')] else [])"

definition d_log_notice :: "c_int \<Rightarrow> tm \<Rightarrow> string \<Rightarrow> (stream \<times> string) list" where
  "d_log_notice level dt str =
     (if d_should_log_notice level \<noteq> 0 then [(Stdout, ''['' @ d_datetime dt @ ''] '' @ esc ''95'' @ str @ esc ''0'')] else [])"

definition d_log_info :: "c_int \<Rightarrow> tm \<Rightarrow> string \<Rightarrow> (stream \<times> string) list" where
  "d_log_info level dt str =
     (if d_should_log_info level \<noteq> 0 then [(Stdout, ''['' @ d_datetime dt @ ''] '' @ str)] else [])"

definition d_log_debug :: "c_int \<Rightarrow> tm \<Rightarrow> string \<Rightarrow> (stream \<times> string) list" where
  "d_log_debug level dt str =
     (if d_should_log_debug level \<noteq> 0 then [(Stdout, ''['' @ d_datetime dt @ ''] '' @ esc ''92'' @ str @ esc ''0'')] else [])"

section \<open>What is logged\<close>

lemma flag_set: "level AND push_bit n 1 \<noteq> 0 \<longleftrightarrow> bit level n" for level :: c_int
  by (simp add: push_bit_of_1 and_exp_eq_0_iff_not_bit)

lemma should_log:
  "d_should_log_err level \<noteq> 0 \<longleftrightarrow> bit level 0" "d_should_log_notice level \<noteq> 0 \<longleftrightarrow> bit level 1"
  "d_should_log_info level \<noteq> 0 \<longleftrightarrow> bit level 2" "d_should_log_debug level \<noteq> 0 \<longleftrightarrow> bit level 3"
  by (simp_all only: d_should_log_err_def d_should_log_notice_def d_should_log_info_def d_should_log_debug_def
      D_LOG_ERR_def D_LOG_NOTICE_def D_LOG_INFO_def D_LOG_DEBUG_def flag_set)

text \<open>Nothing is logged before the level is set, and everything at \<open>D_LOG_ALL\<close>.\<close>

lemma no_lines_at_start:
  "d_log_err log_level_start dt str = []" "d_log_notice log_level_start dt str = []"
  "d_log_info log_level_start dt str = []" "d_log_debug log_level_start dt str = []"
  by (simp_all add: log_level_start_def d_log_err_def d_log_notice_def d_log_info_def d_log_debug_def
      d_should_log_err_def d_should_log_notice_def d_should_log_info_def d_should_log_debug_def)

lemma all_lines:
  "d_log_err (d_set_log_level D_LOG_ALL l) dt str \<noteq> []" "d_log_notice (d_set_log_level D_LOG_ALL l) dt str \<noteq> []"
  "d_log_info (d_set_log_level D_LOG_ALL l) dt str \<noteq> []" "d_log_debug (d_set_log_level D_LOG_ALL l) dt str \<noteq> []"
  by (simp_all add: d_log_err_def d_log_notice_def d_log_info_def d_log_debug_def d_set_log_level_def should_log)
    (simp_all add: D_LOG_ALL_def D_LOG_ERR_def D_LOG_NOTICE_def D_LOG_INFO_def D_LOG_DEBUG_def bit_or_iff
      push_bit_of_1 bit_exp_iff)

section \<open>The date\<close>

text \<open>What \<open>localtime\<close> sets; a leap second is 60.\<close>

definition tm_ok :: "tm \<Rightarrow> bool" where
  "tm_ok dt \<longleftrightarrow> - (2 ^ 31) \<le> tm_year dt + 1900 \<and> tm_year dt + 1900 < 2 ^ 31 \<and> tm_mon dt \<in> {0..11} \<and>
     tm_mday dt \<in> {1..31} \<and> tm_hour dt \<in> {0..23} \<and> tm_min dt \<in> {0..59} \<and> tm_sec dt \<in> {0..60}"

lemma length_show_02d: "0 \<le> n \<Longrightarrow> n < 100 \<Longrightarrow> length (show_02d n) = 2"
proof -
  assume n: "0 \<le> n" "n < 100"
  define l where "l = length (show_nat (nat n))"
  have "l \<le> 1 \<longleftrightarrow> n < 10" "l \<le> 2" "1 \<le> l"
    using length_show_nat_le_iff [of 1 "nat n"] length_show_nat_le_iff [of 2 "nat n"] n
    by (simp_all add: l_def Suc_le_eq nat_less_iff)
  then have "length (show_nat (nat n)) = (if n < 10 then 1 else 2)"
    unfolding l_def [symmetric] by (cases "n < 10") auto
  then show ?thesis using n by (simp add: show_02d_def show_int_def)
qed

lemma length_show_int_11: "- (2 ^ 31) \<le> i \<Longrightarrow> i < 2 ^ 31 \<Longrightarrow> length (show_int i) \<le> 11"
proof -
  assume i: "- (2 ^ 31) \<le> i" "i < 2 ^ 31"
  have k: "length (show_nat k) \<le> 10" if "k \<le> 2 ^ 31" for k
    using that by (simp add: length_show_nat_le_iff)
  have "nat (- i) \<le> 2 ^ 31" "nat i \<le> 2 ^ 31" using i by simp_all
  from k [OF this(1)] k [OF this(2)] show ?thesis by (simp add: show_int_def)
qed

text \<open>The date fits into the 50 bytes of the caller; from the year 1000 to 9999 it has 19 characters.\<close>

lemma d_datetime_fits:
  assumes "tm_ok dt"
  shows "length (d_datetime dt) \<le> 26" and "tm_year dt + 1900 \<in> {1000..9999} \<Longrightarrow> length (d_datetime dt) = 19"
proof -
  have two: "length (show_02d (tm_mon dt + 1)) = 2" "length (show_02d (tm_mday dt)) = 2"
    "length (show_02d (tm_hour dt)) = 2" "length (show_02d (tm_min dt)) = 2" "length (show_02d (tm_sec dt)) = 2"
    using assms by (auto simp: tm_ok_def intro!: length_show_02d)
  then show "length (d_datetime dt) \<le> 26"
    using length_show_int_11 [of "tm_year dt + 1900"] assms by (simp add: d_datetime_def tm_ok_def)
  assume y: "tm_year dt + 1900 \<in> {1000..9999}"
  let ?y = "nat (tm_year dt + 1900)"
  have "length (show_nat ?y) \<le> 3 \<longleftrightarrow> ?y < 1000" "length (show_nat ?y) \<le> 4 \<longleftrightarrow> ?y < 10000"
    using length_show_nat_le_iff [of 3 ?y] length_show_nat_le_iff [of 4 ?y] by simp_all
  then have "length (show_int (tm_year dt + 1900)) = 4" using y by (auto simp: show_int_def)
  with two show "length (d_datetime dt) = 19" by (simp add: d_datetime_def)
qed

end
