(* ===== verification/Programs.thy ===== *)
theory Programs
  imports Example_Counter Example_Bot Logging
begin

unbundle bit_operations_syntax

text \<open>
  The programs: \<open>main\<close> of the two examples, which set the level of the log and start the bot, and
  \<open>websocket_test\<close> of \<open>websocket.c\<close>. The result is the level of the log and what
  \<open>discord_start_bot\<close> leaves.
\<close>

section \<open>The examples\<close>

definition example_main ::
  "'m hashmap_api \<Rightarrow> 'j json_lib \<Rightarrow> string \<Rightarrow> 'm caches \<Rightarrow> bool \<Rightarrow> happening list list \<Rightarrow> happening list \<Rightarrow>
   c_int \<times> bool \<times> 'm bot" where
  "example_main H L DISCORD_TOKEN cs0 created rounds during =
     (d_set_log_level (D_LOG_NOTICE OR D_LOG_ERR OR D_LOG_INFO) log_level_start,
      discord_start_bot H L (Some example_callbacks) DISCORD_TOKEN (Some example_config) cs0 created rounds during)"

definition counter_main ::
  "'m hashmap_api \<Rightarrow> 'j json_lib \<Rightarrow> string \<Rightarrow> 'm caches \<Rightarrow> bool \<Rightarrow> happening list list \<Rightarrow> happening list \<Rightarrow>
   c_int \<times> bool \<times> 'm bot" where
  "counter_main H L DISCORD_TOKEN cs0 created rounds during =
     (d_set_log_level (D_LOG_ERR OR D_LOG_NOTICE) log_level_start,
      discord_start_bot H L (Some counter_callbacks) DISCORD_TOKEN (Some counter_config) cs0 created rounds during)"

lemmas log_flags = D_LOG_ERR_def D_LOG_NOTICE_def D_LOG_INFO_def D_LOG_DEBUG_def d_set_log_level_def
  bit_or_iff push_bit_of_1 bit_exp_iff

text \<open>The example bot logs all but the lines for debugging, the counting bot errors and notices.\<close>

lemma example_logs:
  assumes "example_main H L tok cs0 created rounds during = (level, r)"
  shows "d_should_log_err level \<noteq> 0 \<and> d_should_log_notice level \<noteq> 0 \<and> d_should_log_info level \<noteq> 0 \<and>
    d_should_log_debug level = 0"
proof -
  have "level = D_LOG_NOTICE OR D_LOG_ERR OR D_LOG_INFO"
    using assms by (simp add: example_main_def d_set_log_level_def)
  then show ?thesis using should_log [of level] by (auto simp: log_flags)
qed

lemma counter_logs:
  assumes "counter_main H L tok cs0 created rounds during = (level, r)"
  shows "d_should_log_err level \<noteq> 0 \<and> d_should_log_notice level \<noteq> 0 \<and> d_should_log_info level = 0 \<and>
    d_should_log_debug level = 0"
proof -
  have "level = D_LOG_ERR OR D_LOG_NOTICE"
    using assms by (simp add: counter_main_def d_set_log_level_def)
  then show ?thesis using should_log [of level] by (auto simp: log_flags)
qed

text \<open>Both keep two messages, and 1000 channels and guilds.\<close>

lemma example_sizes:
  "cache_sizes (Some example_config) = (2, 1000, 1000)" "cache_sizes (Some counter_config) = (2, 1000, 1000)"
  by (simp_all add: cache_sizes_def or_default_def example_config_def counter_config_def)

section \<open>The test of the web socket\<close>

text \<open>
  The loop over \<open>lws_service\<close>: a round is what libwebsockets calls in it. As nothing connects, there
  is no user pointer. The result tells whether the loop ended within the rounds.
\<close>

fun test_rounds :: "reason list list \<Rightarrow> ('m bot, bool) state" where
  "test_rounds rounds = do {
     c \<leftarrow> client;
     if \<not> ws_active c then State_Monad.return True
     else case rounds of
            [] \<Rightarrow> State_Monad.return False
          | rs # rounds \<Rightarrow> do {
              _ \<leftarrow> State_Monad.traverse_list (websocket_callback None False) rs;
              test_rounds rounds } }"

text \<open>The client is uninitialised memory before \<open>websocket_create\<close>, whose result is not used.\<close>

definition websocket_test :: "bool \<Rightarrow> reason list list \<Rightarrow> ('m bot, bool) state" where
  "websocket_test created rounds = do {
     _ \<leftarrow> websocket_create created;
     test_rounds rounds }"

lemma test_callbacks:
  "ws_active (b_client (snd (run_state (State_Monad.traverse_list (websocket_callback None False) rs) s))) =
   ws_active (b_client s)"
proof (induction rs arbitrary: s)
  case Nil
  then show ?case by (simp add: State_Monad.return_def)
next
  case (Cons r rs)
  have "ws_active (b_client (snd (run_state (websocket_callback None False r) s))) = ws_active (b_client s)"
    by (cases r) (auto simp: websocket_callback_def in_bot_run split_beta State_Monad.return_def)
  with Cons.IH [of "snd (run_state (websocket_callback None False r) s)"] show ?case
    by (simp add: split_beta State_Monad.return_def)
qed

lemma test_loop: "ws_active (b_client s) \<Longrightarrow> \<not> fst (run_state (test_rounds rounds) s)"
proof (induction rounds arbitrary: s)
  case Nil
  then show ?case by (simp add: client_def State_Monad.return_def)
next
  case (Cons rs rounds)
  then show ?case using test_callbacks [of rs s] by (simp add: client_def split_beta)
qed

text \<open>With a context the test never ends: no callback it can get clears \<open>active\<close>.\<close>

lemma websocket_test_never_ends: "\<not> fst (run_state (websocket_test True rounds) s)"
proof -
  have "ws_active (b_client (snd (run_state (websocket_create True) s)))"
    by (simp add: websocket_create_def effect_def set_client_def in_bot_run split_beta State_Monad.return_def)
  from test_loop [OF this] show ?thesis by (simp add: websocket_test_def split_beta del: test_rounds.simps)
qed

end
