(* ===== verification/Self_Tests.thy ===== *)
theory Self_Tests
  imports Example_Client Programs
begin

text \<open>
  The tests of the repository (\<open>src/tests\<close>) as programs over the model. A test is the list of its
  assertions of the framework, in order. The tests of requests are commented out. The assertion that
  the structure is not modified has no counterpart, as it is passed as a value.
\<close>

section \<open>The tests of messages\<close>

definition sticker_message :: discord_create_message where
  "sticker_message = zero_message\<lparr>cm_tts := True, cm_sticker_ids := Ptr 2 [123, 456, 789], cm_flags := 16\<rparr>"

text \<open>\<open>msg\<close> is the address of the structure on the stack.\<close>

definition test_message_creation :: "'j cjson \<Rightarrow> 'j json_builder \<Rightarrow> nat \<Rightarrow> (mem, bool list) state" where
  "test_message_creation J B msg = do {
     json \<leftarrow> create_message_to_json B (create_object B) Nul (Ptr msg zero_message);
     let first = [
       get_bool_from_json J (Some json) ''tts'' False = False,
       get_object_item J (Some json) ''content'' = None,
       get_object_item J (Some json) ''embeds'' = None,
       get_object_item J (Some json) ''allowed_mentions'' = None,
       get_object_item J (Some json) ''message_reference'' = None,
       get_object_item J (Some json) ''components'' = None,
       get_object_item J (Some json) ''sticker_ids'' = None,
       get_object_item J (Some json) ''files'' = None,
       get_object_item J (Some json) ''payload_json'' = None,
       get_object_item J (Some json) ''attachments'' = None];
     json \<leftarrow> create_message_to_json B (create_object B) (Ptr 0 ''test message'') (Ptr msg sticker_message);
     State_Monad.return (first @ [
       get_bool_from_json J (Some json) ''tts'' True = True,
       (case get_object_item J (Some json) ''content'' of
          None \<Rightarrow> False
        | Some j \<Rightarrow> (case valuestring J j of None \<Rightarrow> False | Some s \<Rightarrow> strncmp_eq ''test message'' s 13)),
       get_object_item J (Some json) ''embeds'' = None,
       get_object_item J (Some json) ''allowed_mentions'' = None,
       get_object_item J (Some json) ''message_reference'' = None,
       length (json_items J (get_object_item J (Some json) ''sticker_ids'')) = 3,
       get_object_item J (Some json) ''files'' = None,
       get_object_item J (Some json) ''payload_json'' = None,
       get_object_item J (Some json) ''attachments'' = None]) }"

section \<open>The tests of the web socket\<close>

definition client_new :: "websocket_client \<Rightarrow> bool list" where
  "client_new c = [ws_active c, \<not> ws_connected c, \<not> ws_heartbeat_active c, \<not> ws_exit c, \<not> ws_success_login c]"

definition test_websocket_create :: "bool \<Rightarrow> ('m bot, bool list) state" where
  "test_websocket_create created = do {
     c \<leftarrow> websocket_create created;
     w \<leftarrow> client;
     State_Monad.return ((c = 0) # client_new w) }"

definition test_websocket_connect :: "('m bot, bool list) state" where
  "test_websocket_connect = do {
     c \<leftarrow> websocket_connect;
     w \<leftarrow> client;
     user \<leftarrow> in_bot (State (\<lambda>s. (ev_user s, s)));
     State_Monad.return ((c = 0) # client_new w @ [user = Nul]) }"

text \<open>\<open>main\<close>: the second test uses the client of the first. The bot and its client start as zeros.\<close>

definition web_tests :: "bool \<Rightarrow> 'm caches \<Rightarrow> bool list \<times> 'm bot" where
  "web_tests created cs =
     run_state (do {
       a \<leftarrow> test_websocket_create created;
       b \<leftarrow> test_websocket_connect;
       State_Monad.return (a @ b) }) (declared_bot cs [])"

section \<open>Which tests pass\<close>

lemma test_names: "lower_name ''tts''" "lower_name ''components''" "lower_name ''files''" "lower_name ''payload_json''"
  by (simp_all add: lower_name_def)

lemma zero_json: "create_message_to_json B (create_object B) Nul (Ptr b zero_message) = State_Monad.return (create_object B)"
  by (simp add: create_message_to_json_def add_content_def add_embeds_def add_allowed_mentions_def add_reference_def
      add_ids_def add_attachments_def add_flags_def zero_message_def elems_def ptr_str_def Let_def)

lemma sticker_json:
  assumes "builder_laws J B"
  shows "\<exists>st. create_message_to_json B (create_object B) (Ptr a ''test message'') (Ptr b sticker_message) =
      State_Monad.return (add_number B ''flags'' 16 (add_item_to_object B
        (add_string B ''content'' (Ptr a ''test message'') (create_object B)) ''sticker_ids'' st)) \<and>
    length (json_items J st) = 3"
proof -
  let ?j = "add_string B ''content'' (Ptr a ''test message'') (create_object B)"
  have ids: "list_all (\<lambda>i. unat i < 10 ^ 19) (elems (Ptr 2 [123, 456, 789 :: u64]))" by (simp add: elems_def)
  obtain st where st: "add_ids B ''sticker_ids'' (Ptr 2 [123, 456, 789]) ?j = State_Monad.return (add_item_to_object B ?j ''sticker_ids'' st)"
    "json_items J st = map (\<lambda>i. str_item B (show_u64 i)) (elems (Ptr 2 [123, 456, 789]))"
    using ids_added [OF assms ids, of "''sticker_ids''" ?j] unfolding adds_def by blast
  show ?thesis
    by (rule exI [of _ st]) (simp add: st create_message_to_json_def add_content_def add_embeds_def
      add_allowed_mentions_def add_reference_def add_attachments_def add_flags_def sticker_message_def zero_message_def
      elems_def ptr_str_def Let_def)
qed

text \<open>
  With a cJSON as documented every assertion of the test of messages holds. The one on \<open>tts\<close> of the
  second message says nothing: the name is not in the JSON, and the reader is given the value that is
  expected as the default.
\<close>

lemma message_tests_pass:
  assumes "json_laws J" and L: "builder_laws J B"
  shows "list_all id (fst (run_state (test_message_creation J B b) s)) \<and> snd (run_state (test_message_creation J B b) s) = s"
proof -
  obtain st where r: "create_message_to_json B (create_object B) (Ptr 0 ''test message'') (Ptr b sticker_message) =
      State_Monad.return (add_number B ''flags'' 16 (add_item_to_object B
        (add_string B ''content'' (Ptr 0 ''test message'') (create_object B)) ''sticker_ids'' st))"
    and st: "length (json_items J st) = 3"
    using sticker_json [OF L, of 0 b] by blast
  show ?thesis
    unfolding test_message_creation_def zero_json r
    by (simp add: get_bool_from_json_def json_found L message_names test_names st built_create create_string_item(3) [OF L])
      (simp add: eval_nat_numeral)
qed

lemma tts_not_tested:
  assumes "builder_laws J B" and "run_state (create_message_to_json B (create_object B) (Ptr a ''test message'') (Ptr b sticker_message)) s = (j, s')"
  shows "get_object_item J (Some j) ''tts'' = None"
proof -
  from sticker_json [OF assms(1), of a b] show ?thesis
    using assms by (auto simp: json_found message_names test_names)
qed

text \<open>The tests of the web socket pass exactly when libwebsockets creates its context.\<close>

lemma web_tests_pass: "list_all id (fst (web_tests created cs)) \<longleftrightarrow> created"
  by (simp add: web_tests_def test_websocket_create_def test_websocket_connect_def websocket_create_def
      websocket_connect_def client_new_def client_def effect_def set_client_def in_bot_run split_beta
      State_Monad.return_def declared_bot_def)

end
