(* ===== verification/Timer.thy ===== *)
theory Timer
  imports Disco_Prelude
begin

text \<open>
  The timing macros of \<open>timer.h\<close>. They declare two times under names of their own; the times that
  \<open>gettimeofday\<close> reads are arguments. \<open>TIMER_START_FIRST\<close> declares the times in the block it stands
  in, \<open>TIMER_FUNC\<close> has its own.
\<close>

section \<open>The macros\<close>

record timer =
  tend :: timeval
  tstart :: timeval

definition TIMER_START :: "timeval \<Rightarrow> timer \<Rightarrow> timer" where
  "TIMER_START now t = t\<lparr>tstart := now\<rparr>"

definition TIMER_START_FIRST :: "timeval \<Rightarrow> timer \<Rightarrow> timer" where
  "TIMER_START_FIRST now uninitialised = uninitialised\<lparr>tstart := now\<rparr>"

text \<open>The difference is a \<open>long\<close>, printed with \<open>%lu\<close>.\<close>

definition elapsed_us :: "timeval \<Rightarrow> timeval \<Rightarrow> int" where
  "elapsed_us start stop = (tv_sec stop - tv_sec start) * 1000000 + (tv_usec stop - tv_usec start)"

definition elapsed_line :: "string \<Rightarrow> timeval \<Rightarrow> timeval \<Rightarrow> string" where
  "elapsed_line name start stop =
     name @ '': '' @ show_u64 (word_of_int (elapsed_us start stop)) @ '' us'' @ [CHR 0x0A]"

definition TIMER_END :: "string \<Rightarrow> timeval \<Rightarrow> timer \<Rightarrow> string \<times> timer" where
  "TIMER_END name now t =
     (let t' = t\<lparr>tend := now\<rparr> in (elapsed_line name (tstart t') (tend t'), t'))"

text \<open>\<open>run\<close> is the timed code \<open>a\<close>, which starts at the first time and ends at the second.\<close>

definition TIMER_FUNC :: "string \<Rightarrow> ('s \<Rightarrow> 's) \<Rightarrow> timeval \<Rightarrow> timeval \<Rightarrow> 's \<Rightarrow> string \<times> 's" where
  "TIMER_FUNC a run start_timer stop_timer s = (let s' = run s in (elapsed_line a start_timer stop_timer, s'))"

section \<open>What is printed\<close>

text \<open>Time stamps of one clock as \<open>gettimeofday\<close> returns them.\<close>

definition clock_time :: "timeval \<Rightarrow> bool" where
  "clock_time t \<longleftrightarrow> 0 \<le> tv_sec t \<and> tv_sec t < 2 ^ 43 \<and> 0 \<le> tv_usec t \<and> tv_usec t < 1000000"

lemma elapsed_bounds:
  assumes "clock_time a" and "clock_time b"
  shows "- (2 ^ 63) \<le> elapsed_us a b" and "elapsed_us a b < 2 ^ 63"
  using assms by (simp_all add: clock_time_def elapsed_us_def)

lemma elapsed_sign:
  assumes "clock_time a" and "clock_time b"
  shows "0 \<le> elapsed_us a b \<longleftrightarrow> tv_le a b"
  using assms by (auto simp: clock_time_def elapsed_us_def tv_le_def)

text \<open>
  The microseconds that passed are printed, unless the clock was set back: then it is the difference
  added to \<open>2 ^ 64\<close>.
\<close>

lemma timer_prints:
  assumes "clock_time a" and "clock_time b"
  shows "uint (word_of_int (elapsed_us a b) :: u64) =
    (if tv_le a b then elapsed_us a b else 2 ^ 64 + elapsed_us a b)"
proof (cases "tv_le a b")
  case True
  then show ?thesis
    using elapsed_sign [OF assms] elapsed_bounds [OF assms] by (simp add: uint_word_of_int)
next
  case False
  have "(elapsed_us a b) mod 2 ^ 64 = (2 ^ 64 + elapsed_us a b) mod 2 ^ 64" by simp
  also have "\<dots> = 2 ^ 64 + elapsed_us a b"
    using False elapsed_sign [OF assms] elapsed_bounds [OF assms] by (intro mod_pos_pos_trivial) auto
  finally show ?thesis using False by (simp add: uint_word_of_int)
qed

text \<open>Measuring starts at the last \<open>TIMER_START\<close>; \<open>TIMER_END\<close> may be repeated.\<close>

lemma timer_restarts:
  "fst (TIMER_END name c (TIMER_START b (snd (TIMER_END other d (TIMER_START_FIRST a t))))) = elapsed_line name b c"
  "fst (TIMER_END name c (snd (TIMER_END other d (TIMER_START_FIRST a t)))) = elapsed_line name a c"
  by (simp_all add: TIMER_END_def TIMER_START_def TIMER_START_FIRST_def Let_def)

lemma timer_func: "fst (TIMER_FUNC a run b c s) = fst (TIMER_END a c (TIMER_START b t))"
  by (simp add: TIMER_FUNC_def TIMER_END_def TIMER_START_def Let_def)

end
