(* ===== verification/Spec2Isabelle.thy ===== *)
theory Spec2Isabelle
  imports Thread_Pool Cache Env_Parse Ownership Request Start Command_Safety Interaction_Reply Reading_Ends
    Request_Pool Option_Typing Cache_Delete Request_Memory Message_Fetch Pool_Life Self_Tests Timer
begin

text \<open>
  Disco-C is a C library for bots of the chat service Discord. A bot connects to the gateway of the
  service with a web socket (\<open>src/web/websocket.c\<close>, \<open>src/web/gateway.c\<close>), keeps the connection alive
  from a heartbeat thread and receives events; \<open>src/discord/event.c\<close> reads each event into the
  structures of \<open>src/discord\<close>, puts them into the caches of \<open>src/utils/cache.c\<close> and calls the
  application. The application sends messages, registers commands and answers interactions; what it
  sends becomes an HTTP request (\<open>src/web/request.c\<close>) that a worker of the thread pool
  (\<open>src/utils/t_pool.c\<close>, on the queue of \<open>src/utils/prio_queue.c\<close>) makes, again and again if need be.

  \<^bold>\<open>The theories, in the order of what they use.\<close>

  \<^item> \<open>Disco_Prelude\<close>: time values, the string functions of C, decimal numbers on 64 bits.
  \<^item> \<open>Prio_Queue\<close> (\<open>prio_queue.c\<close>): the linked list of timed items on a heap of nodes. It refines a
    list in which an item is inserted before the first later one among all but the last.
  \<^item> \<open>Thread_Pool\<close> (\<open>t_pool.c\<close>): one definition per critical section, the pool and its workers as
    the step relation \<open>pool_step\<close>; conservation of work, shutting down, deadlines. \<open>Pool_Life\<close>: the
    memory of the pool from \<open>t_pool_init\<close> to the end of \<open>t_pool_destroy\<close>, beside its workers.
  \<^item> \<open>Cache\<close> (\<open>cache.c\<close>): each cache is a map of \<open>hashmap.h\<close> and a queue; it refines a list of the
    newest entries, until an entry is updated.
  \<^item> \<open>Env_Parse\<close> (\<open>env_parse.c\<close>): the scanner of the file of variables.
  \<^item> \<open>Mem\<close>, \<open>Json_Access\<close>: memory as numbered blocks with the list of those freed and a flag for any
    violation; the accessors of \<open>disco.c\<close> over the interface of cJSON.
  \<^item> \<open>Enums\<close>, \<open>Stub_Structs\<close> (\<open>src/include/discord\<close>): the enumerations with their numbers, and the
    structures that are declared but not implemented: emojis, reactions, stickers, threads,
    permissions, activities, applications, roles, guilds.
  \<^item> \<open>Structs\<close>, \<open>Structs2\<close>, \<open>Messages\<close> (\<open>user.c\<close>, \<open>attachment.c\<close>, \<open>embed.c\<close>, \<open>component.c\<close>,
    \<open>channel.c\<close>, \<open>message.c\<close>, \<open>interaction.c\<close>): every structure is a record with a
    reader \<open>json_to_\<dots>\<close>, a copy \<open>copy_\<dots>\<close> and a destructor \<open>destroy_\<dots>\<close>, for \<open>_d_json_to_\<dots>\<close>,
    \<open>_d_copy_\<dots>\<close> and \<open>discord_destroy_\<dots>\<close>. \<open>Message_Memory\<close> and \<open>Ownership\<close> show which memory
    each takes and frees; \<open>Reading_Ends\<close> that the recursive readers end; \<open>Option_Typing\<close> that the
    options of an interaction carry values of the type they name, read or copied.
  \<^item> \<open>Request\<close> (\<open>request.c\<close>): one run of the work of a request, and the runs that follow from it.
  \<^item> \<open>Request_Pool\<close>: requests on the thread pool. A worker's critical sections are steps of
    \<open>Thread_Pool\<close>, the run between them is one of \<open>Request\<close>, and a run that is repeated queues its node
    again; no request is lost or worked on twice at a time. \<open>Request_Memory\<close>: what a request and its
    runs allocate and free, to the block.
  \<^item> \<open>Event\<close>, \<open>Event_Safety\<close> (\<open>event.c\<close> and the typed look-ups of \<open>cache.c\<close>): the chain of names and
    the handlers over memory and caches; every cached message keeps memory of its own.
    \<open>Cache_Delete\<close>: what deleting from the message cache does to that memory. \<open>Message_Fetch\<close>: the
    callbacks of a request, which put a list of fetched messages into the cache; which of them the
    application gets alive.
  \<^item> \<open>Websocket\<close>, \<open>Gateway\<close>, \<open>Gateway_Safety\<close> (\<open>websocket.c\<close>, \<open>gateway.c\<close>): the client, its
    callback, the opcodes, the rounds of the heartbeat thread and the event loop over any interleaving
    of them; fragments, sessions, the single thread and its period.
  \<^item> \<open>Start\<close> (\<open>discord_start_bot\<close> of \<open>disco.c\<close>): the caches, the web socket, the loop, cleaning up.
  \<^item> \<open>Json_Build\<close>, \<open>Message_Json\<close>, \<open>Command\<close>, \<open>Command_Safety\<close>, \<open>Interaction_Reply\<close> (the second
    half of \<open>message.c\<close>, \<open>command.c\<close>, \<open>discord_send_interaction\<close>): the JSON that is sent, read back
    with the readers of the library, and the requests that carry it.
  \<^item> \<open>Example_Client\<close>, \<open>Example_Counter\<close>, \<open>Example_Bot\<close> (\<open>src/examples\<close>): the counting bot and the
    example bot as clients of all of the above; an event of the gateway is followed through the readers
    and the caches to the application and the requests it makes. \<open>Programs\<close>: their \<open>main\<close>, and the
    manual test of \<open>websocket.c\<close>. \<open>Self_Tests\<close> (\<open>src/tests\<close>): the tests of the repository over the
    model, and which of them pass.
  \<^item> \<open>Logging\<close> (\<open>disco_logging.h\<close>, \<open>disco_logging.c\<close>): the levels, the lines and their date. The other
    theories leave the calls that log out. \<open>Timer\<close> (\<open>timer.h\<close>): the macros that print how long code
    takes.

  \<^bold>\<open>How C is represented.\<close> An integer that wraps is a word (\<open>u64\<close>, 32 bits for the interval); an
  \<open>int\<close> that the code only stores is an integer. A \<open>double\<close> is a rational number. A pointer to a
  structure is \<open>Nul\<close> or \<open>Ptr b x\<close> with its block \<open>b\<close>; a count is the length of the list it counts. A
  state is passed in the monad of \<open>State_Monad\<close>. What C leaves undefined (a NULL dereference, a block
  freed twice, a write past a buffer) sets the flag \<open>bad\<close>, is listed as a fault of a request, or gives
  \<open>None\<close> where nothing can follow.

  \<^bold>\<open>Parameters.\<close> cJSON, \<open>hashmap.h\<close>, libcurl, libwebsockets and the clock are not part of the
  repository. cJSON is the record \<open>cjson\<close> with \<open>json_laws\<close> and the record \<open>json_builder\<close> with
  \<open>builder_laws\<close>; \<open>hashmap.h\<close> is \<open>hashmap_api\<close> with \<open>hashmap_laws\<close>; all have an instance in the
  theories (\<open>small_json\<close>, \<open>small_builder\<close>, \<open>fun_map\<close>) on which the witnesses run. The answers of
  libcurl, the calls of libwebsockets and the readings of the clock are inputs.

  \<^bold>\<open>Locales.\<close> \<open>timed_queue\<close> (the queue the pool uses), \<open>lru_cache\<close> (look-up and insertion of a
  cache) and \<open>owned_struct\<close> (a structure that can be copied and destroyed) are interpreted on the
  definitions of the code.

  \<^bold>\<open>Bounds and fuel.\<close> cJSON refuses documents nested deeper than \<open>nesting_limit\<close> = 1000, which is the
  fuel of the readers; \<open>message_reading_ends\<close> shows that more fuel changes nothing. Heap addresses stand
  for blocks up to \<open>2 ^ 59\<close>. Tokens of the bot are at most 80 characters long where they are
  printed. IDs have at most 19 digits where they are printed into buffers of 20 bytes. Sequence
  numbers are those of an \<open>int\<close>.

  \<^bold>\<open>Not modelled.\<close> The empty functions of \<open>example_ping.c\<close>; the readers and destructors of roles,
  which have no body; tests that are commented out. cJSON, \<open>hashmap.h\<close> and Unity are empty submodules.
  A callback, a handler, the run of a request and a round of a thread are atomic: data races inside
  them (the caches have no lock, although workers and the event thread use them) are not modelled, nor
  is the use of the pool by other threads after it was freed.
\<close>

end
